theory Spec2Isabelle
  imports Complex_Main "HOL-Library.Monad_Syntax"
begin

section \<open>Strings and numbers of the host language\<close>

text \<open>
  The fleet manager is written in TypeScript. Its strings are modelled as \<^typ>\<open>string\<close>,
  that is as lists of characters with code points 0 to 255; the functions below give the
  library operations of the source (\<^verbatim>\<open>trim\<close>, \<^verbatim>\<open>startsWith\<close>, \<^verbatim>\<open>toLowerCase\<close>,
  \<^verbatim>\<open>split\<close>, number formatting) on that range.  Integers that the source keeps in
  a \<^verbatim>\<open>number\<close> are modelled as \<^typ>\<open>int\<close>; the two coincide below \<open>2^53\<close>.
\<close>

datatype error = Error string

definition isWhiteSpace :: "char \<Rightarrow> bool" where
  "isWhiteSpace c \<longleftrightarrow>
     c \<in> {CHR 0x09, CHR 0x0A, CHR 0x0B, CHR 0x0C, CHR 0x0D, CHR 0x20, CHR 0xA0}"

definition trim :: "string \<Rightarrow> string" where
  "trim s = rev (dropWhile isWhiteSpace (rev (dropWhile isWhiteSpace s)))"

definition startsWith :: "string \<Rightarrow> string \<Rightarrow> bool" where
  "startsWith s p \<longleftrightarrow> take (length p) s = p"

definition toLowerChar :: "char \<Rightarrow> char" where
  "toLowerChar c =
     (let n = (of_char c :: nat)
      in if (65 \<le> n \<and> n \<le> 90) \<or> (192 \<le> n \<and> n \<le> 222 \<and> n \<noteq> 215)
         then char_of (n + 32) else c)"

definition toLowerCase :: "string \<Rightarrow> string" where
  "toLowerCase s = map toLowerChar s"

definition isDigit :: "char \<Rightarrow> bool" where
  "isDigit c \<longleftrightarrow> 48 \<le> (of_char c :: nat) \<and> (of_char c :: nat) \<le> 57"

definition digitChar :: "nat \<Rightarrow> char" where
  "digitChar d = char_of (48 + d)"

text \<open>\<^verbatim>\<open>String(n)\<close> for a non-negative integer: its decimal digits.\<close>

function showNat :: "nat \<Rightarrow> string" where
  "showNat n = (if n < 10 then [digitChar n] else showNat (n div 10) @ [digitChar (n mod 10)])"
  by pat_completeness auto
termination
  by (relation "measure id") auto

definition showInt :: "int \<Rightarrow> string" where
  "showInt i = (if i < 0 then CHR ''-'' # showNat (nat (- i)) else showNat (nat i))"

text \<open>\<^verbatim>\<open>Number.parseInt(s, 10)\<close> on a string of decimal digits.\<close>

definition parseIntDigits :: "string \<Rightarrow> int" where
  "parseIntDigits s = foldl (\<lambda>a c. 10 * a + (int (of_char c) - 48)) 0 s"

section \<open>Fleet types\<close>

datatype FleetOs = Darwin | Linux | UnknownOs

datatype FleetArch = X64 | Arm64 | UnknownArch

datatype ServiceStatus = ServiceRunning | ServiceStopped | ServiceUnknown

fun FleetOs_string :: "FleetOs \<Rightarrow> string" where
  "FleetOs_string Darwin = ''darwin''"
| "FleetOs_string Linux = ''linux''"
| "FleetOs_string UnknownOs = ''unknown''"

fun FleetArch_string :: "FleetArch \<Rightarrow> string" where
  "FleetArch_string X64 = ''x64''"
| "FleetArch_string Arm64 = ''arm64''"
| "FleetArch_string UnknownArch = ''unknown''"

fun ServiceStatus_string :: "ServiceStatus \<Rightarrow> string" where
  "ServiceStatus_string ServiceRunning = ''running''"
| "ServiceStatus_string ServiceStopped = ''stopped''"
| "ServiceStatus_string ServiceUnknown = ''unknown''"

record Installed =
  inst_version :: string
  installedAt :: string

record FleetNode =
  node_id :: string
  node_name :: string
  node_host :: string
  node_port :: int
  node_user :: string
  node_trusted :: bool
  node_hostKey :: "string option"
  node_tags :: "string list"
  node_os :: "FleetOs option"
  node_arch :: "FleetArch option"
  node_installed :: "Installed option"
  node_lastSeen :: "string option"
  node_serviceStatus :: "ServiceStatus option"

record FleetStore =
  schemaVersion :: int
  nodes :: "FleetNode list"

section \<open>Bootstrap plans\<close>

record NodeInfo =
  info_os :: FleetOs
  info_arch :: FleetArch
  homeDir :: string
  hasNode :: bool
  nodeVersion :: "string option"
  hasNpm :: bool
  hasRaven :: bool
  ravenVersion :: "string option"
  hasService :: bool
  serviceRunning :: bool

datatype BootstrapStepStatus = Pending | Running | Success | Skipped | Failed

record BootstrapStep =
  step_id :: string
  description :: string
  commands :: "string list"
  skippable :: bool
  skipIf :: "(NodeInfo \<Rightarrow> bool) option"
  errorHint :: "string option"

record BootstrapPlan =
  plan_node :: FleetNode
  nodeInfo :: NodeInfo
  steps :: "BootstrapStep list"
  targetVersion :: string
  force :: bool

record PlanOptions =
  opt_version :: "string option"
  opt_force :: "bool option"

definition installCmd :: "string \<Rightarrow> string" where
  "installCmd version =
     (if version = ''latest'' then ''npm install -g raven'' else ''npm install -g raven@'' @ version)"

definition installRavenStep :: "string \<Rightarrow> bool \<Rightarrow> BootstrapStep" where
  "installRavenStep version frc =
     \<lparr> step_id = ''install-raven'',
       description = ''Install raven'' @ (if version \<noteq> ''latest'' then '' ('' @ version @ '')'' else ''''),
       commands = [installCmd version],
       skippable = (\<not> frc),
       skipIf = Some (\<lambda>info. \<not> frc \<and> hasRaven info \<and>
                  (version = ''latest'' \<or> ravenVersion info = Some version)),
       errorHint = Some ''Raven installation failed. Check npm configuration and network connectivity.'' \<rparr>"

definition createConfigDirStep :: BootstrapStep where
  "createConfigDirStep =
     \<lparr> step_id = ''create-config-dir'',
       description = ''Create configuration directory'',
       commands = [''mkdir -p ~/.openclaw'', ''chmod 700 ~/.openclaw''],
       skippable = False,
       skipIf = None,
       errorHint = None \<rparr>"

definition buildMacOSSteps :: "NodeInfo \<Rightarrow> string \<Rightarrow> bool \<Rightarrow> BootstrapStep list" where
  \<open>buildMacOSSteps info0 version frc =
     [ \<lparr> step_id = ''install-node'',
         description = ''Install Node.js via Homebrew'',
         commands =
           [''which brew > /dev/null 2>&1 || /bin/bash -c "$(curl -fsSL https://raw.githubusercontent.com/Homebrew/install/HEAD/install.sh)"'',
            ''brew install node''],
         skippable = True,
         skipIf = Some (\<lambda>info. hasNode info),
         errorHint = Some ''Node.js installation failed. Please install Node.js manually: brew install node'' \<rparr>,
       installRavenStep version frc,
       createConfigDirStep,
       \<lparr> step_id = ''install-service'',
         description = ''Install launchd service'',
         commands =
           [''mkdir -p ~/Library/LaunchAgents'',
            ''cat > ~/Library/LaunchAgents/ai.raven.gateway.plist << 'PLIST_EOF'\<newline><?xml version="1.0" encoding="UTF-8"?>\<newline><!DOCTYPE plist PUBLIC "-//Apple//DTD PLIST 1.0//EN" "http://www.apple.com/DTDs/PropertyList-1.0.dtd">\<newline><plist version="1.0">\<newline><dict>\<newline>    <key>Label</key>\<newline>    <string>ai.raven.gateway</string>\<newline>    <key>ProgramArguments</key>\<newline>    <array>\<newline>        <string>/usr/local/bin/raven</string>\<newline>        <string>gateway</string>\<newline>        <string>start</string>\<newline>    </array>\<newline>    <key>RunAtLoad</key>\<newline>    <true/>\<newline>    <key>KeepAlive</key>\<newline>    <true/>\<newline>    <key>StandardOutPath</key>\<newline>    <string>/tmp/raven-gateway.stdout.log</string>\<newline>    <key>StandardErrorPath</key>\<newline>    <string>/tmp/raven-gateway.stderr.log</string>\<newline>    <key>EnvironmentVariables</key>\<newline>    <dict>\<newline>        <key>PATH</key>\<newline>        <string>/usr/local/bin:/usr/bin:/bin:/usr/sbin:/sbin</string>\<newline>    </dict>\<newline></dict>\<newline></plist>\<newline>PLIST_EOF''],
         skippable = (\<not> frc),
         skipIf = Some (\<lambda>info. \<not> frc \<and> hasService info),
         errorHint = Some ''Failed to install launchd service. Check ~/Library/LaunchAgents permissions.'' \<rparr>,
       \<lparr> step_id = ''start-service'',
         description = ''Start raven gateway service'',
         commands =
           [''launchctl unload ~/Library/LaunchAgents/ai.raven.gateway.plist 2>/dev/null || true'',
            ''launchctl load ~/Library/LaunchAgents/ai.raven.gateway.plist''],
         skippable = False,
         skipIf = None,
         errorHint = Some ''Failed to start the service. Check launchctl logs.'' \<rparr>,
       \<lparr> step_id = ''verify-service'',
         description = ''Verify service is running'',
         commands =
           [''sleep 2'',
            ''launchctl list | grep -q ai.raven.gateway || (echo 'Service not found in launchctl list' && exit 1)'',
            ''raven gateway status --json --timeout 5000 || (echo 'Gateway not responding' && exit 1)''],
         skippable = False,
         skipIf = None,
         errorHint = Some ''Service verification failed. Check /tmp/raven-gateway.stderr.log for details.'' \<rparr> ]\<close>

definition buildLinuxSteps :: "NodeInfo \<Rightarrow> string \<Rightarrow> bool \<Rightarrow> BootstrapStep list" where
  \<open>buildLinuxSteps info0 version frc =
     [ \<lparr> step_id = ''install-node'',
         description = ''Install Node.js'',
         commands =
           [''if command -v apt-get &> /dev/null; then\<newline>        curl -fsSL https://deb.nodesource.com/setup_20.x | sudo -E bash -\<newline>        sudo apt-get install -y nodejs\<newline>      elif command -v yum &> /dev/null; then\<newline>        curl -fsSL https://rpm.nodesource.com/setup_20.x | sudo bash -\<newline>        sudo yum install -y nodejs\<newline>      elif command -v dnf &> /dev/null; then\<newline>        curl -fsSL https://rpm.nodesource.com/setup_20.x | sudo bash -\<newline>        sudo dnf install -y nodejs\<newline>      else\<newline>        echo "Unsupported package manager" && exit 1\<newline>      fi''],
         skippable = True,
         skipIf = Some (\<lambda>info. hasNode info),
         errorHint = Some ''Node.js installation failed. Please install Node.js manually.'' \<rparr>,
       installRavenStep version frc,
       createConfigDirStep,
       \<lparr> step_id = ''install-service'',
         description = ''Install systemd user service'',
         commands =
           [''mkdir -p ~/.config/systemd/user'',
            ''cat > ~/.config/systemd/user/raven-gateway.service << 'SERVICE_EOF'\<newline>[Unit]\<newline>Description=Raven Gateway Service\<newline>After=network.target\<newline>\<newline>[Service]\<newline>Type=simple\<newline>ExecStart=/usr/bin/raven gateway start\<newline>Restart=always\<newline>RestartSec=5\<newline>Environment=PATH=/usr/local/bin:/usr/bin:/bin\<newline>\<newline>[Install]\<newline>WantedBy=default.target\<newline>SERVICE_EOF'',
            ''systemctl --user daemon-reload'',
            ''systemctl --user enable raven-gateway''],
         skippable = (\<not> frc),
         skipIf = Some (\<lambda>info. \<not> frc \<and> hasService info),
         errorHint = Some ''Failed to install systemd service. Check ~/.config/systemd/user permissions.'' \<rparr>,
       \<lparr> step_id = ''start-service'',
         description = ''Start raven gateway service'',
         commands = [''systemctl --user restart raven-gateway''],
         skippable = False,
         skipIf = None,
         errorHint = Some ''Failed to start the service. Check journalctl --user -u raven-gateway for details.'' \<rparr>,
       \<lparr> step_id = ''verify-service'',
         description = ''Verify service is running'',
         commands =
           [''sleep 2'',
            ''systemctl --user is-active raven-gateway'',
            ''raven gateway status --json --timeout 5000 || (echo 'Gateway not responding' && exit 1)''],
         skippable = False,
         skipIf = None,
         errorHint = Some ''Service verification failed. Check journalctl --user -u raven-gateway for details.'' \<rparr> ]\<close>

definition buildBootstrapPlan :: "FleetNode \<Rightarrow> NodeInfo \<Rightarrow> PlanOptions \<Rightarrow> error + BootstrapPlan" where
  "buildBootstrapPlan node info options =
     (let version = (case opt_version options of None \<Rightarrow> ''latest'' | Some v \<Rightarrow> v);
          frc = (case opt_force options of None \<Rightarrow> False | Some f \<Rightarrow> f);
          mk = (\<lambda>sts. \<lparr> plan_node = node, nodeInfo = info, steps = sts,
                         targetVersion = version, force = frc \<rparr>)
      in case info_os info of
           Darwin \<Rightarrow> Inr (mk (buildMacOSSteps info version frc))
         | Linux \<Rightarrow> Inr (mk (buildLinuxSteps info version frc))
         | UnknownOs \<Rightarrow>
             Inl (Error (''Unsupported operating system: '' @ FleetOs_string (info_os info))))"

section \<open>Transport\<close>

text \<open>
  The transport starts a child process and waits for it.  What the child does is not part
  of the program: it is given by the environment as a function \<open>spawn\<close> from the binary,
  its arguments, the timeout and the state of the outside world to a \<open>ChildRun\<close>, the
  events that the promise of the source sees before it resolves, and the next state of the
  world.  Every call of \<open>spawn\<close> is recorded in the field \<open>spawned\<close> of the system state.
\<close>

datatype StrictHostKeyChecking = Yes | No | AcceptNew

fun StrictHostKeyChecking_string :: "StrictHostKeyChecking \<Rightarrow> string" where
  "StrictHostKeyChecking_string Yes = ''yes''"
| "StrictHostKeyChecking_string No = ''no''"
| "StrictHostKeyChecking_string AcceptNew = ''accept-new''"

record SshExecOptions =
  ssh_host :: string
  ssh_port :: int
  ssh_user :: string
  command :: string
  timeoutMs :: int
  knownHostsPath :: string
  strictHostKeyChecking :: StrictHostKeyChecking

record SshExecResult =
  stdout :: string
  stderr :: string
  exitCode :: "int option"
  signal :: "string option"
  timedOut :: bool

record KeyscanResult =
  ks_output :: string
  ks_exitCode :: "int option"
  ks_error :: "string option"

datatype ChildEnd = ChildExit "int option" "string option" | ChildError string

record ChildRun =
  child_stdout :: string
  child_stderr :: string
  timerFired :: bool
  child_end :: ChildEnd

datatype json = JNull | JBool bool | JNum rat | JStr string | JArr "json list"
  | JObj "(string \<times> json) list"

datatype rawJson = Malformed | Parsed json

datatype jsonFile = NoFile | FileContent rawJson

record UpdateNodeInput =
  upd_host :: "string option"
  upd_port :: "int option"
  upd_user :: "string option"
  upd_trusted :: "bool option"
  upd_hostKey :: "string option"
  upd_tags :: "string list option"
  upd_os :: "FleetOs option"
  upd_arch :: "FleetArch option"
  upd_installed :: "Installed option"
  upd_lastSeen :: "string option"
  upd_serviceStatus :: "ServiceStatus option"

record 'w Env =
  spawn :: "string \<Rightarrow> string list \<Rightarrow> int \<Rightarrow> 'w \<Rightarrow> ChildRun \<times> 'w"
  dateNow :: "'w \<Rightarrow> int"
  toISOStringNow :: "'w \<Rightarrow> string"
  resolveKnownHostsPath :: string
  jsonParse :: "string \<Rightarrow> json option"

record 'w sys =
  world :: 'w
  spawned :: "(string \<times> string list) list"
  nodesFile :: jsonFile
  updateCalls :: "(string \<times> UpdateNodeInput) list"
  progress :: "(BootstrapStep \<times> BootstrapStepStatus) list"

definition hostRejected :: string where
  "hostRejected = ''Host cannot start with '-' (security)''"

definition sshArgs :: "SshExecOptions \<Rightarrow> string list" where
  "sshArgs opts =
     [''-o'', ''BatchMode=yes'',
      ''-o'', ''ConnectTimeout=5'',
      ''-o'', ''StrictHostKeyChecking='' @ StrictHostKeyChecking_string (strictHostKeyChecking opts),
      ''-o'', ''UserKnownHostsFile='' @ knownHostsPath opts,
      ''-o'', ''ServerAliveInterval=15'',
      ''-o'', ''ServerAliveCountMax=3'',
      ''-p'', showInt (ssh_port opts),
      ''--'',
      ssh_user opts @ ''@'' @ ssh_host opts,
      command opts]"

definition sshExec :: "'w Env \<Rightarrow> SshExecOptions \<Rightarrow> 'w sys \<Rightarrow> SshExecResult \<times> 'w sys" where
  "sshExec E opts st =
     (if startsWith (ssh_host opts) ''-'' then
        (\<lparr> stdout = '''', stderr = hostRejected, exitCode = Some 1, signal = None,
            timedOut = False \<rparr>, st)
      else
        let args = sshArgs opts;
            (run, w') = spawn E ''/usr/bin/ssh'' args (timeoutMs opts) (world st);
            st' = st\<lparr> world := w', spawned := spawned st @ [(''/usr/bin/ssh'', args)] \<rparr>
        in (case child_end run of
              ChildExit code sg \<Rightarrow>
                \<lparr> stdout = child_stdout run, stderr = child_stderr run, exitCode = code,
                   signal = sg, timedOut = timerFired run \<rparr>
            | ChildError msg \<Rightarrow>
                \<lparr> stdout = child_stdout run, stderr = ''SSH error: '' @ msg, exitCode = Some 1,
                   signal = None, timedOut = False \<rparr>,
            st'))"

definition sshKeyscan ::
  "'w Env \<Rightarrow> string \<Rightarrow> int \<Rightarrow> int option \<Rightarrow> 'w sys \<Rightarrow> KeyscanResult \<times> 'w sys" where
  "sshKeyscan E host port tmo st =
     (if startsWith host ''-'' then
        (\<lparr> ks_output = '''', ks_exitCode = Some 1, ks_error = Some hostRejected \<rparr>, st)
      else
        let args = [''-T'', ''5'', ''-p'', showInt port, host];
            (run, w') = spawn E ''/usr/bin/ssh-keyscan'' args
                          (case tmo of None \<Rightarrow> 10000 | Some t \<Rightarrow> t) (world st);
            st' = st\<lparr> world := w', spawned := spawned st @ [(''/usr/bin/ssh-keyscan'', args)] \<rparr>
        in (if timerFired run then
              \<lparr> ks_output = child_stdout run, ks_exitCode = None,
                 ks_error = Some ''ssh-keyscan timed out'' \<rparr>
            else case child_end run of
              ChildExit code sg \<Rightarrow>
                \<lparr> ks_output = child_stdout run, ks_exitCode = code,
                   ks_error = (if trim (child_stderr run) = '''' then None
                               else Some (trim (child_stderr run))) \<rparr>
            | ChildError msg \<Rightarrow>
                \<lparr> ks_output = child_stdout run, ks_exitCode = Some 1,
                   ks_error = Some (''ssh-keyscan error: '' @ msg) \<rparr>,
            st'))"

section \<open>Inventory store\<close>

text \<open>
  The inventory is one JSON file.  A file is modelled by what \<^verbatim>\<open>JSON.parse\<close> makes of its
  text: \<open>Malformed\<close> when the text is not JSON, \<open>Parsed v\<close> otherwise; \<open>NoFile\<close> is a path
  that cannot be read.  Writing a value and reading it back gives the value again.  The
  checks \<^verbatim>\<open>uuid()\<close> and \<^verbatim>\<open>datetime()\<close> of the schema library are parameters.  Taking
  the advisory lock is not modelled: one process runs at a time.
\<close>

record ZodChecks =
  isUuid :: "string \<Rightarrow> bool"
  isDatetime :: "string \<Rightarrow> bool"

definition isNameChar :: "char \<Rightarrow> bool" where
  "isNameChar c \<longleftrightarrow>
     (let n = (of_char c :: nat)
      in (97 \<le> n \<and> n \<le> 122) \<or> (65 \<le> n \<and> n \<le> 90) \<or> (48 \<le> n \<and> n \<le> 57) \<or> n = 95 \<or> n = 45)"

definition nodeNameRegex_test :: "string \<Rightarrow> bool" where
  "nodeNameRegex_test s \<longleftrightarrow> s \<noteq> [] \<and> list_all isNameChar s"

definition createEmptyFleetStore :: FleetStore where
  "createEmptyFleetStore = \<lparr> schemaVersion = 1, nodes = [] \<rparr>"

subsection \<open>The schema\<close>

definition zString :: "json \<Rightarrow> string option" where
  "zString j = (case j of JStr s \<Rightarrow> Some s | _ \<Rightarrow> None)"

definition zBoolean :: "json \<Rightarrow> bool option" where
  "zBoolean j = (case j of JBool b \<Rightarrow> Some b | _ \<Rightarrow> None)"

definition zRefine :: "('a \<Rightarrow> bool) \<Rightarrow> 'a option \<Rightarrow> 'a option" where
  "zRefine P r = (case r of None \<Rightarrow> None | Some x \<Rightarrow> if P x then Some x else None)"

definition zArray :: "(json \<Rightarrow> 'a option) \<Rightarrow> json \<Rightarrow> 'a list option" where
  "zArray p j = (case j of JArr js \<Rightarrow> those (map p js) | _ \<Rightarrow> None)"

definition zRequired :: "(json \<Rightarrow> 'a option) \<Rightarrow> json option \<Rightarrow> 'a option" where
  "zRequired p v = (case v of None \<Rightarrow> None | Some j \<Rightarrow> p j)"

definition zOptional :: "(json \<Rightarrow> 'a option) \<Rightarrow> json option \<Rightarrow> 'a option option" where
  "zOptional p v = (case v of None \<Rightarrow> Some None | Some j \<Rightarrow> map_option Some (p j))"

definition zDefault :: "'a \<Rightarrow> (json \<Rightarrow> 'a option) \<Rightarrow> json option \<Rightarrow> 'a option" where
  "zDefault d p v = (case v of None \<Rightarrow> Some d | Some j \<Rightarrow> p j)"

definition zPort :: "json \<Rightarrow> int option" where
  "zPort j = (case j of
                JNum r \<Rightarrow> if of_int \<lfloor>r\<rfloor> = r \<and> 1 \<le> r \<and> r \<le> 65535 then Some \<lfloor>r\<rfloor> else None
              | _ \<Rightarrow> None)"

definition FleetOsSchema :: "json \<Rightarrow> FleetOs option" where
  "FleetOsSchema j =
     (case j of
        JStr s \<Rightarrow> if s = ''darwin'' then Some Darwin
                  else if s = ''linux'' then Some Linux
                  else if s = ''unknown'' then Some UnknownOs else None
      | _ \<Rightarrow> None)"

definition FleetArchSchema :: "json \<Rightarrow> FleetArch option" where
  "FleetArchSchema j =
     (case j of
        JStr s \<Rightarrow> if s = ''x64'' then Some X64
                  else if s = ''arm64'' then Some Arm64
                  else if s = ''unknown'' then Some UnknownArch else None
      | _ \<Rightarrow> None)"

definition ServiceStatusSchema :: "json \<Rightarrow> ServiceStatus option" where
  "ServiceStatusSchema j =
     (case j of
        JStr s \<Rightarrow> if s = ''running'' then Some ServiceRunning
                  else if s = ''stopped'' then Some ServiceStopped
                  else if s = ''unknown'' then Some ServiceUnknown else None
      | _ \<Rightarrow> None)"

definition InstalledSchema :: "ZodChecks \<Rightarrow> json \<Rightarrow> Installed option" where
  "InstalledSchema Z j =
     (case j of
        JObj kvs \<Rightarrow>
          do {
            v \<leftarrow> zRequired zString (map_of kvs ''version'');
            a \<leftarrow> zRequired (\<lambda>x. zRefine (isDatetime Z) (zString x)) (map_of kvs ''installedAt'');
            Some \<lparr> inst_version = v, installedAt = a \<rparr>
          }
      | _ \<Rightarrow> None)"

definition nameOk :: "string \<Rightarrow> bool" where
  "nameOk s \<longleftrightarrow> 1 \<le> length s \<and> length s \<le> 100 \<and> nodeNameRegex_test s"

definition hostOk :: "string \<Rightarrow> bool" where
  "hostOk s \<longleftrightarrow> 1 \<le> length s \<and> \<not> startsWith s ''-''"

definition FleetNodeSchema :: "ZodChecks \<Rightarrow> json \<Rightarrow> FleetNode option" where
  "FleetNodeSchema Z j =
     (case j of
        JObj kvs \<Rightarrow>
          do {
            i \<leftarrow> zRequired (\<lambda>x. zRefine (isUuid Z) (zString x)) (map_of kvs ''id'');
            n \<leftarrow> zRequired (\<lambda>x. zRefine nameOk (zString x)) (map_of kvs ''name'');
            h \<leftarrow> zRequired (\<lambda>x. zRefine hostOk (zString x)) (map_of kvs ''host'');
            p \<leftarrow> zDefault 22 zPort (map_of kvs ''port'');
            u \<leftarrow> zRequired (\<lambda>x. zRefine (\<lambda>s. 1 \<le> length s) (zString x)) (map_of kvs ''user'');
            t \<leftarrow> zDefault False zBoolean (map_of kvs ''trusted'');
            hk \<leftarrow> zOptional zString (map_of kvs ''hostKey'');
            tg \<leftarrow> zDefault [] (zArray zString) (map_of kvs ''tags'');
            os \<leftarrow> zOptional FleetOsSchema (map_of kvs ''os'');
            ar \<leftarrow> zOptional FleetArchSchema (map_of kvs ''arch'');
            ins \<leftarrow> zOptional (InstalledSchema Z) (map_of kvs ''installed'');
            ls \<leftarrow> zOptional (\<lambda>x. zRefine (isDatetime Z) (zString x)) (map_of kvs ''lastSeen'');
            ss \<leftarrow> zOptional ServiceStatusSchema (map_of kvs ''serviceStatus'');
            Some \<lparr> node_id = i, node_name = n, node_host = h, node_port = p, node_user = u,
                   node_trusted = t, node_hostKey = hk, node_tags = tg, node_os = os,
                   node_arch = ar, node_installed = ins, node_lastSeen = ls,
                   node_serviceStatus = ss \<rparr>
          }
      | _ \<Rightarrow> None)"

definition FleetStoreSchema_safeParse :: "ZodChecks \<Rightarrow> json \<Rightarrow> FleetStore option" where
  "FleetStoreSchema_safeParse Z j =
     (case j of
        JObj kvs \<Rightarrow>
          if map_of kvs ''schemaVersion'' = Some (JNum 1) then
            (case zDefault [] (zArray (FleetNodeSchema Z)) (map_of kvs ''nodes'') of
               None \<Rightarrow> None
             | Some ns \<Rightarrow> Some \<lparr> schemaVersion = 1, nodes = ns \<rparr>)
          else None
      | _ \<Rightarrow> None)"

subsection \<open>Serialisation\<close>

text \<open>An object literal: a field whose value is \<^verbatim>\<open>undefined\<close> is left out of the JSON text.\<close>

definition jsonObject :: "(string \<times> json option) list \<Rightarrow> json" where
  "jsonObject kvs = JObj (List.map_filter (\<lambda>(k, v). map_option (Pair k) v) kvs)"

definition encodeInstalled :: "Installed \<Rightarrow> json" where
  "encodeInstalled i =
     JObj [(''version'', JStr (inst_version i)), (''installedAt'', JStr (installedAt i))]"

definition nodeFields :: "FleetNode \<Rightarrow> (string \<times> json option) list" where
  "nodeFields n =
     [(''id'', Some (JStr (node_id n))),
      (''name'', Some (JStr (node_name n))),
      (''host'', Some (JStr (node_host n))),
      (''port'', Some (JNum (of_int (node_port n)))),
      (''user'', Some (JStr (node_user n))),
      (''trusted'', Some (JBool (node_trusted n))),
      (''hostKey'', map_option JStr (node_hostKey n)),
      (''tags'', Some (JArr (map JStr (node_tags n)))),
      (''os'', map_option (\<lambda>x. JStr (FleetOs_string x)) (node_os n)),
      (''arch'', map_option (\<lambda>x. JStr (FleetArch_string x)) (node_arch n)),
      (''installed'', map_option encodeInstalled (node_installed n)),
      (''lastSeen'', map_option JStr (node_lastSeen n)),
      (''serviceStatus'', map_option (\<lambda>x. JStr (ServiceStatus_string x)) (node_serviceStatus n))]"

definition encodeNode :: "FleetNode \<Rightarrow> json" where
  "encodeNode n = jsonObject (nodeFields n)"

definition encodeStore :: "FleetStore \<Rightarrow> json" where
  "encodeStore s =
     JObj [(''schemaVersion'', JNum (of_int (schemaVersion s))),
           (''nodes'', JArr (map encodeNode (nodes s)))]"

subsection \<open>Files\<close>

definition readJsonFile :: "jsonFile \<Rightarrow> json \<Rightarrow> json \<times> bool" where
  "readJsonFile f fallback =
     (case f of
        NoFile \<Rightarrow> (fallback, False)
      | FileContent Malformed \<Rightarrow> (fallback, True)
      | FileContent (Parsed v) \<Rightarrow> if v = JNull then (fallback, True) else (v, True))"

definition writeJsonFile :: "json \<Rightarrow> jsonFile" where
  "writeJsonFile v = FileContent (Parsed v)"

definition ensureJsonFile :: "jsonFile \<Rightarrow> json \<Rightarrow> jsonFile" where
  "ensureJsonFile f fallback = (case f of NoFile \<Rightarrow> writeJsonFile fallback | _ \<Rightarrow> f)"

definition readStoreLocked :: "ZodChecks \<Rightarrow> jsonFile \<Rightarrow> FleetStore" where
  "readStoreLocked Z f =
     (case FleetStoreSchema_safeParse Z (fst (readJsonFile f (encodeStore createEmptyFleetStore))) of
        None \<Rightarrow> createEmptyFleetStore
      | Some d \<Rightarrow> d)"

definition loadFleetStore :: "ZodChecks \<Rightarrow> jsonFile \<Rightarrow> FleetStore" where
  "loadFleetStore Z f =
     (let value = fst (readJsonFile f (encodeStore createEmptyFleetStore))
      in case FleetStoreSchema_safeParse Z value of
           None \<Rightarrow> createEmptyFleetStore
         | Some d \<Rightarrow> d)"

subsection \<open>Validation\<close>

definition normalizeNodeName :: "string \<Rightarrow> string" where
  "normalizeNodeName name = toLowerCase (trim name)"

definition validateNodeName :: "string \<Rightarrow> error option" where
  "validateNodeName name =
     (if name = '''' \<or> trim name = '''' then Some (Error ''Node name cannot be empty'')
      else if \<not> nodeNameRegex_test name then
        Some (Error ''Node name must contain only letters, numbers, hyphens, and underscores'')
      else if length name > 100 then Some (Error ''Node name must be at most 100 characters'')
      else None)"

definition validateHost :: "string \<Rightarrow> error option" where
  "validateHost host =
     (if host = '''' \<or> trim host = '''' then Some (Error ''Host cannot be empty'')
      else if startsWith host ''-'' then Some (Error hostRejected)
      else None)"

definition validatePort :: "int \<Rightarrow> error option" where
  "validatePort port =
     (if port < 1 \<or> port > 65535 then Some (Error ''Port must be an integer between 1 and 65535'')
      else None)"

definition validateUser :: "string \<Rightarrow> error option" where
  "validateUser user =
     (if user = '''' \<or> trim user = '''' then Some (Error ''User cannot be empty'') else None)"

subsection \<open>Operations\<close>

record AddNodeInput =
  add_name :: string
  add_host :: string
  add_port :: int
  add_user :: string
  add_trusted :: "bool option"
  add_hostKey :: "string option"
  add_tags :: "string list option"
  add_os :: "FleetOs option"
  add_arch :: "FleetArch option"
  add_installed :: "Installed option"
  add_lastSeen :: "string option"
  add_serviceStatus :: "ServiceStatus option"

definition duplicateName :: "string \<Rightarrow> error" where
  "duplicateName name =
     Error (''Node with name '' @ [CHR 0x27] @ name @ [CHR 0x27] @ '' already exists'')"

definition validateAdd :: "AddNodeInput \<Rightarrow> error option" where
  "validateAdd input =
     (case validateNodeName (add_name input) of
        Some e \<Rightarrow> Some e
      | None \<Rightarrow>
        (case validateHost (add_host input) of
           Some e \<Rightarrow> Some e
         | None \<Rightarrow>
           (case validatePort (add_port input) of
              Some e \<Rightarrow> Some e
            | None \<Rightarrow> validateUser (add_user input))))"

definition addNode ::
  "ZodChecks \<Rightarrow> string \<Rightarrow> AddNodeInput \<Rightarrow> jsonFile \<Rightarrow> (error + FleetNode) \<times> jsonFile" where
  "addNode Z uuid input f =
     (case validateAdd input of
        Some e \<Rightarrow> (Inl e, f)
      | None \<Rightarrow>
          let f1 = ensureJsonFile f (encodeStore createEmptyFleetStore);
              store = readStoreLocked Z f1;
              normalizedName = normalizeNodeName (add_name input);
              existing = find (\<lambda>n. normalizeNodeName (node_name n) = normalizedName) (nodes store)
          in case existing of
               Some _ \<Rightarrow> (Inl (duplicateName (add_name input)), f1)
             | None \<Rightarrow>
                 let node = \<lparr> node_id = uuid,
                               node_name = trim (add_name input),
                               node_host = trim (add_host input),
                               node_port = add_port input,
                               node_user = trim (add_user input),
                               node_trusted = (case add_trusted input of None \<Rightarrow> False | Some t \<Rightarrow> t),
                               node_hostKey = add_hostKey input,
                               node_tags = (case add_tags input of None \<Rightarrow> [] | Some t \<Rightarrow> t),
                               node_os = None,
                               node_arch = None,
                               node_installed = add_installed input,
                               node_lastSeen = add_lastSeen input,
                               node_serviceStatus = None \<rparr>
                 in (Inr node, writeJsonFile (encodeStore (store\<lparr> nodes := nodes store @ [node] \<rparr>))))"

definition listNodes :: "ZodChecks \<Rightarrow> jsonFile \<Rightarrow> FleetNode list" where
  "listNodes Z f = nodes (loadFleetStore Z f)"

definition getNode :: "ZodChecks \<Rightarrow> string \<Rightarrow> jsonFile \<Rightarrow> FleetNode option" where
  "getNode Z name f =
     (let store = loadFleetStore Z f;
          normalizedName = normalizeNodeName name
      in find (\<lambda>n. normalizeNodeName (node_name n) = normalizedName) (nodes store))"

fun findIndex :: "('a \<Rightarrow> bool) \<Rightarrow> 'a list \<Rightarrow> nat option" where
  "findIndex P [] = None"
| "findIndex P (x # xs) = (if P x then Some 0 else map_option Suc (findIndex P xs))"

definition validateUpdate :: "UpdateNodeInput \<Rightarrow> error option" where
  "validateUpdate updates =
     (case (case upd_host updates of None \<Rightarrow> None | Some h \<Rightarrow> validateHost h) of
        Some e \<Rightarrow> Some e
      | None \<Rightarrow>
        (case (case upd_port updates of None \<Rightarrow> None | Some p \<Rightarrow> validatePort p) of
           Some e \<Rightarrow> Some e
         | None \<Rightarrow> (case upd_user updates of None \<Rightarrow> None | Some u \<Rightarrow> validateUser u)))"

definition mergeUpdates :: "FleetNode \<Rightarrow> UpdateNodeInput \<Rightarrow> FleetNode" where
  "mergeUpdates existing updates =
     existing
       \<lparr> node_host := (case upd_host updates of None \<Rightarrow> node_host existing | Some h \<Rightarrow> trim h),
         node_port := (case upd_port updates of None \<Rightarrow> node_port existing | Some p \<Rightarrow> p),
         node_user := (case upd_user updates of None \<Rightarrow> node_user existing | Some u \<Rightarrow> trim u),
         node_trusted := (case upd_trusted updates of None \<Rightarrow> node_trusted existing | Some t \<Rightarrow> t),
         node_hostKey := (case upd_hostKey updates of None \<Rightarrow> node_hostKey existing | Some k \<Rightarrow> Some k),
         node_tags := (case upd_tags updates of None \<Rightarrow> node_tags existing | Some t \<Rightarrow> t),
         node_installed := (case upd_installed updates of None \<Rightarrow> node_installed existing | Some i \<Rightarrow> Some i),
         node_lastSeen := (case upd_lastSeen updates of None \<Rightarrow> node_lastSeen existing | Some l \<Rightarrow> Some l) \<rparr>"

definition removeNode :: "ZodChecks \<Rightarrow> string \<Rightarrow> jsonFile \<Rightarrow> bool \<times> jsonFile" where
  "removeNode Z name f =
     (let f1 = ensureJsonFile f (encodeStore createEmptyFleetStore);
          store = readStoreLocked Z f1;
          normalizedName = normalizeNodeName name
      in case findIndex (\<lambda>n. normalizeNodeName (node_name n) = normalizedName) (nodes store) of
           None \<Rightarrow> (False, f1)
         | Some index \<Rightarrow>
             (True, writeJsonFile (encodeStore
                (store\<lparr> nodes := take index (nodes store) @ drop (Suc index) (nodes store) \<rparr>))))"

definition updateNode ::
  "ZodChecks \<Rightarrow> string \<Rightarrow> UpdateNodeInput \<Rightarrow> jsonFile \<Rightarrow> (error + FleetNode option) \<times> jsonFile" where
  "updateNode Z name updates f =
     (case validateUpdate updates of
        Some e \<Rightarrow> (Inl e, f)
      | None \<Rightarrow>
          let f1 = ensureJsonFile f (encodeStore createEmptyFleetStore);
              store = readStoreLocked Z f1;
              normalizedName = normalizeNodeName name
          in case findIndex (\<lambda>n. normalizeNodeName (node_name n) = normalizedName) (nodes store) of
               None \<Rightarrow> (Inr None, f1)
             | Some index \<Rightarrow>
                 let existing = nodes store ! index;
                     updated = mergeUpdates existing updates
                 in (Inr (Some updated),
                     writeJsonFile (encodeStore (store\<lparr> nodes := (nodes store)[index := updated] \<rparr>))))"

section \<open>Executor\<close>

text \<open>
  The optional progress callback of the source is modelled by the field \<open>progress\<close> of the
  system state, which lists the notifications in the order they are made; the field
  \<open>updateCalls\<close> lists the calls of \<open>updateNode\<close>.
\<close>

record BootstrapStepResult =
  step :: BootstrapStep
  status :: BootstrapStepStatus
  sr_stdout :: string
  sr_stderr :: string
  sr_error :: "string option"
  durationMs :: int

record BootstrapResult =
  res_node :: FleetNode
  success :: bool
  stepResults :: "BootstrapStepResult list"
  installedVersion :: "string option"
  totalDurationMs :: int
  res_error :: "string option"

record ExecOptions =
  dryRun :: "bool option"
  commandTimeoutMs :: "int option"

text \<open>The options with which the executor and the diagnostics prober call the transport.\<close>

definition nodeSshOptions :: "FleetNode \<Rightarrow> string \<Rightarrow> int \<Rightarrow> string \<Rightarrow> SshExecOptions" where
  "nodeSshOptions node cmd tmo kh =
     \<lparr> ssh_host = node_host node, ssh_port = node_port node, ssh_user = node_user node,
       command = cmd, timeoutMs = tmo, knownHostsPath = kh,
       strictHostKeyChecking = (if node_trusted node then Yes else AcceptNew) \<rparr>"

definition stepError :: "BootstrapStep \<Rightarrow> SshExecResult \<Rightarrow> string" where
  "stepError stp result =
     (if timedOut result then ''Command timed out''
      else case errorHint stp of
             Some h \<Rightarrow> if h \<noteq> '''' then h
                       else ''Command failed with exit code '' @
                            (case exitCode result of None \<Rightarrow> ''null'' | Some c \<Rightarrow> showInt c)
           | None \<Rightarrow> ''Command failed with exit code '' @
                       (case exitCode result of None \<Rightarrow> ''null'' | Some c \<Rightarrow> showInt c))"

fun executeStepLoop ::
  "'w Env \<Rightarrow> FleetNode \<Rightarrow> BootstrapStep \<Rightarrow> string \<Rightarrow> int \<Rightarrow> int \<Rightarrow> string list \<Rightarrow> string \<Rightarrow> string
     \<Rightarrow> 'w sys \<Rightarrow> BootstrapStepResult \<times> 'w sys" where
  "executeStepLoop E node stp kh tmo startTime [] out err st =
     (\<lparr> step = stp, status = Success, sr_stdout = out, sr_stderr = err, sr_error = None,
         durationMs = dateNow E (world st) - startTime \<rparr>, st)"
| "executeStepLoop E node stp kh tmo startTime (cmd # cmds) out err st =
     (let (result, st1) = sshExec E (nodeSshOptions node cmd tmo kh) st;
          out1 = out @ stdout result;
          err1 = err @ stderr result
      in if exitCode result \<noteq> Some 0 \<or> timedOut result then
           (\<lparr> step = stp, status = Failed, sr_stdout = out1, sr_stderr = err1,
               sr_error = Some (stepError stp result),
               durationMs = dateNow E (world st1) - startTime \<rparr>, st1)
         else executeStepLoop E node stp kh tmo startTime cmds out1 err1 st1)"

definition executeStep ::
  "'w Env \<Rightarrow> FleetNode \<Rightarrow> BootstrapStep \<Rightarrow> string \<Rightarrow> int \<Rightarrow> 'w sys \<Rightarrow> BootstrapStepResult \<times> 'w sys" where
  "executeStep E node stp kh tmo st =
     executeStepLoop E node stp kh tmo (dateNow E (world st)) (commands stp) '''' '''' st"

definition onProgress :: "BootstrapStep \<Rightarrow> BootstrapStepStatus \<Rightarrow> 'w sys \<Rightarrow> 'w sys" where
  "onProgress stp s st = st\<lparr> progress := progress st @ [(stp, s)] \<rparr>"

text \<open>
  The loop over the steps of the plan.  It returns the step results so far and, when a
  step failed, that step's result: the source returns from inside the loop there.
\<close>

fun executePlanLoop ::
  "'w Env \<Rightarrow> BootstrapPlan \<Rightarrow> bool \<Rightarrow> int \<Rightarrow> string \<Rightarrow> BootstrapStep list \<Rightarrow> BootstrapStepResult list
     \<Rightarrow> 'w sys \<Rightarrow> (BootstrapStepResult option \<times> BootstrapStepResult list) \<times> 'w sys" where
  "executePlanLoop E plan dry tmo kh [] results st = ((None, results), st)"
| "executePlanLoop E plan dry tmo kh (stp # rest) results st =
     (let shouldSkip = (case skipIf stp of None \<Rightarrow> False | Some p \<Rightarrow> p (nodeInfo plan))
      in if shouldSkip then
           executePlanLoop E plan dry tmo kh rest
             (results @ [\<lparr> step = stp, status = Skipped, sr_stdout = '''', sr_stderr = '''',
                            sr_error = None, durationMs = 0 \<rparr>])
             (onProgress stp Skipped st)
         else
           let st1 = onProgress stp Running st
           in if dry then
                executePlanLoop E plan dry tmo kh rest
                  (results @ [\<lparr> step = stp, status = Success,
                                 sr_stdout = ''[DRY RUN] Commands not executed'', sr_stderr = '''',
                                 sr_error = None, durationMs = 0 \<rparr>])
                  (onProgress stp Success st1)
              else
                let (result, st2) = executeStep E (plan_node plan) stp kh tmo st1;
                    st3 = onProgress stp (status result) st2
                in if status result = Failed then ((Some result, results @ [result]), st3)
                   else executePlanLoop E plan dry tmo kh rest (results @ [result]) st3)"

definition updateNodeSys ::
  "ZodChecks \<Rightarrow> string \<Rightarrow> UpdateNodeInput \<Rightarrow> 'w sys \<Rightarrow> (error + FleetNode option) \<times> 'w sys" where
  "updateNodeSys Z name updates st =
     (let (r, f) = updateNode Z name updates (nodesFile st)
      in (r, st\<lparr> nodesFile := f, updateCalls := updateCalls st @ [(name, updates)] \<rparr>))"

definition executeBootstrapPlan ::
  "'w Env \<Rightarrow> ZodChecks \<Rightarrow> BootstrapPlan \<Rightarrow> ExecOptions \<Rightarrow> 'w sys \<Rightarrow> (error + BootstrapResult) \<times> 'w sys" where
  "executeBootstrapPlan E Z plan options st =
     (let startTime = dateNow E (world st);
          dry = (case dryRun options of None \<Rightarrow> False | Some d \<Rightarrow> d);
          tmo = (case commandTimeoutMs options of None \<Rightarrow> 120000 | Some t \<Rightarrow> t);
          kh = resolveKnownHostsPath E;
          ((failed, results), st1) = executePlanLoop E plan dry tmo kh (steps plan) [] st
      in case failed of
           Some result \<Rightarrow>
             (Inr \<lparr> res_node = plan_node plan, success = False, stepResults = results,
                    installedVersion = None,
                    totalDurationMs = dateNow E (world st1) - startTime,
                    res_error = sr_error result \<rparr>, st1)
         | None \<Rightarrow>
             let now = toISOStringNow E (world st1);
                 done = (\<lambda>s. \<lparr> res_node = plan_node plan, success = True, stepResults = results,
                               installedVersion = Some (targetVersion plan),
                               totalDurationMs = dateNow E (world s) - startTime,
                               res_error = None \<rparr>)
             in if \<not> dry then
                  (case updateNodeSys Z (node_name (plan_node plan))
                          \<lparr> upd_host = None, upd_port = None, upd_user = None, upd_trusted = None,
                             upd_hostKey = None, upd_tags = None,
                             upd_os = Some (info_os (nodeInfo plan)),
                             upd_arch = Some (info_arch (nodeInfo plan)),
                             upd_installed = Some \<lparr> inst_version = targetVersion plan,
                                                     installedAt = now \<rparr>,
                             upd_lastSeen = Some now,
                             upd_serviceStatus = Some ServiceRunning \<rparr> st1 of
                     (Inl e, st2) \<Rightarrow> (Inl e, st2)
                   | (Inr _, st2) \<Rightarrow> (Inr (done st2), st2))
                else (Inr (done st1), st1))"

text \<open>
  The following definitions serve to state what the executor does when a command fails.
  \<open>shouldSkip\<close> is the test of the plan loop.  A transport result lets a step go on when
  its exit code is 0 and it did not time out.  \<open>runAll\<close> calls the transport for each of a
  list of calls, in order and whatever the results: it gives what the commands before a
  failing one returned, and the state in which the failing one is called.  The transport
  reads and changes only the outside world and the list of spawned processes.
\<close>

definition shouldSkip :: "BootstrapPlan \<Rightarrow> BootstrapStep \<Rightarrow> bool" where
  "shouldSkip plan stp = (case skipIf stp of None \<Rightarrow> False | Some p \<Rightarrow> p (nodeInfo plan))"

definition commandOk :: "SshExecResult \<Rightarrow> bool" where
  "commandOk r \<longleftrightarrow> exitCode r = Some 0 \<and> \<not> timedOut r"

fun runAll :: "'w Env \<Rightarrow> SshExecOptions list \<Rightarrow> 'w sys \<Rightarrow> SshExecResult list \<times> 'w sys" where
  "runAll E [] st = ([], st)"
| "runAll E (opts # rest) st =
     (let (r, st1) = sshExec E opts st;
          (rs, st2) = runAll E rest st1
      in (r # rs, st2))"

definition sameWorld :: "'w sys \<Rightarrow> 'w sys \<Rightarrow> bool" where
  "sameWorld a b \<longleftrightarrow> world a = world b \<and> spawned a = spawned b"

section \<open>Host identity trust store\<close>

text \<open>
  The trust store is a text file; \<open>None\<close> is a file that does not exist.  Other failures
  of the file system are not modelled.
\<close>

record HostKeyEntry =
  hk_host :: string
  hk_port :: int
  hk_keyType :: string
  hk_key :: string

definition formatHostEntry :: "string \<Rightarrow> int \<Rightarrow> string" where
  "formatHostEntry host port = (if port = 22 then host else ''['' @ host @ '']:'' @ showInt port)"

text \<open>The regular expression \<^verbatim>\<open>/^\[([^\]]+)\]:(\d+)$/\<close>: the two groups of a match.\<close>

definition bracketMatch :: "string \<Rightarrow> (string \<times> string) option" where
  "bracketMatch entry =
     (case entry of
        [] \<Rightarrow> None
      | c # rest \<Rightarrow>
          if c \<noteq> CHR ''['' then None
          else
            let h = takeWhile (\<lambda>x. x \<noteq> CHR '']'') rest;
                after = dropWhile (\<lambda>x. x \<noteq> CHR '']'') rest;
                d = drop 2 after
            in if h \<noteq> [] \<and> take 2 after = '']:'' \<and> d \<noteq> [] \<and> list_all isDigit d
               then Some (h, d) else None)"

definition parseHostEntry :: "string \<Rightarrow> string \<times> int" where
  "parseHostEntry entry =
     (case bracketMatch entry of
        Some (h, d) \<Rightarrow> (h, parseIntDigits d)
      | None \<Rightarrow> (entry, 22))"

text \<open>\<^verbatim>\<open>s.split(c)\<close> for a separator of one character.\<close>

fun splitChar :: "char \<Rightarrow> string \<Rightarrow> string list" where
  "splitChar c [] = [[]]"
| "splitChar c (x # xs) =
     (if x = c then [] # splitChar c xs
      else case splitChar c xs of
             w # ws \<Rightarrow> (x # w) # ws
           | [] \<Rightarrow> [[x]])"

text \<open>\<^verbatim>\<open>s.split(/\s+/)\<close>.\<close>

function splitWs :: "string \<Rightarrow> string list" where
  "splitWs s =
     (let tok = takeWhile (\<lambda>c. \<not> isWhiteSpace c) s;
          rest = dropWhile (\<lambda>c. \<not> isWhiteSpace c) s
      in if rest = [] then [tok] else tok # splitWs (dropWhile isWhiteSpace rest))"
  by pat_completeness auto
termination
proof (relation "measure length")
  show "wf (measure length)" by simp
next
  fix s :: string and tok rest
  assume r: "rest = dropWhile (\<lambda>c. \<not> isWhiteSpace c) s" and ne: "rest \<noteq> []"
  from ne obtain x xs where c: "rest = x # xs" by (cases rest) auto
  with r have "isWhiteSpace x"
    using dropWhile_eq_Cons_conv[of "\<lambda>c. \<not> isWhiteSpace c" s x xs] by simp
  with c have "length (dropWhile isWhiteSpace rest) < length rest"
    using length_dropWhile_le[of isWhiteSpace xs] by simp
  moreover have "length rest \<le> length s" using r by (simp add: length_dropWhile_le)
  ultimately show "(dropWhile isWhiteSpace rest, s) \<in> measure length" by simp
qed

fun joinWith :: "string \<Rightarrow> string list \<Rightarrow> string" where
  "joinWith sep [] = ''''"
| "joinWith sep [x] = x"
| "joinWith sep (x # y # ys) = x @ sep @ joinWith sep (y # ys)"

text \<open>The body of the loop of \<open>parseKnownHosts\<close>: the entry of one line, if it has one.\<close>

definition parseKnownHostsLine :: "string \<Rightarrow> HostKeyEntry option" where
  "parseKnownHostsLine line =
     (let trimmed = trim line
      in if trimmed = '''' \<or> startsWith trimmed ''#'' then None
         else case splitWs trimmed of
                hostEntry # keyType # key # _ \<Rightarrow>
                  if hostEntry = '''' \<or> keyType = '''' \<or> key = '''' then None
                  else let (host, port) = parseHostEntry hostEntry
                       in Some \<lparr> hk_host = host, hk_port = port, hk_keyType = keyType, hk_key = key \<rparr>
              | _ \<Rightarrow> None)"

definition parseKnownHosts :: "string \<Rightarrow> HostKeyEntry list" where
  "parseKnownHosts content = List.map_filter parseKnownHostsLine (splitChar CHR 0x0A content)"

definition formatKnownHostsLine :: "HostKeyEntry \<Rightarrow> string" where
  "formatKnownHostsLine entry =
     formatHostEntry (hk_host entry) (hk_port entry) @ '' '' @ hk_keyType entry @ '' '' @ hk_key entry"

definition formatKnownHosts :: "HostKeyEntry list \<Rightarrow> string" where
  "formatKnownHosts entries = joinWith [CHR 0x0A] (map formatKnownHostsLine entries) @ [CHR 0x0A]"

definition loadKnownHosts :: "string option \<Rightarrow> HostKeyEntry list" where
  "loadKnownHosts f = (case f of None \<Rightarrow> [] | Some content \<Rightarrow> parseKnownHosts content)"

definition saveKnownHosts :: "HostKeyEntry list \<Rightarrow> string option" where
  "saveKnownHosts entries = Some (formatKnownHosts entries)"

definition pinHostKey :: "HostKeyEntry \<Rightarrow> string option \<Rightarrow> string option" where
  "pinHostKey entry f =
     (let entries = loadKnownHosts f;
          filtered = filter (\<lambda>e. \<not> (hk_host e = hk_host entry \<and> hk_port e = hk_port entry \<and>
                                      hk_keyType e = hk_keyType entry)) entries
      in saveKnownHosts (filtered @ [entry]))"

subsection \<open>Entries that survive the file\<close>

text \<open>
  A word is a non-empty string without white space.  \<open>sameTuple\<close> is the test of
  \<open>pinHostKey\<close>'s filter.  An entry is rendered as a comment line when its port is 22
  and its host starts with \<open>#\<close>.  \<open>lineEntry\<close> describes the entries that a line
  of the file can denote.  Ports are integers here; they agree with the numbers of the
  host language on the safe integers.
\<close>

definition token :: "string \<Rightarrow> bool" where
  "token s \<longleftrightarrow> s \<noteq> [] \<and> (\<forall>c \<in> set s. \<not> isWhiteSpace c)"

definition sameTuple :: "HostKeyEntry \<Rightarrow> HostKeyEntry \<Rightarrow> bool" where
  "sameTuple entry e \<longleftrightarrow>
     hk_host e = hk_host entry \<and> hk_port e = hk_port entry \<and> hk_keyType e = hk_keyType entry"

definition commentLike :: "HostKeyEntry \<Rightarrow> bool" where
  "commentLike e \<longleftrightarrow> hk_port e = 22 \<and> startsWith (hk_host e) ''#''"

definition lineEntry :: "HostKeyEntry \<Rightarrow> bool" where
  "lineEntry e \<longleftrightarrow>
     token (hk_host e) \<and> token (hk_keyType e) \<and> token (hk_key e) \<and>
     (if hk_port e = 22 then bracketMatch (hk_host e) = None
      else 0 \<le> hk_port e \<and> CHR '']'' \<notin> set (hk_host e))"

definition safeInteger :: "int \<Rightarrow> bool" where
  "safeInteger p \<longleftrightarrow> - 9007199254740991 \<le> p \<and> p \<le> 9007199254740991"

definition wellFormedEntry :: "HostKeyEntry \<Rightarrow> bool" where
  "wellFormedEntry e \<longleftrightarrow> lineEntry e \<and> \<not> commentLike e \<and> safeInteger (hk_port e)"

section \<open>Diagnostics prober\<close>

record NodeDiagnostics =
  diag_name :: string
  diag_host :: string
  online :: bool
  diag_serviceRunning :: bool
  diag_serviceStatus :: ServiceStatus
  diag_version :: "string option"
  uptime :: "string option"
  diag_lastSeen :: "string option"
  diag_error :: "string option"
  latencyMs :: "int option"

definition isLineTerminator :: "char \<Rightarrow> bool" where
  "isLineTerminator c \<longleftrightarrow> c = CHR 0x0A \<or> c = CHR 0x0D"

fun includesStr :: "string \<Rightarrow> string \<Rightarrow> bool" where
  "includesStr [] p = (p = [])"
| "includesStr (c # cs) p = (startsWith (c # cs) p \<or> includesStr cs p)"

text \<open>
  The regular expression \<^verbatim>\<open>/LABEL(.+)/\<close> for a literal label: the group of the leftmost
  match, the rest of the line after the label.
\<close>

fun matchLabel :: "string \<Rightarrow> string \<Rightarrow> string option" where
  "matchLabel label [] = None"
| "matchLabel label (c # cs) =
     (let g = takeWhile (\<lambda>x. \<not> isLineTerminator x) (drop (length label) (c # cs))
      in if startsWith (c # cs) label \<and> g \<noteq> [] then Some g else matchLabel label cs)"

text \<open>The regular expression \<^verbatim>\<open>/SERVICE:(running|stopped)/\<close>.\<close>

fun matchService :: "string \<Rightarrow> ServiceStatus option" where
  "matchService [] = None"
| "matchService (c # cs) =
     (if startsWith (c # cs) ''SERVICE:running'' then Some ServiceRunning
      else if startsWith (c # cs) ''SERVICE:stopped'' then Some ServiceStopped
      else matchService cs)"

definition isHexDigit :: "char \<Rightarrow> bool" where
  "isHexDigit c \<longleftrightarrow>
     (let n = (of_char c :: nat)
      in (48 \<le> n \<and> n \<le> 57) \<or> (97 \<le> n \<and> n \<le> 102) \<or> (65 \<le> n \<and> n \<le> 70))"

text \<open>The two alternatives of \<^verbatim>\<open>/(\d+\.\d+\.\d+|[a-f0-9]{7,40})/i\<close> at the head of a string.\<close>

definition semverAt :: "string \<Rightarrow> string option" where
  "semverAt s =
     (let d1 = takeWhile isDigit s; r1 = dropWhile isDigit s
      in if d1 = [] then None
         else case r1 of
                [] \<Rightarrow> None
              | c1 # t1 \<Rightarrow>
                  if c1 \<noteq> CHR ''.'' then None
                  else let d2 = takeWhile isDigit t1; r2 = dropWhile isDigit t1
                       in if d2 = [] then None
                          else case r2 of
                                 [] \<Rightarrow> None
                               | c2 # t2 \<Rightarrow>
                                   if c2 \<noteq> CHR ''.'' then None
                                   else let d3 = takeWhile isDigit t2
                                        in if d3 = [] then None
                                           else Some (d1 @ ''.'' @ d2 @ ''.'' @ d3))"

definition hexAt :: "string \<Rightarrow> string option" where
  "hexAt s = (let h = take 40 (takeWhile isHexDigit s) in if 7 \<le> length h then Some h else None)"

fun versionSearch :: "string \<Rightarrow> string option" where
  "versionSearch [] = None"
| "versionSearch (c # cs) =
     (case semverAt (c # cs) of
        Some v \<Rightarrow> Some v
      | None \<Rightarrow> (case hexAt (c # cs) of Some h \<Rightarrow> Some h | None \<Rightarrow> versionSearch cs))"

definition parseVersion :: "string \<Rightarrow> string option" where
  "parseVersion output = versionSearch (trim output)"

definition formatUptimeMs :: "rat \<Rightarrow> string" where
  "formatUptimeMs ms =
     (let seconds = \<lfloor>ms / 1000\<rfloor>;
          minutes = seconds div 60;
          hours = minutes div 60;
          days = hours div 24
      in if days > 0 then showInt days @ ''d '' @ showInt (hours mod 24) @ ''h''
         else if hours > 0 then showInt hours @ ''h '' @ showInt (minutes mod 60) @ ''m''
         else if minutes > 0 then showInt minutes @ ''m '' @ showInt (seconds mod 60) @ ''s''
         else showInt seconds @ ''s'')"

definition parseUptime :: "'w Env \<Rightarrow> string \<Rightarrow> string option" where
  "parseUptime E statusJson =
     (case jsonParse E statusJson of
        Some (JObj kvs) \<Rightarrow>
          (case map_of kvs ''uptime'' of
             Some (JStr s) \<Rightarrow> Some s
           | Some (JNum r) \<Rightarrow> Some (formatUptimeMs r)
           | _ \<Rightarrow> None)
      | _ \<Rightarrow> None)"

definition diagCommand :: string where
  \<open>diagCommand = ''\<newline>    echo "DIAG_START"\<newline>    # Get version\<newline>    if command -v raven &> /dev/null; then\<newline>      echo "VERSION:$(raven --version 2>/dev/null | head -1)"\<newline>    else\<newline>      echo "VERSION:NOT_FOUND"\<newline>    fi\<newline>    # Check service status\<newline>    if [ "$(uname)" = "Darwin" ]; then\<newline>      # macOS - check launchd\<newline>      if launchctl list 2>/dev/null | grep -q "ai.raven.gateway"; then\<newline>        echo "SERVICE:running"\<newline>      else\<newline>        echo "SERVICE:stopped"\<newline>      fi\<newline>    else\<newline>      # Linux - check systemd\<newline>      if systemctl --user is-active raven-gateway &>/dev/null; then\<newline>        echo "SERVICE:running"\<newline>      else\<newline>        echo "SERVICE:stopped"\<newline>      fi\<newline>    fi\<newline>    # Try to get gateway status\<newline>    echo "STATUS_JSON:$(raven gateway status --json --timeout 3000 2>/dev/null || echo '{}')"\<newline>    echo "DIAG_END"\<newline>  ''\<close>

definition offline :: "FleetNode \<Rightarrow> string \<Rightarrow> int option \<Rightarrow> NodeDiagnostics" where
  "offline node msg latency =
     \<lparr> diag_name = node_name node, diag_host = node_host node, online = False,
       diag_serviceRunning = False, diag_serviceStatus = ServiceUnknown, diag_version = None,
       uptime = None, diag_lastSeen = node_lastSeen node, diag_error = Some msg,
       latencyMs = latency \<rparr>"

definition runNodeDiagnostics ::
  "'w Env \<Rightarrow> FleetNode \<Rightarrow> int \<Rightarrow> 'w sys \<Rightarrow> NodeDiagnostics \<times> 'w sys" where
  "runNodeDiagnostics E node tmo st =
     (let startTime = dateNow E (world st);
          (result, st1) =
            sshExec E (nodeSshOptions node diagCommand tmo (resolveKnownHostsPath E)) st;
          latency = dateNow E (world st1) - startTime
      in if timedOut result then (offline node ''Connection timed out'' None, st1)
         else if exitCode result \<noteq> Some 0 \<and> \<not> includesStr (stdout result) ''DIAG_START'' then
           (offline node
              (if stderr result \<noteq> '''' then stderr result
               else ''SSH exit code: '' @
                    (case exitCode result of None \<Rightarrow> ''null'' | Some c \<Rightarrow> showInt c))
              (Some latency), st1)
         else
           let output = stdout result;
               version = (case matchLabel ''VERSION:'' output of
                            None \<Rightarrow> None
                          | Some g \<Rightarrow>
                              if g \<noteq> ''NOT_FOUND'' then
                                (case parseVersion g of Some v \<Rightarrow> Some v | None \<Rightarrow> Some (trim g))
                              else None);
               serviceStatus = (case matchService output of
                                  None \<Rightarrow> ServiceUnknown
                                | Some s \<Rightarrow> s);
               up = (case matchLabel ''STATUS_JSON:'' output of
                       None \<Rightarrow> None
                     | Some g \<Rightarrow> parseUptime E g);
               now = toISOStringNow E (world st1)
           in (\<lparr> diag_name = node_name node, diag_host = node_host node, online = True,
                 diag_serviceRunning = (serviceStatus = ServiceRunning),
                 diag_serviceStatus = serviceStatus, diag_version = version, uptime = up,
                 diag_lastSeen = Some now, diag_error = None, latencyMs = Some latency \<rparr>, st1))"

text \<open>
  The following two predicates serve to state what the prober extracts.  \<open>labelledLine\<close>:
  the leftmost occurrence of the label in the output starts after \<open>pre\<close>, and \<open>v\<close> is the
  rest of its line, which is not empty.  \<open>serviceLine\<close>: the leftmost occurrence of
  \<^verbatim>\<open>SERVICE:running\<close> or \<^verbatim>\<open>SERVICE:stopped\<close> starts after \<open>pre\<close>.
\<close>

definition labelledLine :: "string \<Rightarrow> string \<Rightarrow> string \<Rightarrow> string \<Rightarrow> string \<Rightarrow> bool" where
  "labelledLine label out pre v rest \<longleftrightarrow>
     out = pre @ label @ v @ rest \<and>
     list_all (\<lambda>i. \<not> startsWith (drop i out) label) [0..<length pre] \<and>
     v \<noteq> [] \<and> list_all (\<lambda>c. \<not> isLineTerminator c) v \<and>
     (rest = [] \<or> isLineTerminator (hd rest))"

definition serviceLine :: "string \<Rightarrow> string \<Rightarrow> string \<Rightarrow> string \<Rightarrow> bool" where
  "serviceLine out pre w rest \<longleftrightarrow>
     out = pre @ ''SERVICE:'' @ w @ rest \<and> (w = ''running'' \<or> w = ''stopped'') \<and>
     list_all (\<lambda>i. \<not> startsWith (drop i out) ''SERVICE:running'' \<and>
                   \<not> startsWith (drop i out) ''SERVICE:stopped'') [0..<length pre]"

text \<open>
  The records that the schema accepts: a record read from the file satisfies
  \<open>FleetNode_valid\<close>, and a record that satisfies it is read back as it was written.
\<close>

definition FleetNode_valid :: "ZodChecks \<Rightarrow> FleetNode \<Rightarrow> bool" where
  "FleetNode_valid Z n \<longleftrightarrow>
     isUuid Z (node_id n) \<and> nameOk (node_name n) \<and> hostOk (node_host n) \<and>
     1 \<le> node_port n \<and> node_port n \<le> 65535 \<and> 1 \<le> length (node_user n) \<and>
     (case node_installed n of None \<Rightarrow> True | Some i \<Rightarrow> isDatetime Z (installedAt i)) \<and>
     (case node_lastSeen n of None \<Rightarrow> True | Some l \<Rightarrow> isDatetime Z l)"

definition store_valid :: "ZodChecks \<Rightarrow> FleetStore \<Rightarrow> bool" where
  "store_valid Z s \<longleftrightarrow> schemaVersion s = 1 \<and> (\<forall>n \<in> set (nodes s). FleetNode_valid Z n)"

text \<open>The code of the lower-case form of the character with code \<open>n\<close>.\<close>

definition lowerCode :: "nat \<Rightarrow> nat" where
  "lowerCode n = (if (65 \<le> n \<and> n \<le> 90) \<or> (192 \<le> n \<and> n \<le> 222 \<and> n \<noteq> 215) then n + 32 else n)"

text \<open>A step result that lets the plan go on.\<close>

definition okStatus :: "BootstrapStepResult \<Rightarrow> bool" where
  "okStatus r \<longleftrightarrow> status r = Success \<or> status r = Skipped"

text \<open>The update that \<open>executeBootstrapPlan\<close> passes to \<open>updateNode\<close> after the last step.\<close>

definition successUpdate :: "BootstrapPlan \<Rightarrow> string \<Rightarrow> UpdateNodeInput" where
  "successUpdate plan now =
     \<lparr> upd_host = None, upd_port = None, upd_user = None, upd_trusted = None,
       upd_hostKey = None, upd_tags = None,
       upd_os = Some (info_os (nodeInfo plan)),
       upd_arch = Some (info_arch (nodeInfo plan)),
       upd_installed = Some \<lparr> inst_version = targetVersion plan, installedAt = now \<rparr>,
       upd_lastSeen = Some now,
       upd_serviceStatus = Some ServiceRunning \<rparr>"

text \<open>An environment in which every child exits with code 0 before the timer.\<close>

definition allSucceed :: "'w Env \<Rightarrow> bool" where
  "allSucceed E \<longleftrightarrow>
     (\<forall>bin args tmo w. \<not> timerFired (fst (spawn E bin args tmo w)) \<and>
        (\<exists>sg. child_end (fst (spawn E bin args tmo w)) = ChildExit (Some 0) sg))"

section \<open>Example values\<close>

text \<open>A node, a fact sheet, an environment in which every remote command succeeds, and an
  initial system state; the theorems below are instantiated with them.\<close>

definition findStep :: "string \<Rightarrow> BootstrapPlan \<Rightarrow> BootstrapStep option" where
  "findStep i plan = find (\<lambda>s. step_id s = i) (steps plan)"

definition exampleNode :: FleetNode where
  "exampleNode =
     \<lparr> node_id = ''6f1c2a34-0b7e-4c1d-9a55-3e2f8d7c9b10'', node_name = ''edge-1'',
       node_host = ''10.0.0.5'', node_port = 22, node_user = ''admin'', node_trusted = True,
       node_hostKey = None, node_tags = [], node_os = None, node_arch = None,
       node_installed = None, node_lastSeen = None, node_serviceStatus = None \<rparr>"

definition exampleInfo :: NodeInfo where
  "exampleInfo =
     \<lparr> info_os = Linux, info_arch = X64, homeDir = ''/home/admin'', hasNode = True,
       nodeVersion = Some ''v20.11.0'', hasNpm = True, hasRaven = True,
       ravenVersion = Some ''1.2.3'', hasService = False, serviceRunning = False \<rparr>"

definition exampleEnv :: "nat Env" where
  "exampleEnv =
     \<lparr> spawn = (\<lambda>bin args tmo w.
                  (\<lparr> child_stdout = '''', child_stderr = '''', timerFired = False,
                      child_end = ChildExit (Some 0) None \<rparr>, Suc w)),
       dateNow = (\<lambda>w. 1000 * int w),
       toISOStringNow = (\<lambda>w. ''2026-01-01T00:00:00.000Z''),
       resolveKnownHostsPath = ''/home/op/.openclaw/fleet/known_hosts'',
       jsonParse = (\<lambda>s. if s = ''{}'' then Some (JObj []) else None) \<rparr>"

definition exampleSys :: "nat sys" where
  "exampleSys = \<lparr> world = 0, spawned = [], nodesFile = NoFile, updateCalls = [], progress = [] \<rparr>"

definition exampleZod :: ZodChecks where
  "exampleZod =
     \<lparr> isUuid = (\<lambda>s. length s = 36),
       isDatetime = (\<lambda>s. length s = 24 \<and> last s = CHR ''Z'') \<rparr>"

definition exampleUuid :: string where
  "exampleUuid = ''6f1c2a34-0b7e-4c1d-9a55-3e2f8d7c9b10''"

definition exampleInput :: AddNodeInput where
  "exampleInput =
     \<lparr> add_name = ''edge-1'', add_host = ''10.0.0.5'', add_port = 22, add_user = ''admin'',
       add_trusted = Some True, add_hostKey = None, add_tags = Some [], add_os = None,
       add_arch = None, add_installed = None, add_lastSeen = None, add_serviceStatus = None \<rparr>"

definition flagHostInput :: AddNodeInput where
  "flagHostInput = exampleInput\<lparr> add_host := '' -oProxyCommand=evil'' \<rparr>"

definition exampleFile :: jsonFile where
  "exampleFile = writeJsonFile (encodeStore \<lparr> schemaVersion = 1, nodes = [exampleNode] \<rparr>)"

definition exampleUpdate :: UpdateNodeInput where
  "exampleUpdate =
     \<lparr> upd_host = None, upd_port = Some 2222, upd_user = None, upd_trusted = Some False,
       upd_hostKey = None, upd_tags = None, upd_os = None, upd_arch = None,
       upd_installed = None, upd_lastSeen = Some ''2026-01-01T00:00:00.000Z'',
       upd_serviceStatus = None \<rparr>"

definition freshInfo :: NodeInfo where
  "freshInfo =
     \<lparr> info_os = Linux, info_arch = Arm64, homeDir = ''/home/admin'', hasNode = False,
       nodeVersion = None, hasNpm = False, hasRaven = False, ravenVersion = None,
       hasService = False, serviceRunning = False \<rparr>"

definition runOptions :: ExecOptions where
  "runOptions = \<lparr> dryRun = Some False, commandTimeoutMs = None \<rparr>"

definition examplePlan :: BootstrapPlan where
  "examplePlan =
     \<lparr> plan_node = exampleNode, nodeInfo = freshInfo,
       steps = buildLinuxSteps freshInfo ''2.0.0'' False, targetVersion = ''2.0.0'',
       force = False \<rparr>"

definition exampleTimeoutEnv :: "nat Env" where
  "exampleTimeoutEnv =
     exampleEnv\<lparr> spawn := (\<lambda>bin args tmo w.
                    (\<lparr> child_stdout = '''', child_stderr = '''', timerFired = True,
                        child_end = ChildExit None (Some ''SIGKILL'') \<rparr>, Suc w)) \<rparr>"

definition exampleDiagEnv :: "nat Env" where
  "exampleDiagEnv =
     exampleEnv\<lparr> spawn := (\<lambda>bin args tmo w.
        (\<lparr> child_stdout = ''DIAG_START\<newline>VERSION:NOT_FOUND\<newline>SERVICE:stopped\<newline>STATUS_JSON:{}\<newline>DIAG_END'',
            child_stderr = '''', timerFired = False, child_end = ChildExit (Some 0) None \<rparr>, Suc w)) \<rparr>"

definition exampleKnownHosts :: string where
  "exampleKnownHosts =
     ''# fleet hosts\<newline>\<newline>[10.0.0.5]:2222 ssh-ed25519 AAAAC3 edge-1\<newline>example.org ssh-rsa AAAAB3\<newline>''"

definition exampleBracketEntry :: HostKeyEntry where
  "exampleBracketEntry =
     \<lparr> hk_host = ''10.0.0.5'', hk_port = 2222, hk_keyType = ''ssh-ed25519'', hk_key = ''AAAAC3'' \<rparr>"

definition examplePlainEntry :: HostKeyEntry where
  "examplePlainEntry =
     \<lparr> hk_host = ''example.org'', hk_port = 22, hk_keyType = ''ssh-rsa'', hk_key = ''AAAAB3'' \<rparr>"

definition examplePin :: HostKeyEntry where
  "examplePin =
     \<lparr> hk_host = ''example.org'', hk_port = 22, hk_keyType = ''ssh-ed25519'', hk_key = ''AAAAC4'' \<rparr>"

definition exampleRepin :: HostKeyEntry where
  "exampleRepin =
     \<lparr> hk_host = ''example.org'', hk_port = 22, hk_keyType = ''ssh-ed25519'', hk_key = ''AAAAC5'' \<rparr>"

definition emptyKeyEntry :: HostKeyEntry where
  "emptyKeyEntry = \<lparr> hk_host = ''h'', hk_port = 22, hk_keyType = ''t'', hk_key = '''' \<rparr>"

definition exampleShortPlan :: BootstrapPlan where
  "exampleShortPlan =
     \<lparr> plan_node = exampleNode, nodeInfo = freshInfo,
       steps =
         [\<lparr> step_id = ''check-node'', description = ''Check Node.js'', commands = [''node --version''],
             skippable = True, skipIf = Some (\<lambda>info. \<not> hasNode info), errorHint = None \<rparr>,
          \<lparr> step_id = ''prepare'', description = ''Prepare'', commands = [''mkdir -p ~/.raven''],
             skippable = False, skipIf = None, errorHint = None \<rparr>,
          \<lparr> step_id = ''install'', description = ''Install'',
             commands = [''echo start'', ''exit 3'', ''echo done''],
             skippable = False, skipIf = None, errorHint = None \<rparr>,
          \<lparr> step_id = ''verify'', description = ''Verify'', commands = [''raven --version''],
             skippable = False, skipIf = None, errorHint = None \<rparr>],
       targetVersion = ''2.0.0'', force = False \<rparr>"

definition exampleExitEnv :: "nat Env" where
  "exampleExitEnv =
     exampleEnv\<lparr> spawn := (\<lambda>bin args tmo w.
                    (\<lparr> child_stdout = '''', child_stderr = '''', timerFired = False,
                        child_end = ChildExit (Some (if last args = ''exit 3'' then 3 else 0)) None \<rparr>,
                     Suc w)) \<rparr>"

definition exampleRunningOutput :: string where
  "exampleRunningOutput =
     ''DIAG_START\<newline>VERSION:raven 2.1.0\<newline>SERVICE:running\<newline>STATUS_JSON:{\"uptime\":\"3h\"}\<newline>DIAG_END''"

definition exampleRunningEnv :: "nat Env" where
  "exampleRunningEnv =
     exampleEnv\<lparr> spawn := (\<lambda>bin args tmo w.
        (\<lparr> child_stdout = exampleRunningOutput,
            child_stderr = '''', timerFired = False, child_end = ChildExit (Some 0) None \<rparr>, Suc w)),
        jsonParse := (\<lambda>s. if s = ''{\"uptime\":\"3h\"}'' then Some (JObj [(''uptime'', JStr ''3h'')])
                           else None) \<rparr>"

section \<open>Transport: flag-like hosts\<close>

text \<open>
  Claim C1.  A call of \<open>sshExec\<close> or of \<open>sshKeyscan\<close> whose host begins with \<open>-\<close> returns
  a synthetic failure and leaves the system state as it was, so that no child process is
  spawned; for \<open>sshExec\<close> the result has exit code 1, empty standard output, no timeout and
  the rejection message on standard error.  This holds for the host \<open>-oProxyCommand=evil\<close>.
\<close>

theorem transport_rejects_flag_host:
  "(startsWith (ssh_host opts) ''-'' \<longrightarrow>
      sshExec E opts st =
        (\<lparr> stdout = '''', stderr = ''Host cannot start with '-' (security)'', exitCode = Some 1,
            signal = None, timedOut = False \<rparr>, st)) \<and>
   (startsWith host ''-'' \<longrightarrow>
      sshKeyscan E host port tmo st =
        (\<lparr> ks_output = '''', ks_exitCode = Some 1,
            ks_error = Some ''Host cannot start with '-' (security)'' \<rparr>, st)) \<and>
   sshExec E (opts\<lparr> ssh_host := ''-oProxyCommand=evil'' \<rparr>) st =
     (\<lparr> stdout = '''', stderr = ''Host cannot start with '-' (security)'', exitCode = Some 1,
         signal = None, timedOut = False \<rparr>, st)"
  by (simp add: sshExec_def sshKeyscan_def hostRejected_def startsWith_def)

theorem transport_rejects_flag_host_witness:
  "startsWith ''-oProxyCommand=evil'' ''-'' \<and>
   sshKeyscan exampleEnv ''-oProxyCommand=evil'' 22 None exampleSys =
     (\<lparr> ks_output = '''', ks_exitCode = Some 1,
         ks_error = Some ''Host cannot start with '-' (security)'' \<rparr>, exampleSys) \<and>
   spawned (snd (sshExec exampleEnv
      \<lparr> ssh_host = ''-oProxyCommand=evil'', ssh_port = 22, ssh_user = ''admin'',
        command = ''uname'', timeoutMs = 1000, knownHostsPath = ''/tmp/kh'',
        strictHostKeyChecking = AcceptNew \<rparr> exampleSys)) = []"
  using transport_rejects_flag_host [of
      "\<lparr> ssh_host = ''-oProxyCommand=evil'', ssh_port = 22, ssh_user = ''admin'',
        command = ''uname'', timeoutMs = 1000, knownHostsPath = ''/tmp/kh'',
        strictHostKeyChecking = AcceptNew \<rparr>" exampleEnv exampleSys "''-oProxyCommand=evil''" 22 None]
  by (simp add: startsWith_def exampleSys_def)

section \<open>Plan builder: the install step\<close>

lemma find_install_raven_mac:
  "find (\<lambda>s. step_id s = ''install-raven'') (buildMacOSSteps i v f) = Some (installRavenStep v f)"
  by (simp add: buildMacOSSteps_def installRavenStep_def)

lemma find_install_raven_linux:
  "find (\<lambda>s. step_id s = ''install-raven'') (buildLinuxSteps i v f) = Some (installRavenStep v f)"
  by (simp add: buildLinuxSteps_def installRavenStep_def)

lemma build_plan_install_raven:
  assumes "info_os info \<noteq> UnknownOs"
  shows "\<exists>plan. buildBootstrapPlan node info \<lparr> opt_version = Some v, opt_force = Some f \<rparr> = Inr plan \<and>
           findStep ''install-raven'' plan = Some (installRavenStep v f)"
  using assms
  by (cases "info_os info")
     (simp_all add: buildBootstrapPlan_def findStep_def find_install_raven_mac find_install_raven_linux)

text \<open>
  Claim C7.  For a fact sheet that reports the agent installed at version 1.2.3 and a
  supported operating system: the plan built for target version 1.2.3 without force has
  an \<open>install-raven\<close> step that is skippable and whose skip predicate holds of the fact
  sheet; the plan built with force has the step not skippable and the predicate false of
  the same fact sheet; and for the target version \<open>latest\<close> the predicate holds of a fact
  sheet exactly when it reports an installed agent and force is off.
\<close>

theorem install_raven_skip:
  assumes os: "info_os info \<noteq> UnknownOs" and hr: "hasRaven info"
    and rv: "ravenVersion info = Some ''1.2.3''"
  shows "(\<exists>plan s p. buildBootstrapPlan node info \<lparr> opt_version = Some ''1.2.3'', opt_force = Some False \<rparr> = Inr plan \<and>
            findStep ''install-raven'' plan = Some s \<and> skippable s \<and> skipIf s = Some p \<and> p info) \<and>
         (\<exists>plan s p. buildBootstrapPlan node info \<lparr> opt_version = Some ''1.2.3'', opt_force = Some True \<rparr> = Inr plan \<and>
            findStep ''install-raven'' plan = Some s \<and> \<not> skippable s \<and> skipIf s = Some p \<and> \<not> p info) \<and>
         (\<exists>plan s p. buildBootstrapPlan node info \<lparr> opt_version = Some ''latest'', opt_force = Some f \<rparr> = Inr plan \<and>
            findStep ''install-raven'' plan = Some s \<and> skipIf s = Some p \<and>
            (\<forall>i. p i \<longleftrightarrow> hasRaven i \<and> \<not> f))"
proof (intro conjI)
  from build_plan_install_raven[OF os, of node "''1.2.3''" False]
  obtain plan where "buildBootstrapPlan node info \<lparr> opt_version = Some ''1.2.3'', opt_force = Some False \<rparr> = Inr plan"
    and "findStep ''install-raven'' plan = Some (installRavenStep ''1.2.3'' False)" by blast
  then show "\<exists>plan s p. buildBootstrapPlan node info \<lparr> opt_version = Some ''1.2.3'', opt_force = Some False \<rparr> = Inr plan \<and>
            findStep ''install-raven'' plan = Some s \<and> skippable s \<and> skipIf s = Some p \<and> p info"
    using hr rv by (simp add: installRavenStep_def)
next
  from build_plan_install_raven[OF os, of node "''1.2.3''" True]
  obtain plan where "buildBootstrapPlan node info \<lparr> opt_version = Some ''1.2.3'', opt_force = Some True \<rparr> = Inr plan"
    and "findStep ''install-raven'' plan = Some (installRavenStep ''1.2.3'' True)" by blast
  then show "\<exists>plan s p. buildBootstrapPlan node info \<lparr> opt_version = Some ''1.2.3'', opt_force = Some True \<rparr> = Inr plan \<and>
            findStep ''install-raven'' plan = Some s \<and> \<not> skippable s \<and> skipIf s = Some p \<and> \<not> p info"
    by (simp add: installRavenStep_def)
next
  from build_plan_install_raven[OF os, of node "''latest''" f]
  obtain plan where "buildBootstrapPlan node info \<lparr> opt_version = Some ''latest'', opt_force = Some f \<rparr> = Inr plan"
    and "findStep ''install-raven'' plan = Some (installRavenStep ''latest'' f)" by blast
  then show "\<exists>plan s p. buildBootstrapPlan node info \<lparr> opt_version = Some ''latest'', opt_force = Some f \<rparr> = Inr plan \<and>
            findStep ''install-raven'' plan = Some s \<and> skipIf s = Some p \<and>
            (\<forall>i. p i \<longleftrightarrow> hasRaven i \<and> \<not> f)"
    by (auto simp add: installRavenStep_def)
qed

theorem install_raven_skip_witness:
  "info_os exampleInfo \<noteq> UnknownOs \<and> hasRaven exampleInfo \<and> ravenVersion exampleInfo = Some ''1.2.3'' \<and>
   (\<exists>plan s p. buildBootstrapPlan exampleNode exampleInfo \<lparr> opt_version = Some ''1.2.3'', opt_force = Some False \<rparr> = Inr plan \<and>
            findStep ''install-raven'' plan = Some s \<and> skippable s \<and> skipIf s = Some p \<and> p exampleInfo) \<and>
   (\<exists>plan s p. buildBootstrapPlan exampleNode exampleInfo \<lparr> opt_version = Some ''1.2.3'', opt_force = Some True \<rparr> = Inr plan \<and>
            findStep ''install-raven'' plan = Some s \<and> \<not> skippable s \<and> skipIf s = Some p \<and> \<not> p exampleInfo)"
proof -
  have h: "info_os exampleInfo \<noteq> UnknownOs" "hasRaven exampleInfo"
    "ravenVersion exampleInfo = Some ''1.2.3''"
    by (simp_all add: exampleInfo_def)
  from install_raven_skip[OF h, of exampleNode False] h show ?thesis by blast
qed

section \<open>Inventory store: the schema and the serialisation\<close>

lemma map_of_map_filter_fields:
  "distinct (map fst kvs) \<Longrightarrow>
   map_of (List.map_filter (\<lambda>(k, v). map_option (Pair k) v) kvs) k =
     (case map_of kvs k of Some (Some v) \<Rightarrow> Some v | _ \<Rightarrow> None)"
proof (induction kvs)
  case Nil
  then show ?case by (simp add: List.map_filter_simps)
next
  case (Cons a kvs)
  obtain k' v' where a: "a = (k', v')" by (cases a)
  from Cons.prems a have nin: "k' \<notin> fst ` set kvs" and d: "distinct (map fst kvs)" by auto
  have none: "map_of kvs k' = None" using nin by (simp add: map_of_eq_None_iff)
  show ?case
    using Cons.IH[OF d] none a
    by (cases v') (auto simp add: List.map_filter_simps split: option.splits)
qed

lemma distinct_nodeFields: "distinct (map fst (nodeFields n))"
  by (simp add: nodeFields_def)

lemma nodeFields_lookup:
  "map_of (nodeFields n) ''id'' = Some (Some (JStr (node_id n)))"
  "map_of (nodeFields n) ''name'' = Some (Some (JStr (node_name n)))"
  "map_of (nodeFields n) ''host'' = Some (Some (JStr (node_host n)))"
  "map_of (nodeFields n) ''port'' = Some (Some (JNum (of_int (node_port n))))"
  "map_of (nodeFields n) ''user'' = Some (Some (JStr (node_user n)))"
  "map_of (nodeFields n) ''trusted'' = Some (Some (JBool (node_trusted n)))"
  "map_of (nodeFields n) ''hostKey'' = Some (map_option JStr (node_hostKey n))"
  "map_of (nodeFields n) ''tags'' = Some (Some (JArr (map JStr (node_tags n))))"
  "map_of (nodeFields n) ''os'' = Some (map_option (\<lambda>x. JStr (FleetOs_string x)) (node_os n))"
  "map_of (nodeFields n) ''arch'' = Some (map_option (\<lambda>x. JStr (FleetArch_string x)) (node_arch n))"
  "map_of (nodeFields n) ''installed'' = Some (map_option encodeInstalled (node_installed n))"
  "map_of (nodeFields n) ''lastSeen'' = Some (map_option JStr (node_lastSeen n))"
  "map_of (nodeFields n) ''serviceStatus'' =
     Some (map_option (\<lambda>x. JStr (ServiceStatus_string x)) (node_serviceStatus n))"
  by (simp_all add: nodeFields_def)

lemma encodeNode_lookup:
  "encodeNode n = JObj kvs \<Longrightarrow>
   map_of kvs k = (case map_of (nodeFields n) k of Some (Some v) \<Rightarrow> Some v | _ \<Rightarrow> None)"
  by (auto simp add: encodeNode_def jsonObject_def map_of_map_filter_fields[OF distinct_nodeFields])

lemma those_map_zString_JStr: "those (map (zString \<circ> JStr) xs) = Some xs"
  by (induction xs) (simp_all add: zString_def)

lemma FleetOsSchema_string: "FleetOsSchema (JStr (FleetOs_string x)) = Some x"
  by (cases x) (simp_all add: FleetOsSchema_def)

lemma FleetArchSchema_string: "FleetArchSchema (JStr (FleetArch_string x)) = Some x"
  by (cases x) (simp_all add: FleetArchSchema_def)

lemma ServiceStatusSchema_string: "ServiceStatusSchema (JStr (ServiceStatus_string x)) = Some x"
  by (cases x) (simp_all add: ServiceStatusSchema_def)

lemma InstalledSchema_encode:
  "InstalledSchema Z (encodeInstalled i) = (if isDatetime Z (installedAt i) then Some i else None)"
  by (simp add: InstalledSchema_def encodeInstalled_def zRequired_def zRefine_def zString_def)

lemma zPort_of_int: "zPort (JNum (of_int p)) = (if 1 \<le> p \<and> p \<le> 65535 then Some p else None)"
  by (simp add: zPort_def)

lemma FleetNodeSchema_encode:
  "FleetNodeSchema Z (encodeNode n) = (if FleetNode_valid Z n then Some n else None)"
proof -
  obtain kvs where e: "encodeNode n = JObj kvs" by (simp add: encodeNode_def jsonObject_def)
  note lk = encodeNode_lookup[OF e]
  obtain i nm h p u t hk tg os ar ins ls ss where
    n: "n = \<lparr> node_id = i, node_name = nm, node_host = h, node_port = p, node_user = u,
               node_trusted = t, node_hostKey = hk, node_tags = tg, node_os = os,
               node_arch = ar, node_installed = ins, node_lastSeen = ls,
               node_serviceStatus = ss \<rparr>"
    by (cases n) auto
  show ?thesis
    unfolding FleetNodeSchema_def e
    apply (simp add: lk nodeFields_lookup)
    apply (simp add: n)
    apply (cases hk; cases os; cases ar; cases ins; cases ls; cases ss)
    apply (simp_all add: zRequired_def zRefine_def zString_def zDefault_def zOptional_def zBoolean_def
        zArray_def those_map_zString_JStr FleetOsSchema_string FleetArchSchema_string
        ServiceStatusSchema_string InstalledSchema_encode zPort_of_int FleetNode_valid_def)
    done
qed

lemma zRequired_refine_Some:
  "zRequired (\<lambda>x. zRefine P (zString x)) v = Some s \<Longrightarrow> P s"
  by (auto simp add: zRequired_def zRefine_def split: option.splits if_splits)

lemma zDefault_zPort_Some: "zDefault 22 zPort v = Some p \<Longrightarrow> 1 \<le> p \<and> p \<le> 65535"
proof -
  assume a: "zDefault 22 zPort v = Some p"
  show ?thesis
  proof (cases v)
    case None
    with a show ?thesis by (simp add: zDefault_def)
  next
    case (Some j)
    with a have z: "zPort j = Some p" by (simp add: zDefault_def)
    then obtain r where j: "j = JNum r" by (cases j) (simp_all add: zPort_def)
    from z j have r: "of_int \<lfloor>r\<rfloor> = r" "1 \<le> r" "r \<le> 65535" "p = \<lfloor>r\<rfloor>"
      by (auto simp add: zPort_def split: if_splits)
    then show ?thesis by (simp add: le_floor_iff floor_le_iff)
  qed
qed

lemma zOptional_refine_Some:
  "zOptional (\<lambda>x. zRefine P (zString x)) v = Some (Some l) \<Longrightarrow> P l"
  by (auto simp add: zOptional_def zRefine_def split: option.splits if_splits)

lemma InstalledSchema_Some: "InstalledSchema Z j = Some i \<Longrightarrow> isDatetime Z (installedAt i)"
  by (cases j)
     (auto simp add: InstalledSchema_def bind_eq_Some_conv dest: zRequired_refine_Some)

lemma zOptional_Installed_Some:
  "zOptional (InstalledSchema Z) v = Some (Some i) \<Longrightarrow> isDatetime Z (installedAt i)"
  by (auto simp add: zOptional_def split: option.splits dest: InstalledSchema_Some)

lemma FleetNodeSchema_Some_valid:
  assumes "FleetNodeSchema Z j = Some n"
  shows "FleetNode_valid Z n"
proof -
  from assms obtain kvs where j: "j = JObj kvs" by (cases j) (simp_all add: FleetNodeSchema_def)
  from assms[unfolded FleetNodeSchema_def j, simplified, unfolded bind_eq_Some_conv]
  obtain i nm h p u t hk tg os ar ins ls ss where
    f: "zRequired (\<lambda>x. zRefine (isUuid Z) (zString x)) (map_of kvs ''id'') = Some i"
       "zRequired (\<lambda>x. zRefine nameOk (zString x)) (map_of kvs ''name'') = Some nm"
       "zRequired (\<lambda>x. zRefine hostOk (zString x)) (map_of kvs ''host'') = Some h"
       "zDefault 22 zPort (map_of kvs ''port'') = Some p"
       "zRequired (\<lambda>x. zRefine (\<lambda>s. 1 \<le> length s) (zString x)) (map_of kvs ''user'') = Some u"
       "zOptional (InstalledSchema Z) (map_of kvs ''installed'') = Some ins"
       "zOptional (\<lambda>x. zRefine (isDatetime Z) (zString x)) (map_of kvs ''lastSeen'') = Some ls"
    and n: "n = \<lparr> node_id = i, node_name = nm, node_host = h, node_port = p, node_user = u,
               node_trusted = t, node_hostKey = hk, node_tags = tg, node_os = os,
               node_arch = ar, node_installed = ins, node_lastSeen = ls,
               node_serviceStatus = ss \<rparr>"
    by (auto simp add: bind_eq_Some_conv)
  show ?thesis
    unfolding FleetNode_valid_def n
    using zRequired_refine_Some[OF f(1)] zRequired_refine_Some[OF f(2)]
      zRequired_refine_Some[OF f(3)] zDefault_zPort_Some[OF f(4)] zRequired_refine_Some[OF f(5)]
      f(6) f(7)
    by (auto split: option.splits dest: zOptional_Installed_Some zOptional_refine_Some)
qed

lemma those_map_Some_iff:
  "those (map f xs) = Some ys \<longleftrightarrow> length ys = length xs \<and> (\<forall>i < length xs. f (xs ! i) = Some (ys ! i))"
proof (induction xs arbitrary: ys)
  case Nil
  then show ?case by auto
next
  case (Cons x xs)
  show ?case
  proof (cases "f x")
    case None
    then show ?thesis by (cases ys) auto
  next
    case (Some y)
    show ?thesis
    proof (cases ys)
      case Nil
      then show ?thesis using Some by (auto split: option.splits)
    next
      case (Cons y' ys')
      then show ?thesis
        using Some Cons.IH[of ys']
        by (auto simp add: less_Suc_eq_0_disj split: option.splits)
    qed
  qed
qed

lemma those_map_encode:
  "(\<forall>n \<in> set ns. FleetNode_valid Z n) \<Longrightarrow>
   those (map (FleetNodeSchema Z \<circ> encodeNode) ns) = Some ns"
  by (simp add: those_map_Some_iff FleetNodeSchema_encode)

lemma those_map_schema_valid:
  "those (map (FleetNodeSchema Z) js) = Some ns \<Longrightarrow> \<forall>n \<in> set ns. FleetNode_valid Z n"
  by (auto simp add: those_map_Some_iff in_set_conv_nth) (metis FleetNodeSchema_Some_valid)

lemma safeParse_Some_valid:
  assumes "FleetStoreSchema_safeParse Z j = Some s"
  shows "store_valid Z s"
proof -
  from assms obtain kvs where j: "j = JObj kvs"
    by (cases j) (simp_all add: FleetStoreSchema_safeParse_def)
  from assms j obtain ns where
    ns: "zDefault [] (zArray (FleetNodeSchema Z)) (map_of kvs ''nodes'') = Some ns"
    and s: "s = \<lparr> schemaVersion = 1, nodes = ns \<rparr>"
    by (auto simp add: FleetStoreSchema_safeParse_def split: if_splits option.splits)
  have "\<forall>n \<in> set ns. FleetNode_valid Z n"
  proof (cases "map_of kvs ''nodes''")
    case None
    with ns show ?thesis by (simp add: zDefault_def)
  next
    case (Some a)
    with ns show ?thesis
      by (cases a) (auto simp add: zDefault_def zArray_def dest: those_map_schema_valid)
  qed
  with s show ?thesis by (simp add: store_valid_def)
qed

lemma safeParse_encodeStore:
  "store_valid Z s \<Longrightarrow> FleetStoreSchema_safeParse Z (encodeStore s) = Some s"
  by (cases s)
     (simp add: FleetStoreSchema_safeParse_def encodeStore_def store_valid_def zDefault_def
      zArray_def those_map_encode)

lemma store_valid_empty: "store_valid Z createEmptyFleetStore"
  by (simp add: store_valid_def createEmptyFleetStore_def)

lemma readStoreLocked_valid: "store_valid Z (readStoreLocked Z f)"
  by (auto simp add: readStoreLocked_def store_valid_empty split: option.splits
      dest: safeParse_Some_valid)

lemma loadFleetStore_eq: "loadFleetStore Z f = readStoreLocked Z f"
  by (simp add: loadFleetStore_def readStoreLocked_def)

lemma encodeStore_not_null: "encodeStore s \<noteq> JNull"
  by (simp add: encodeStore_def)

lemma readStoreLocked_written:
  "store_valid Z s \<Longrightarrow> readStoreLocked Z (writeJsonFile (encodeStore s)) = s"
  by (simp add: readStoreLocked_def writeJsonFile_def readJsonFile_def encodeStore_not_null
      safeParse_encodeStore)

lemma ensureJsonFile_written: "ensureJsonFile (writeJsonFile v) fb = writeJsonFile v"
  by (simp add: ensureJsonFile_def writeJsonFile_def)

section \<open>Inventory store: names are unique up to case\<close>

lemma lower_code_A:
  fixes m :: nat
  assumes "(97 \<le> m \<and> m \<le> 122) \<or> (65 \<le> m \<and> m \<le> 90) \<or> (48 \<le> m \<and> m \<le> 57) \<or> m = 95 \<or> m = 45"
  shows "(97 \<le> lowerCode m \<and> lowerCode m \<le> 122) \<or> (48 \<le> lowerCode m \<and> lowerCode m \<le> 57) \<or> lowerCode m = 95 \<or> lowerCode m = 45"
proof (cases "65 \<le> m \<and> m \<le> 90")
  case True
  then have "lowerCode m = m + 32" by (simp add: lowerCode_def)
  with True show ?thesis by simp
next
  case False
  with assms have "m \<le> 122" by linarith
  with False have "lowerCode m = m" by (simp add: lowerCode_def)
  with assms False show ?thesis by auto
qed

lemma lower_code_B:
  fixes n :: nat
  assumes "(97 \<le> lowerCode n \<and> lowerCode n \<le> 122) \<or> (48 \<le> lowerCode n \<and> lowerCode n \<le> 57) \<or> lowerCode n = 95 \<or> lowerCode n = 45"
  shows "(97 \<le> n \<and> n \<le> 122) \<or> (65 \<le> n \<and> n \<le> 90) \<or> (48 \<le> n \<and> n \<le> 57) \<or> n = 95 \<or> n = 45"
proof (cases "(65 \<le> n \<and> n \<le> 90) \<or> (192 \<le> n \<and> n \<le> 222 \<and> n \<noteq> 215)")
  case True
  then have l: "lowerCode n = n + 32" by (simp add: lowerCode_def)
  from True have "65 \<le> n" by linarith
  with assms l have "n + 32 \<le> 122" by linarith
  then show ?thesis using \<open>65 \<le> n\<close> by simp
next
  case False
  then have "lowerCode n = n" by (simp add: lowerCode_def)
  with assms show ?thesis by auto
qed

lemma of_char_toLowerChar: "(of_char (toLowerChar c) :: nat) = lowerCode (of_char c)"
  by (auto simp add: toLowerChar_def lowerCode_def Let_def of_char_of)

lemma isNameChar_case_variant:
  assumes "toLowerChar c = toLowerChar d" and "isNameChar d"
  shows "isNameChar c"
proof -
  from assms(1) have "(of_char (toLowerChar c) :: nat) = of_char (toLowerChar d)" by simp
  then have e: "lowerCode (of_char c) = lowerCode (of_char d)" by (simp add: of_char_toLowerChar)
  from assms(2) have "(97 \<le> lowerCode (of_char d) \<and> lowerCode (of_char d) \<le> 122) \<or>
      (48 \<le> lowerCode (of_char d) \<and> lowerCode (of_char d) \<le> 57) \<or>
      lowerCode (of_char d) = 95 \<or> lowerCode (of_char d) = 45"
    unfolding isNameChar_def Let_def by (rule lower_code_A)
  then show ?thesis
    unfolding isNameChar_def Let_def e[symmetric] by (rule lower_code_B)
qed

lemma isNameChar_not_space: "isNameChar c \<Longrightarrow> \<not> isWhiteSpace c"
  by (auto simp add: isNameChar_def isWhiteSpace_def)

lemma trim_noop: "\<forall>c \<in> set s. \<not> isWhiteSpace c \<Longrightarrow> trim s = s"
proof -
  assume a: "\<forall>c \<in> set s. \<not> isWhiteSpace c"
  have "dropWhile isWhiteSpace s = s" using a by (cases s) auto
  moreover have "dropWhile isWhiteSpace (rev s) = rev s" using a by (cases "rev s") auto
  ultimately show ?thesis by (simp add: trim_def)
qed

lemma list_all_case_variant:
  "toLowerCase v = toLowerCase s \<Longrightarrow> list_all isNameChar s \<Longrightarrow> list_all isNameChar v"
proof (induction v arbitrary: s)
  case Nil
  then show ?case by simp
next
  case (Cons a v)
  then obtain b s' where s: "s = b # s'" by (cases s) (auto simp add: toLowerCase_def)
  with Cons.prems have "toLowerChar a = toLowerChar b" "toLowerCase v = toLowerCase s'"
    "isNameChar b" "list_all isNameChar s'"
    by (auto simp add: toLowerCase_def)
  with Cons.IH[of s'] show ?case by (auto intro: isNameChar_case_variant)
qed

lemma validateNodeName_None_iff:
  "validateNodeName name = None \<longleftrightarrow> nodeNameRegex_test name \<and> length name \<le> 100"
  by (auto simp add: validateNodeName_def nodeNameRegex_test_def list_all_iff trim_noop
      isNameChar_not_space)

lemma nameOk_iff: "nameOk s \<longleftrightarrow> validateNodeName s = None"
  by (auto simp add: nameOk_def validateNodeName_None_iff nodeNameRegex_test_def Suc_le_eq)

lemma case_variant_valid:
  assumes "toLowerCase v = toLowerCase name" and "validateNodeName name = None"
  shows "validateNodeName v = None \<and> normalizeNodeName v = normalizeNodeName name \<and> trim name = name"
proof -
  from assms(2) have n: "name \<noteq> []" "list_all isNameChar name" "length name \<le> 100"
    by (auto simp add: validateNodeName_None_iff nodeNameRegex_test_def)
  from assms(1) have len: "length v = length name"
    by (metis length_map toLowerCase_def)
  from list_all_case_variant[OF assms(1) n(2)] have v: "list_all isNameChar v" .
  have tv: "trim v = v" using v by (auto simp add: list_all_iff intro!: trim_noop isNameChar_not_space)
  have tn: "trim name = name" using n(2) by (auto simp add: list_all_iff intro!: trim_noop isNameChar_not_space)
  from len n v have "validateNodeName v = None"
    by (auto simp add: validateNodeName_None_iff nodeNameRegex_test_def)
  with tv tn assms(1) show ?thesis by (simp add: normalizeNodeName_def)
qed

lemma find_append_None:
  "find P xs = None \<Longrightarrow> find P (xs @ ys) = find P ys"
  by (induction xs) (auto split: if_splits)

lemma find_None_filter: "find P xs = None \<Longrightarrow> filter P xs = []"
  by (induction xs) (auto split: if_splits)

text \<open>What a successful add leaves behind.\<close>

lemma addNode_success:
  assumes "addNode Z uuid input f = (Inr node, f')"
  shows "validateAdd input = None \<and>
         find (\<lambda>n. normalizeNodeName (node_name n) = normalizeNodeName (add_name input))
           (nodes (readStoreLocked Z (ensureJsonFile f (encodeStore createEmptyFleetStore)))) = None \<and>
         node_name node = trim (add_name input) \<and> node_id node = uuid \<and>
         f' = writeJsonFile (encodeStore
                ((readStoreLocked Z (ensureJsonFile f (encodeStore createEmptyFleetStore)))
                   \<lparr> nodes := nodes (readStoreLocked Z (ensureJsonFile f (encodeStore createEmptyFleetStore))) @ [node] \<rparr>))"
  using assms
  by (auto simp add: addNode_def Let_def split: option.splits)

lemma validateAdd_name: "validateAdd input = None \<Longrightarrow> validateNodeName (add_name input) = None"
  by (auto simp add: validateAdd_def split: option.splits)

text \<open>
  Where the record that \<open>addNode\<close> created satisfies the schema of the inventory file,
  names are unique up to case: \<open>getNode\<close> with any case variant of the name returns that
  record; and a second \<open>addNode\<close> whose name differs from the first only in letter case,
  with an otherwise valid host, port and user, fails with the duplicate-name error, leaves
  the file as it was, and the inventory holds exactly one record of that name.
\<close>

lemma add_get_case_insensitive:
  assumes add: "addNode Z uuid input f = (Inr node, f')"
    and ok: "FleetNodeSchema Z (encodeNode node) = Some node"
  shows "(toLowerCase v = toLowerCase (add_name input) \<longrightarrow> getNode Z v f' = Some node) \<and>
         (toLowerCase (add_name input2) = toLowerCase (add_name input) \<and>
          validateHost (add_host input2) = None \<and> validatePort (add_port input2) = None \<and>
          validateUser (add_user input2) = None \<longrightarrow>
            addNode Z uuid2 input2 f' = (Inl (duplicateName (add_name input2)), f') \<and>
            length (filter (\<lambda>n. normalizeNodeName (node_name n) = normalizeNodeName (add_name input))
                      (nodes (loadFleetStore Z f'))) = 1)"
proof -
  let ?f1 = "ensureJsonFile f (encodeStore createEmptyFleetStore)"
  let ?store = "readStoreLocked Z ?f1"
  let ?P = "\<lambda>n. normalizeNodeName (node_name n) = normalizeNodeName (add_name input)"
  from addNode_success[OF add] have
    va: "validateAdd input = None" and nf: "find ?P (nodes ?store) = None"
    and nm: "node_name node = trim (add_name input)"
    and f': "f' = writeJsonFile (encodeStore (?store\<lparr> nodes := nodes ?store @ [node] \<rparr>))"
    by auto
  have vn: "validateNodeName (add_name input) = None" using va by (rule validateAdd_name)
  from case_variant_valid[OF refl vn] have tn: "trim (add_name input) = add_name input" by simp
  have nodeP: "?P node" by (simp add: nm tn)
  have valid: "FleetNode_valid Z node"
    using ok by (simp add: FleetNodeSchema_encode split: if_splits)
  have sv: "store_valid Z (?store\<lparr> nodes := nodes ?store @ [node] \<rparr>)"
    using readStoreLocked_valid[of Z ?f1] valid by (auto simp add: store_valid_def)
  have rd: "readStoreLocked Z f' = ?store\<lparr> nodes := nodes ?store @ [node] \<rparr>"
    unfolding f' by (rule readStoreLocked_written[OF sv])
  have fnd: "find ?P (nodes (readStoreLocked Z f')) = Some node"
    by (simp add: rd find_append_None[OF nf] nodeP)
  have one: "length (filter ?P (nodes (loadFleetStore Z f'))) = 1"
    by (simp add: loadFleetStore_eq rd find_None_filter[OF nf] nodeP)
  have get: "getNode Z v f' = Some node" if "toLowerCase v = toLowerCase (add_name input)" for v
    using case_variant_valid[OF that vn] fnd by (simp add: getNode_def loadFleetStore_eq)
  have dup: "addNode Z uuid2 input2 f' = (Inl (duplicateName (add_name input2)), f')"
    if h: "toLowerCase (add_name input2) = toLowerCase (add_name input)"
      "validateHost (add_host input2) = None" "validatePort (add_port input2) = None"
      "validateUser (add_user input2) = None"
  proof -
    from case_variant_valid[OF h(1) vn] have
      v2: "validateNodeName (add_name input2) = None"
      and n2: "normalizeNodeName (add_name input2) = normalizeNodeName (add_name input)" by auto
    have va2: "validateAdd input2 = None" using v2 h(2-4) by (simp add: validateAdd_def)
    have e: "ensureJsonFile f' (encodeStore createEmptyFleetStore) = f'"
      unfolding f' by (rule ensureJsonFile_written)
    show ?thesis using va2 fnd by (simp add: addNode_def e n2)
  qed
  show ?thesis using get dup one by blast
qed

lemma exampleNode_valid: "FleetNode_valid exampleZod exampleNode"
  by (simp add: FleetNode_valid_def exampleZod_def exampleNode_def nameOk_def hostOk_def
      nodeNameRegex_test_def isNameChar_def startsWith_def)

lemma exampleFile_read:
  "readStoreLocked exampleZod exampleFile = \<lparr> schemaVersion = 1, nodes = [exampleNode] \<rparr>"
  unfolding exampleFile_def
  by (rule readStoreLocked_written) (simp add: store_valid_def exampleNode_valid)

lemma example_add:
  "addNode exampleZod exampleUuid exampleInput NoFile = (Inr exampleNode, exampleFile)"
proof -
  have vn: "validateNodeName ''edge-1'' = None"
    by (simp add: validateNodeName_None_iff nodeNameRegex_test_def isNameChar_def)
  have v: "validateAdd exampleInput = None"
    by (simp add: validateAdd_def exampleInput_def vn validateHost_def validatePort_def
        validateUser_def trim_def isWhiteSpace_def startsWith_def)
  have r: "readStoreLocked exampleZod (writeJsonFile (encodeStore createEmptyFleetStore)) = createEmptyFleetStore"
    by (rule readStoreLocked_written) (rule store_valid_empty)
  show ?thesis
    by (simp add: addNode_def v ensureJsonFile_def r)
       (simp add: createEmptyFleetStore_def exampleInput_def exampleNode_def exampleUuid_def
          exampleFile_def normalizeNodeName_def trim_def isWhiteSpace_def Let_def)
qed

lemma add_get_case_insensitive_example:
  "addNode exampleZod exampleUuid exampleInput NoFile = (Inr exampleNode, exampleFile) \<and>
   FleetNodeSchema exampleZod (encodeNode exampleNode) = Some exampleNode \<and>
   toLowerCase ''EDGE-1'' = toLowerCase (add_name exampleInput) \<and>
   getNode exampleZod ''EDGE-1'' exampleFile = Some exampleNode \<and>
   addNode exampleZod exampleUuid (exampleInput\<lparr> add_name := ''Edge-1'' \<rparr>) exampleFile =
     (Inl (duplicateName ''Edge-1''), exampleFile) \<and>
   length (filter (\<lambda>n. normalizeNodeName (node_name n) = normalizeNodeName ''edge-1'')
             (nodes (loadFleetStore exampleZod exampleFile))) = 1"
proof -
  have ok: "FleetNodeSchema exampleZod (encodeNode exampleNode) = Some exampleNode"
    by (simp add: FleetNodeSchema_encode exampleNode_valid)
  have lc: "toLowerCase ''EDGE-1'' = toLowerCase (add_name exampleInput)"
    "toLowerCase (add_name (exampleInput\<lparr> add_name := ''Edge-1'' \<rparr>)) = toLowerCase (add_name exampleInput)"
    by (simp_all add: exampleInput_def toLowerCase_def toLowerChar_def char_of_eq_iff)
  have vs: "validateHost (add_host (exampleInput\<lparr> add_name := ''Edge-1'' \<rparr>)) = None"
    "validatePort (add_port (exampleInput\<lparr> add_name := ''Edge-1'' \<rparr>)) = None"
    "validateUser (add_user (exampleInput\<lparr> add_name := ''Edge-1'' \<rparr>)) = None"
    by (simp_all add: exampleInput_def validateHost_def validatePort_def validateUser_def trim_def
        isWhiteSpace_def startsWith_def)
  from add_get_case_insensitive[OF example_add ok, of "''EDGE-1''"
      "exampleInput\<lparr> add_name := ''Edge-1'' \<rparr>" exampleUuid] lc vs example_add ok
  show ?thesis by (simp add: exampleInput_def)
qed

text \<open>
  Claim C6, on the input with name \<open>edge-1\<close> and host \<^verbatim>\<open> -oProxyCommand=evil\<close> (a space
  before the dash) and an inventory that does not exist yet.  \<open>addNode\<close> checks the host
  as given and stores it trimmed: it accepts the input and stores a record whose host
  begins with \<open>-\<close>, which its own \<open>validateHost\<close> refuses and which the schema of the file
  refuses.  The file then reads as the empty inventory: \<open>getNode\<close> with the name just
  accepted finds nothing, and an \<open>addNode\<close> with the case variant \<open>Edge-1\<close> is not refused as a
  duplicate but succeeds.
\<close>

theorem addNode_flag_host_divergence:
  "fst (addNode exampleZod exampleUuid flagHostInput NoFile) =
     Inr (exampleNode\<lparr> node_host := ''-oProxyCommand=evil'' \<rparr>) \<and>
   validateHost (add_host flagHostInput) = None \<and>
   validateHost ''-oProxyCommand=evil'' = Some (Error hostRejected) \<and>
   getNode exampleZod ''edge-1'' (snd (addNode exampleZod exampleUuid flagHostInput NoFile)) = None \<and>
   fst (addNode exampleZod exampleUuid (exampleInput\<lparr> add_name := ''Edge-1'' \<rparr>)
          (snd (addNode exampleZod exampleUuid flagHostInput NoFile))) =
     Inr (exampleNode\<lparr> node_name := ''Edge-1'' \<rparr>)"
proof -
  have vn: "validateNodeName ''edge-1'' = None" "validateNodeName ''Edge-1'' = None"
    by (simp_all add: validateNodeName_None_iff nodeNameRegex_test_def isNameChar_def)
  have vh: "validateHost (add_host flagHostInput) = None"
    "validateHost ''-oProxyCommand=evil'' = Some (Error hostRejected)"
    by (simp_all add: flagHostInput_def exampleInput_def validateHost_def trim_def isWhiteSpace_def
        startsWith_def)
  have v: "validateAdd flagHostInput = None"
    by (simp add: validateAdd_def flagHostInput_def exampleInput_def vn validateHost_def
        validatePort_def validateUser_def trim_def isWhiteSpace_def startsWith_def)
  have v2: "validateAdd (exampleInput\<lparr> add_name := ''Edge-1'' \<rparr>) = None"
    by (simp add: validateAdd_def exampleInput_def vn validateHost_def
        validatePort_def validateUser_def trim_def isWhiteSpace_def startsWith_def)
  have r: "readStoreLocked exampleZod (writeJsonFile (encodeStore createEmptyFleetStore)) = createEmptyFleetStore"
    by (rule readStoreLocked_written) (rule store_valid_empty)
  let ?bad = "exampleNode\<lparr> node_host := ''-oProxyCommand=evil'' \<rparr>"
  let ?f = "writeJsonFile (encodeStore \<lparr> schemaVersion = 1, nodes = [?bad] \<rparr>)"
  have a: "addNode exampleZod exampleUuid flagHostInput NoFile = (Inr ?bad, ?f)"
    by (simp add: addNode_def v ensureJsonFile_def r)
       (simp add: createEmptyFleetStore_def flagHostInput_def exampleInput_def exampleNode_def
          exampleUuid_def normalizeNodeName_def trim_def isWhiteSpace_def Let_def)
  have nv: "\<not> FleetNode_valid exampleZod ?bad"
    by (simp add: FleetNode_valid_def hostOk_def startsWith_def exampleNode_def)
  have l: "loadFleetStore exampleZod ?f = createEmptyFleetStore"
    by (simp add: loadFleetStore_def writeJsonFile_def readJsonFile_def encodeStore_def
        FleetStoreSchema_safeParse_def zDefault_def zArray_def FleetNodeSchema_encode nv)
  have g: "getNode exampleZod ''edge-1'' ?f = None"
    by (simp add: getNode_def l createEmptyFleetStore_def)
  have b: "fst (addNode exampleZod exampleUuid (exampleInput\<lparr> add_name := ''Edge-1'' \<rparr>) ?f) =
      Inr (exampleNode\<lparr> node_name := ''Edge-1'' \<rparr>)"
    by (simp add: addNode_def v2 ensureJsonFile_written l[unfolded loadFleetStore_eq])
       (simp add: createEmptyFleetStore_def exampleInput_def exampleNode_def
          exampleUuid_def normalizeNodeName_def trim_def isWhiteSpace_def Let_def)
  show ?thesis using vh g b by (simp add: a)
qed

section \<open>Inventory store: corrupt files read as the empty inventory\<close>

text \<open>
  Claim C9.  A file that cannot be read, whose text is not JSON, or whose value does not
  satisfy the schema is loaded as the empty inventory; a value whose \<open>schemaVersion\<close> is
  not the number 1 does not satisfy the schema.  \<open>loadFleetStore\<close> has no error result.
\<close>

theorem loadFleetStore_corrupt:
  "((f = NoFile \<or> f = FileContent Malformed \<or>
      (\<exists>v. f = FileContent (Parsed v) \<and> FleetStoreSchema_safeParse Z v = None)) \<longrightarrow>
      loadFleetStore Z f = \<lparr> schemaVersion = 1, nodes = [] \<rparr>) \<and>
   (map_of kvs ''schemaVersion'' \<noteq> Some (JNum 1) \<longrightarrow>
      FleetStoreSchema_safeParse Z (JObj kvs) = None)"
proof -
  have e: "FleetStoreSchema_safeParse Z (encodeStore createEmptyFleetStore) = Some createEmptyFleetStore"
    by (rule safeParse_encodeStore) (rule store_valid_empty)
  have c: "createEmptyFleetStore = \<lparr> schemaVersion = 1, nodes = [] \<rparr>"
    by (simp add: createEmptyFleetStore_def)
  have "loadFleetStore Z f = createEmptyFleetStore"
    if "f = NoFile \<or> f = FileContent Malformed \<or>
      (\<exists>v. f = FileContent (Parsed v) \<and> FleetStoreSchema_safeParse Z v = None)"
    using that by (auto simp add: loadFleetStore_def readJsonFile_def e)
  moreover have "FleetStoreSchema_safeParse Z (JObj kvs) = None"
    if "map_of kvs ''schemaVersion'' \<noteq> Some (JNum 1)"
    using that by (simp add: FleetStoreSchema_safeParse_def)
  ultimately show ?thesis unfolding c by blast
qed

theorem loadFleetStore_corrupt_witness:
  "map_of [(''schemaVersion'', JNum 2), (''nodes'', JArr [])] ''schemaVersion'' \<noteq> Some (JNum 1) \<and>
   FleetStoreSchema_safeParse exampleZod (JObj [(''schemaVersion'', JNum 2), (''nodes'', JArr [])]) = None \<and>
   loadFleetStore exampleZod (FileContent (Parsed (JObj [(''schemaVersion'', JNum 2), (''nodes'', JArr [])])))
     = \<lparr> schemaVersion = 1, nodes = [] \<rparr> \<and>
   loadFleetStore exampleZod (FileContent Malformed) = \<lparr> schemaVersion = 1, nodes = [] \<rparr>"
  using loadFleetStore_corrupt[of "FileContent (Parsed (JObj [(''schemaVersion'', JNum 2), (''nodes'', JArr [])]))"
      exampleZod "[(''schemaVersion'', JNum 2), (''nodes'', JArr [])]"]
    loadFleetStore_corrupt[of "FileContent Malformed" exampleZod "[]"]
  by simp

section \<open>Inventory store: what an update leaves alone\<close>

lemma findIndex_Some:
  "findIndex P xs = Some i \<Longrightarrow> i < length xs \<and> P (xs ! i) \<and> (\<forall>j < i. \<not> P (xs ! j))"
proof (induction xs arbitrary: i)
  case Nil
  then show ?case by simp
next
  case (Cons x xs)
  show ?case
  proof (cases "P x")
    case True
    with Cons.prems show ?thesis by simp
  next
    case False
    with Cons.prems obtain k where k: "findIndex P xs = Some k" "i = Suc k" by auto
    from Cons.IH[OF k(1)] False k(2) show ?thesis
      by (auto simp add: less_Suc_eq_0_disj)
  qed
qed

lemma updateNode_success:
  assumes "updateNode Z name updates f = (Inr (Some updated), f')"
  shows "\<exists>index.
           findIndex (\<lambda>n. normalizeNodeName (node_name n) = normalizeNodeName name)
             (nodes (readStoreLocked Z (ensureJsonFile f (encodeStore createEmptyFleetStore)))) = Some index \<and>
           updated = mergeUpdates (nodes (readStoreLocked Z (ensureJsonFile f (encodeStore createEmptyFleetStore))) ! index) updates \<and>
           f' = writeJsonFile (encodeStore
                  ((readStoreLocked Z (ensureJsonFile f (encodeStore createEmptyFleetStore)))
                     \<lparr> nodes := (nodes (readStoreLocked Z (ensureJsonFile f (encodeStore createEmptyFleetStore))))[index := updated] \<rparr>))"
  using assms
  by (auto simp add: updateNode_def Let_def split: option.splits)

text \<open>
  Claim C10.  When \<open>updateNode\<close> returns an updated record, that record has the identifier
  and the name of the stored record it replaces, every field that the update does not give
  keeps its stored value, the written node list is the stored one with the record replaced
  at its position, every other position is unchanged, and, when the updated record
  satisfies the schema, that list is what the file reads back as.
\<close>

theorem updateNode_frame:
  assumes "updateNode Z name updates f = (Inr (Some updated), f')"
  shows "\<exists>store index existing.
           store = readStoreLocked Z (ensureJsonFile f (encodeStore createEmptyFleetStore)) \<and>
           findIndex (\<lambda>n. normalizeNodeName (node_name n) = normalizeNodeName name) (nodes store) = Some index \<and>
           index < length (nodes store) \<and> existing = nodes store ! index \<and>
           node_id updated = node_id existing \<and> node_name updated = node_name existing \<and>
           (upd_host updates = None \<longrightarrow> node_host updated = node_host existing) \<and>
           (upd_port updates = None \<longrightarrow> node_port updated = node_port existing) \<and>
           (upd_user updates = None \<longrightarrow> node_user updated = node_user existing) \<and>
           (upd_trusted updates = None \<longrightarrow> node_trusted updated = node_trusted existing) \<and>
           (upd_hostKey updates = None \<longrightarrow> node_hostKey updated = node_hostKey existing) \<and>
           (upd_tags updates = None \<longrightarrow> node_tags updated = node_tags existing) \<and>
           (upd_os updates = None \<longrightarrow> node_os updated = node_os existing) \<and>
           (upd_arch updates = None \<longrightarrow> node_arch updated = node_arch existing) \<and>
           (upd_installed updates = None \<longrightarrow> node_installed updated = node_installed existing) \<and>
           (upd_lastSeen updates = None \<longrightarrow> node_lastSeen updated = node_lastSeen existing) \<and>
           (upd_serviceStatus updates = None \<longrightarrow> node_serviceStatus updated = node_serviceStatus existing) \<and>
           f' = writeJsonFile (encodeStore (store\<lparr> nodes := (nodes store)[index := updated] \<rparr>)) \<and>
           length ((nodes store)[index := updated]) = length (nodes store) \<and>
           (nodes store)[index := updated] ! index = updated \<and>
           (\<forall>j < length (nodes store). j \<noteq> index \<longrightarrow> (nodes store)[index := updated] ! j = nodes store ! j) \<and>
           (FleetNodeSchema Z (encodeNode updated) = Some updated \<longrightarrow>
              loadFleetStore Z f' = store\<lparr> nodes := (nodes store)[index := updated] \<rparr>)"
proof -
  let ?store = "readStoreLocked Z (ensureJsonFile f (encodeStore createEmptyFleetStore))"
  from updateNode_success[OF assms] obtain index where
    fi: "findIndex (\<lambda>n. normalizeNodeName (node_name n) = normalizeNodeName name) (nodes ?store) = Some index"
    and up: "updated = mergeUpdates (nodes ?store ! index) updates"
    and f': "f' = writeJsonFile (encodeStore (?store\<lparr> nodes := (nodes ?store)[index := updated] \<rparr>))"
    by blast
  from findIndex_Some[OF fi] have lt: "index < length (nodes ?store)" by simp
  have reload: "loadFleetStore Z f' = ?store\<lparr> nodes := (nodes ?store)[index := updated] \<rparr>"
    if ok: "FleetNodeSchema Z (encodeNode updated) = Some updated"
  proof -
    have valid: "FleetNode_valid Z updated"
      using ok by (simp add: FleetNodeSchema_encode split: if_splits)
    have "store_valid Z (?store\<lparr> nodes := (nodes ?store)[index := updated] \<rparr>)"
      using readStoreLocked_valid[of Z "ensureJsonFile f (encodeStore createEmptyFleetStore)"] valid
      by (auto simp add: store_valid_def dest!: set_update_subset_insert[THEN subsetD])
    then show ?thesis unfolding f' loadFleetStore_eq by (rule readStoreLocked_written)
  qed
  show ?thesis
    apply (rule exI[of _ ?store], rule exI[of _ index], rule exI[of _ "nodes ?store ! index"])
    using fi lt f' reload
    by (simp add: up mergeUpdates_def)
qed

lemma example_update:
  "updateNode exampleZod ''EDGE-1'' exampleUpdate exampleFile =
     (Inr (Some (mergeUpdates exampleNode exampleUpdate)),
      writeJsonFile (encodeStore \<lparr> schemaVersion = 1, nodes = [mergeUpdates exampleNode exampleUpdate] \<rparr>))"
proof -
  have v: "validateUpdate exampleUpdate = None"
    by (simp add: validateUpdate_def exampleUpdate_def validatePort_def)
  have e: "ensureJsonFile exampleFile (encodeStore createEmptyFleetStore) = exampleFile"
    by (simp add: exampleFile_def ensureJsonFile_written)
  have "normalizeNodeName ''EDGE-1'' = normalizeNodeName (node_name exampleNode)"
    by (simp add: exampleNode_def normalizeNodeName_def trim_def isWhiteSpace_def toLowerCase_def
        toLowerChar_def char_of_eq_iff)
  then have n: "normalizeNodeName (node_name exampleNode) = normalizeNodeName ''EDGE-1''"
    by (rule sym)
  show ?thesis
    by (simp add: updateNode_def v e exampleFile_read n Let_def)
qed

theorem updateNode_frame_witness:
  "updateNode exampleZod ''EDGE-1'' exampleUpdate exampleFile =
     (Inr (Some (mergeUpdates exampleNode exampleUpdate)),
      writeJsonFile (encodeStore \<lparr> schemaVersion = 1, nodes = [mergeUpdates exampleNode exampleUpdate] \<rparr>)) \<and>
   upd_host exampleUpdate = None \<and> upd_user exampleUpdate = None \<and>
   node_id (mergeUpdates exampleNode exampleUpdate) = node_id exampleNode \<and>
   node_name (mergeUpdates exampleNode exampleUpdate) = node_name exampleNode \<and>
   node_host (mergeUpdates exampleNode exampleUpdate) = node_host exampleNode \<and>
   node_user (mergeUpdates exampleNode exampleUpdate) = node_user exampleNode"
proof -
  obtain store index existing where
    s: "store = readStoreLocked exampleZod (ensureJsonFile exampleFile (encodeStore createEmptyFleetStore))"
    and i: "index < length (nodes store)" and x: "existing = nodes store ! index"
    and k: "node_id (mergeUpdates exampleNode exampleUpdate) = node_id existing"
      "node_name (mergeUpdates exampleNode exampleUpdate) = node_name existing"
      "upd_host exampleUpdate = None \<longrightarrow> node_host (mergeUpdates exampleNode exampleUpdate) = node_host existing"
      "upd_user exampleUpdate = None \<longrightarrow> node_user (mergeUpdates exampleNode exampleUpdate) = node_user existing"
    using updateNode_frame[OF example_update] by (elim exE conjE) (rule that, assumption+)
  have e: "ensureJsonFile exampleFile (encodeStore createEmptyFleetStore) = exampleFile"
    by (simp add: exampleFile_def ensureJsonFile_written)
  have st: "store = \<lparr> schemaVersion = 1, nodes = [exampleNode] \<rparr>"
    unfolding s e by (rule exampleFile_read)
  have ex: "existing = exampleNode" using i x unfolding st by simp
  have u: "upd_host exampleUpdate = None" "upd_user exampleUpdate = None"
    by (simp_all add: exampleUpdate_def)
  from k(3) u(1) have k3: "node_host (mergeUpdates exampleNode exampleUpdate) = node_host existing" by blast
  from k(4) u(2) have k4: "node_user (mergeUpdates exampleNode exampleUpdate) = node_user existing" by blast
  show ?thesis
    using example_update u k(1,2) k3 k4 unfolding ex by (intro conjI)
qed

section \<open>Executor: a failed step aborts the plan\<close>

lemma sshExec_frame:
  "sshExec E opts st = (r, st') \<Longrightarrow>
   nodesFile st' = nodesFile st \<and> updateCalls st' = updateCalls st \<and> progress st' = progress st"
  by (auto simp add: sshExec_def Let_def split: if_splits prod.splits ChildEnd.splits)

lemma executeStepLoop_props:
  "executeStepLoop E node stp kh tmo t0 cmds out err st = (r, st') \<Longrightarrow>
   step r = stp \<and> (status r = Success \<or> status r = Failed) \<and>
   nodesFile st' = nodesFile st \<and> updateCalls st' = updateCalls st \<and> progress st' = progress st"
proof (induction cmds arbitrary: out err st)
  case Nil
  then show ?case by auto
next
  case (Cons cmd cmds)
  obtain result st1 where s: "sshExec E (nodeSshOptions node cmd tmo kh) st = (result, st1)"
    by (cases "sshExec E (nodeSshOptions node cmd tmo kh) st")
  note fr = sshExec_frame[OF s]
  show ?case
  proof (cases "exitCode result \<noteq> Some 0 \<or> timedOut result")
    case True
    with Cons.prems s fr show ?thesis by auto
  next
    case False
    with Cons.prems s have
      "executeStepLoop E node stp kh tmo t0 cmds (out @ stdout result) (err @ stderr result) st1 = (r, st')"
      by auto
    from Cons.IH[OF this] fr show ?thesis by simp
  qed
qed

lemma executeStep_props:
  "executeStep E node stp kh tmo st = (r, st') \<Longrightarrow>
   step r = stp \<and> (status r = Success \<or> status r = Failed) \<and>
   nodesFile st' = nodesFile st \<and> updateCalls st' = updateCalls st \<and> progress st' = progress st"
  unfolding executeStep_def by (rule executeStepLoop_props)

lemma onProgress_frame [simp]:
  "nodesFile (onProgress stp s st) = nodesFile st"
  "updateCalls (onProgress stp s st) = updateCalls st"
  "world (onProgress stp s st) = world st"
  "spawned (onProgress stp s st) = spawned st"
  by (simp_all add: onProgress_def)

lemma executePlanLoop_props:
  "executePlanLoop E plan dry tmo kh stps acc st = ((failed, results), st') \<Longrightarrow>
   nodesFile st' = nodesFile st \<and> updateCalls st' = updateCalls st \<and>
   (\<exists>new. results = acc @ new \<and> map step new = take (length new) stps \<and>
      (case failed of
         None \<Rightarrow> length new = length stps \<and> list_all okStatus new
       | Some r \<Rightarrow> new \<noteq> [] \<and> last new = r \<and> status r = Failed \<and> list_all okStatus (butlast new)))"
proof (induction stps arbitrary: acc st)
  case Nil
  then show ?case by auto
next
  case (Cons stp rest)
  let ?skip = "case skipIf stp of None \<Rightarrow> False | Some p \<Rightarrow> p (nodeInfo plan)"
  show ?case
  proof (cases ?skip)
    case True
    let ?r = "\<lparr> step = stp, status = Skipped, sr_stdout = '''', sr_stderr = '''',
                 sr_error = None, durationMs = 0 \<rparr>"
    from Cons.prems True have
      "executePlanLoop E plan dry tmo kh rest (acc @ [?r]) (onProgress stp Skipped st) = ((failed, results), st')"
      by simp
    from Cons.IH[OF this] obtain new where
      f: "nodesFile st' = nodesFile st" "updateCalls st' = updateCalls st"
      and n: "results = (acc @ [?r]) @ new" "map step new = take (length new) rest"
        "(case failed of
           None \<Rightarrow> length new = length rest \<and> list_all okStatus new
         | Some r \<Rightarrow> new \<noteq> [] \<and> last new = r \<and> status r = Failed \<and> list_all okStatus (butlast new))"
      by auto
    have ok: "okStatus ?r" by (simp add: okStatus_def)
    show ?thesis
      using f n ok by (intro conjI exI[of _ "?r # new"]) (auto split: option.splits)
  next
    case False
    note ns = False
    show ?thesis
    proof (cases dry)
      case True
      let ?r = "\<lparr> step = stp, status = Success, sr_stdout = ''[DRY RUN] Commands not executed'',
                   sr_stderr = '''', sr_error = None, durationMs = 0 \<rparr>"
      from Cons.prems ns True have
        "executePlanLoop E plan dry tmo kh rest (acc @ [?r])
           (onProgress stp Success (onProgress stp Running st)) = ((failed, results), st')"
        by simp
      from Cons.IH[OF this] obtain new where
        f: "nodesFile st' = nodesFile st" "updateCalls st' = updateCalls st"
        and n: "results = (acc @ [?r]) @ new" "map step new = take (length new) rest"
          "(case failed of
             None \<Rightarrow> length new = length rest \<and> list_all okStatus new
           | Some r \<Rightarrow> new \<noteq> [] \<and> last new = r \<and> status r = Failed \<and> list_all okStatus (butlast new))"
        by auto
      have ok: "okStatus ?r" by (simp add: okStatus_def)
      show ?thesis
        using f n ok by (intro conjI exI[of _ "?r # new"]) (auto split: option.splits)
    next
      case False
      obtain result st2 where
        x: "executeStep E (plan_node plan) stp kh tmo (onProgress stp Running st) = (result, st2)"
        by (cases "executeStep E (plan_node plan) stp kh tmo (onProgress stp Running st)")
      from executeStep_props[OF x] have
        xr: "step result = stp" "status result = Success \<or> status result = Failed"
        and xf: "nodesFile st2 = nodesFile st" "updateCalls st2 = updateCalls st"
        by simp_all
      show ?thesis
      proof (cases "status result = Failed")
        case True
        with Cons.prems ns False x have
          "failed = Some result" "results = acc @ [result]" "st' = onProgress stp Failed st2"
          by auto
        then show ?thesis
          using xr xf True by (intro conjI exI[of _ "[result]"]) auto
      next
        case nf: False
        with Cons.prems ns False x have
          "executePlanLoop E plan dry tmo kh rest (acc @ [result])
             (onProgress stp (status result) st2) = ((failed, results), st')"
          by auto
        from Cons.IH[OF this] obtain new where
          f: "nodesFile st' = nodesFile st2" "updateCalls st' = updateCalls st2"
          and n: "results = (acc @ [result]) @ new" "map step new = take (length new) rest"
            "(case failed of
               None \<Rightarrow> length new = length rest \<and> list_all okStatus new
             | Some r \<Rightarrow> new \<noteq> [] \<and> last new = r \<and> status r = Failed \<and> list_all okStatus (butlast new))"
          by auto
        have ok: "okStatus result" using xr(2) nf by (simp add: okStatus_def)
        show ?thesis
          using f n xf xr(1) ok
          by (intro conjI exI[of _ "result # new"]) (auto split: option.splits)
      qed
    qed
  qed
qed

lemma validateUpdate_successUpdate: "validateUpdate (successUpdate plan now) = None"
  by (simp add: validateUpdate_def successUpdate_def)

lemma updateNode_no_error:
  "validateUpdate updates = None \<Longrightarrow> \<exists>x. fst (updateNode Z name updates f) = Inr x"
  by (auto simp add: updateNode_def Let_def split: option.splits)

text \<open>The three outcomes of \<open>executeBootstrapPlan\<close>, by the outcome of the loop.\<close>

lemma executeBootstrapPlan_cases:
  assumes d: "dry = (case dryRun options of None \<Rightarrow> False | Some d \<Rightarrow> d)"
    and t: "tmo = (case commandTimeoutMs options of None \<Rightarrow> 120000 | Some t \<Rightarrow> t)"
    and loop: "executePlanLoop E plan dry tmo (resolveKnownHostsPath E) (steps plan) [] st =
                 ((failed, results), st1)"
  shows "(case failed of
           Some result \<Rightarrow>
             executeBootstrapPlan E Z plan options st =
               (Inr \<lparr> res_node = plan_node plan, success = False, stepResults = results,
                      installedVersion = None,
                      totalDurationMs = dateNow E (world st1) - dateNow E (world st),
                      res_error = sr_error result \<rparr>, st1)
         | None \<Rightarrow>
             if dry then
               executeBootstrapPlan E Z plan options st =
                 (Inr \<lparr> res_node = plan_node plan, success = True, stepResults = results,
                        installedVersion = Some (targetVersion plan),
                        totalDurationMs = dateNow E (world st1) - dateNow E (world st),
                        res_error = None \<rparr>, st1)
             else
               executeBootstrapPlan E Z plan options st =
                 (Inr \<lparr> res_node = plan_node plan, success = True, stepResults = results,
                        installedVersion = Some (targetVersion plan),
                        totalDurationMs = dateNow E (world st1) - dateNow E (world st),
                        res_error = None \<rparr>,
                  st1\<lparr> nodesFile := snd (updateNode Z (node_name (plan_node plan))
                                            (successUpdate plan (toISOStringNow E (world st1))) (nodesFile st1)),
                       updateCalls := updateCalls st1 @
                          [(node_name (plan_node plan), successUpdate plan (toISOStringNow E (world st1)))] \<rparr>))"
proof (cases failed)
  case (Some result)
  then show ?thesis
    unfolding executeBootstrapPlan_def Let_def d[symmetric] t[symmetric] loop by simp
next
  case None
  let ?now = "toISOStringNow E (world st1)"
  let ?u = "successUpdate plan ?now"
  obtain x where x: "fst (updateNode Z (node_name (plan_node plan)) ?u (nodesFile st1)) = Inr x"
    using updateNode_no_error[OF validateUpdate_successUpdate] by blast
  obtain r f where rf: "updateNode Z (node_name (plan_node plan)) ?u (nodesFile st1) = (r, f)"
    by (cases "updateNode Z (node_name (plan_node plan)) ?u (nodesFile st1)")
  with x have r: "r = Inr x" by simp
  have us: "updateNodeSys Z (node_name (plan_node plan)) ?u st1 =
      (Inr x, st1\<lparr> nodesFile := f, updateCalls := updateCalls st1 @ [(node_name (plan_node plan), ?u)] \<rparr>)"
    by (simp add: updateNodeSys_def rf r)
  show ?thesis
    unfolding executeBootstrapPlan_def Let_def d[symmetric] t[symmetric] loop
    using None us rf by (simp add: successUpdate_def)
qed

subsection \<open>The commands before the failing one\<close>

lemma runAll_fst_snd:
  "runAll E (opts # rest) st =
     (fst (sshExec E opts st) # fst (runAll E rest (snd (sshExec E opts st))),
      snd (runAll E rest (snd (sshExec E opts st))))"
  by (simp add: case_prod_beta Let_def)

lemma runAll_append:
  "runAll E (xs @ ys) st =
     (fst (runAll E xs st) @ fst (runAll E ys (snd (runAll E xs st))),
      snd (runAll E ys (snd (runAll E xs st))))"
  by (induction xs arbitrary: st) (simp_all add: case_prod_beta Let_def)

lemma sshExec_sameWorld:
  assumes "sameWorld a b"
  shows "fst (sshExec E opts a) = fst (sshExec E opts b) \<and>
         sameWorld (snd (sshExec E opts a)) (snd (sshExec E opts b))"
  using assms
  by (auto simp add: sshExec_def sameWorld_def Let_def case_prod_beta split: ChildEnd.splits)

lemma onProgress_sameWorld [simp]: "sameWorld (onProgress stp s a) b = sameWorld a b"
  by (simp add: sameWorld_def)

lemma executeStepLoop_ok_run:
  assumes "sameWorld st sr"
    and "list_all commandOk (fst (runAll E (map (\<lambda>c. nodeSshOptions node c tmo kh) cmds) sr))"
  shows "status (fst (executeStepLoop E node stp kh tmo t0 cmds out err st)) = Success \<and>
         sameWorld (snd (executeStepLoop E node stp kh tmo t0 cmds out err st))
           (snd (runAll E (map (\<lambda>c. nodeSshOptions node c tmo kh) cmds) sr))"
  using assms
proof (induction cmds arbitrary: st sr out err)
  case Nil
  then show ?case by simp
next
  case (Cons cmd cmds)
  let ?o = "nodeSshOptions node cmd tmo kh"
  note sw = sshExec_sameWorld[OF Cons.prems(1), of E ?o]
  from Cons.prems(2) have ok: "commandOk (fst (sshExec E ?o sr))"
    and rest: "list_all commandOk
        (fst (runAll E (map (\<lambda>c. nodeSshOptions node c tmo kh) cmds) (snd (sshExec E ?o sr))))"
    by (simp_all add: runAll_fst_snd del: runAll.simps)
  from ok sw have ok': "exitCode (fst (sshExec E ?o st)) = Some 0" "\<not> timedOut (fst (sshExec E ?o st))"
    by (simp_all add: commandOk_def)
  from Cons.IH[OF sw[THEN conjunct2] rest] ok' show ?case
    by (simp add: runAll_fst_snd case_prod_beta Let_def del: runAll.simps)
qed

lemma executeStepLoop_fail_run:
  assumes "sameWorld st sr"
    and "list_all commandOk (fst (runAll E (map (\<lambda>c. nodeSshOptions node c tmo kh) cpre) sr))"
    and "\<not> commandOk (fst (sshExec E (nodeSshOptions node cmd tmo kh)
            (snd (runAll E (map (\<lambda>c. nodeSshOptions node c tmo kh) cpre) sr))))"
  shows "status (fst (executeStepLoop E node stp kh tmo t0 (cpre @ cmd # cpost) out err st)) = Failed \<and>
         sr_error (fst (executeStepLoop E node stp kh tmo t0 (cpre @ cmd # cpost) out err st)) =
           Some (stepError stp (fst (sshExec E (nodeSshOptions node cmd tmo kh)
              (snd (runAll E (map (\<lambda>c. nodeSshOptions node c tmo kh) cpre) sr))))) \<and>
         sameWorld (snd (executeStepLoop E node stp kh tmo t0 (cpre @ cmd # cpost) out err st))
           (snd (sshExec E (nodeSshOptions node cmd tmo kh)
              (snd (runAll E (map (\<lambda>c. nodeSshOptions node c tmo kh) cpre) sr))))"
  using assms
proof (induction cpre arbitrary: st sr out err)
  case Nil
  let ?o = "nodeSshOptions node cmd tmo kh"
  note sw = sshExec_sameWorld[OF Nil.prems(1), of E ?o]
  from Nil.prems(3) sw have "exitCode (fst (sshExec E ?o st)) \<noteq> Some 0 \<or> timedOut (fst (sshExec E ?o st))"
    by (auto simp add: commandOk_def)
  with sw show ?case by (auto simp add: case_prod_beta Let_def)
next
  case (Cons c cs)
  let ?o = "nodeSshOptions node c tmo kh"
  note sw = sshExec_sameWorld[OF Cons.prems(1), of E ?o]
  from Cons.prems(2) have ok: "commandOk (fst (sshExec E ?o sr))"
    and rest: "list_all commandOk
        (fst (runAll E (map (\<lambda>c. nodeSshOptions node c tmo kh) cs) (snd (sshExec E ?o sr))))"
    by (simp_all add: runAll_fst_snd del: runAll.simps)
  from Cons.prems(3) have bad: "\<not> commandOk (fst (sshExec E (nodeSshOptions node cmd tmo kh)
            (snd (runAll E (map (\<lambda>c. nodeSshOptions node c tmo kh) cs) (snd (sshExec E ?o sr))))))"
    by (simp add: runAll_fst_snd del: runAll.simps)
  from ok sw have ok': "exitCode (fst (sshExec E ?o st)) = Some 0" "\<not> timedOut (fst (sshExec E ?o st))"
    by (simp_all add: commandOk_def)
  from Cons.IH[OF sw[THEN conjunct2] rest bad] ok' show ?case
    by (simp add: runAll_fst_snd case_prod_beta Let_def del: runAll.simps)
qed

lemma executePlanLoop_fail_run:
  assumes "sameWorld st sr"
    and "\<not> shouldSkip plan stp"
    and "commands stp = cpre @ cmd # cpost"
    and "list_all commandOk (fst (runAll E
           (map (\<lambda>c. nodeSshOptions (plan_node plan) c tmo kh)
              (concat (map commands (filter (\<lambda>s. \<not> shouldSkip plan s) before)) @ cpre)) sr))"
    and "\<not> commandOk (fst (sshExec E (nodeSshOptions (plan_node plan) cmd tmo kh)
           (snd (runAll E
              (map (\<lambda>c. nodeSshOptions (plan_node plan) c tmo kh)
                 (concat (map commands (filter (\<lambda>s. \<not> shouldSkip plan s) before)) @ cpre)) sr))))"
  shows "\<exists>fr mid stF.
           executePlanLoop E plan False tmo kh (before @ stp # after) acc st =
             ((Some fr, acc @ mid @ [fr]), stF) \<and>
           map step mid = before \<and>
           map status mid = map (\<lambda>s. if shouldSkip plan s then Skipped else Success) before \<and>
           step fr = stp \<and> status fr = Failed \<and>
           sr_error fr = Some (stepError stp (fst (sshExec E (nodeSshOptions (plan_node plan) cmd tmo kh)
             (snd (runAll E
                (map (\<lambda>c. nodeSshOptions (plan_node plan) c tmo kh)
                   (concat (map commands (filter (\<lambda>s. \<not> shouldSkip plan s) before)) @ cpre)) sr))))) \<and>
           sameWorld stF (snd (sshExec E (nodeSshOptions (plan_node plan) cmd tmo kh)
             (snd (runAll E
                (map (\<lambda>c. nodeSshOptions (plan_node plan) c tmo kh)
                   (concat (map commands (filter (\<lambda>s. \<not> shouldSkip plan s) before)) @ cpre)) sr))))"
  using assms(1,4,5)
proof (induction before arbitrary: acc st sr)
  case Nil
  let ?st0 = "onProgress stp Running st"
  obtain fr st2 where x: "executeStep E (plan_node plan) stp kh tmo ?st0 = (fr, st2)"
    by (cases "executeStep E (plan_node plan) stp kh tmo ?st0")
  have sw0: "sameWorld ?st0 sr" using Nil.prems(1) by simp
  from Nil.prems(2,3) have ok: "list_all commandOk (fst (runAll E
           (map (\<lambda>c. nodeSshOptions (plan_node plan) c tmo kh) cpre) sr))"
    and bad: "\<not> commandOk (fst (sshExec E (nodeSshOptions (plan_node plan) cmd tmo kh)
           (snd (runAll E (map (\<lambda>c. nodeSshOptions (plan_node plan) c tmo kh) cpre) sr))))"
    by simp_all
  from executeStepLoop_fail_run[OF sw0 ok bad, of stp "dateNow E (world ?st0)" cpost "''''" "''''"] x
  have f: "status fr = Failed"
    "sr_error fr = Some (stepError stp (fst (sshExec E (nodeSshOptions (plan_node plan) cmd tmo kh)
       (snd (runAll E (map (\<lambda>c. nodeSshOptions (plan_node plan) c tmo kh) cpre) sr)))))"
    "sameWorld st2 (snd (sshExec E (nodeSshOptions (plan_node plan) cmd tmo kh)
       (snd (runAll E (map (\<lambda>c. nodeSshOptions (plan_node plan) c tmo kh) cpre) sr))))"
    by (simp_all add: executeStep_def assms(3))
  from executeStep_props[OF x] have s: "step fr = stp" by simp
  have ns: "\<not> (case skipIf stp of None \<Rightarrow> False | Some p \<Rightarrow> p (nodeInfo plan))"
    using assms(2) by (simp add: shouldSkip_def)
  have "executePlanLoop E plan False tmo kh ([] @ stp # after) acc st =
      ((Some fr, acc @ [] @ [fr]), onProgress stp Failed st2)"
    using ns x f(1) by simp
  with f s show ?case by (intro exI[of _ fr] exI[of _ "[]"] exI[of _ "onProgress stp Failed st2"]) simp
next
  case (Cons s bs)
  let ?opt = "\<lambda>c. nodeSshOptions (plan_node plan) c tmo kh"
  let ?X = "concat (map commands (filter (\<lambda>s. \<not> shouldSkip plan s) bs)) @ cpre"
  show ?case
  proof (cases "shouldSkip plan s")
    case True
    let ?r = "\<lparr> step = s, status = Skipped, sr_stdout = '''', sr_stderr = '''',
                 sr_error = None, durationMs = 0 \<rparr>"
    have sw0: "sameWorld (onProgress s Skipped st) sr" using Cons.prems(1) by simp
    from Cons.prems(2,3) True have ok: "list_all commandOk (fst (runAll E (map ?opt ?X) sr))"
      and bad: "\<not> commandOk (fst (sshExec E (?opt cmd) (snd (runAll E (map ?opt ?X) sr))))"
      by simp_all
    from Cons.IH[OF sw0 ok bad, of "acc @ [?r]"] obtain fr mid stF where
      e: "executePlanLoop E plan False tmo kh (bs @ stp # after) (acc @ [?r]) (onProgress s Skipped st) =
             ((Some fr, (acc @ [?r]) @ mid @ [fr]), stF)"
      and m: "map step mid = bs"
        "map status mid = map (\<lambda>s. if shouldSkip plan s then Skipped else Success) bs"
      and f: "step fr = stp" "status fr = Failed"
        "sr_error fr = Some (stepError stp (fst (sshExec E (?opt cmd) (snd (runAll E (map ?opt ?X) sr)))))"
        "sameWorld stF (snd (sshExec E (?opt cmd) (snd (runAll E (map ?opt ?X) sr))))"
      by (elim exE conjE) (rule that, assumption+)
    have sk: "(case skipIf s of None \<Rightarrow> False | Some p \<Rightarrow> p (nodeInfo plan))"
      using True by (simp add: shouldSkip_def)
    have "executePlanLoop E plan False tmo kh ((s # bs) @ stp # after) acc st =
        ((Some fr, acc @ (?r # mid) @ [fr]), stF)"
      using sk e by simp
    with m f True show ?thesis
      by (intro exI[of _ fr] exI[of _ "?r # mid"] exI[of _ stF]) simp
  next
    case False
    let ?st0 = "onProgress s Running st"
    let ?sr' = "snd (runAll E (map ?opt (commands s)) sr)"
    obtain r st2 where x: "executeStep E (plan_node plan) s kh tmo ?st0 = (r, st2)"
      by (cases "executeStep E (plan_node plan) s kh tmo ?st0")
    have sw0: "sameWorld ?st0 sr" using Cons.prems(1) by simp
    from Cons.prems(2,3) False
    have oks: "list_all commandOk (fst (runAll E (map ?opt (commands s)) sr))"
      and ok: "list_all commandOk (fst (runAll E (map ?opt ?X) ?sr'))"
      and bad: "\<not> commandOk (fst (sshExec E (?opt cmd) (snd (runAll E (map ?opt ?X) ?sr'))))"
      and eq: "snd (runAll E (map ?opt (concat (map commands (filter (\<lambda>s. \<not> shouldSkip plan s) (s # bs))) @ cpre)) sr) =
               snd (runAll E (map ?opt ?X) ?sr')"
      by (simp_all add: runAll_append)
    from executeStepLoop_ok_run[OF sw0 oks, of s "dateNow E (world ?st0)" "''''" "''''"] x
    have r: "status r = Success" "sameWorld st2 ?sr'"
      by (simp_all add: executeStep_def)
    from executeStep_props[OF x] have rs: "step r = s" by simp
    have sw1: "sameWorld (onProgress s (status r) st2) ?sr'" using r(2) by simp
    from Cons.IH[OF sw1 ok bad, of "acc @ [r]"] obtain fr mid stF where
      e: "executePlanLoop E plan False tmo kh (bs @ stp # after) (acc @ [r]) (onProgress s (status r) st2) =
             ((Some fr, (acc @ [r]) @ mid @ [fr]), stF)"
      and m: "map step mid = bs"
        "map status mid = map (\<lambda>s. if shouldSkip plan s then Skipped else Success) bs"
      and f: "step fr = stp" "status fr = Failed"
        "sr_error fr = Some (stepError stp (fst (sshExec E (?opt cmd) (snd (runAll E (map ?opt ?X) ?sr')))))"
        "sameWorld stF (snd (sshExec E (?opt cmd) (snd (runAll E (map ?opt ?X) ?sr'))))"
      by (elim exE conjE) (rule that, assumption+)
    have nsk: "\<not> (case skipIf s of None \<Rightarrow> False | Some p \<Rightarrow> p (nodeInfo plan))"
      using False by (simp add: shouldSkip_def)
    have "executePlanLoop E plan False tmo kh ((s # bs) @ stp # after) acc st =
        ((Some fr, acc @ (r # mid) @ [fr]), stF)"
      using nsk x r(1) e by simp
    with m f r(1) rs False show ?thesis
      unfolding eq
      by (intro exI[of _ fr] exI[of _ "r # mid"] exI[of _ stF]) simp
  qed
qed

text \<open>
  Claim C2.  Outside dry-run mode, let a step of the plan that is not skipped have a command
  for which the transport returns an exit code other than 0 or a timeout, while every
  command before it, in the steps before it that are not skipped and in the step itself,
  exited with code 0 without a timeout (\<open>runAll\<close> gives what the transport returns for
  these commands, called in this order).  Then \<open>executeBootstrapPlan\<close> returns a result with
  \<open>success = False\<close>; its step results are those of the steps up to the failing one, in
  plan order, with status \<open>Skipped\<close> or \<open>Success\<close> before it and \<open>Failed\<close> for it, so that
  later steps are absent; the error is the one of the failing command; the inventory file
  is unchanged and \<open>updateNode\<close> was not called; and the processes spawned are those of the
  commands up to the failing one, so that no later command was attempted.  When the
  failing step is the first one, the result holds exactly one step result, with status
  \<open>Failed\<close>.
\<close>

theorem failed_step_aborts_plan:
  assumes nd: "dryRun options \<noteq> Some True"
    and tm: "tmo = (case commandTimeoutMs options of None \<Rightarrow> 120000 | Some t \<Rightarrow> t)"
    and kh: "kh = resolveKnownHostsPath E"
    and sp: "steps plan = before @ stp # after"
    and ns: "\<not> shouldSkip plan stp"
    and cm: "commands stp = cpre @ cmd # cpost"
    and ea: "earlier = map (\<lambda>c. nodeSshOptions (plan_node plan) c tmo kh)
               (concat (map commands (filter (\<lambda>s. \<not> shouldSkip plan s) before)) @ cpre)"
    and ok: "list_all commandOk (fst (runAll E earlier st))"
    and run: "sshExec E (nodeSshOptions (plan_node plan) cmd tmo kh) (snd (runAll E earlier st)) = (r, st2)"
    and bad: "exitCode r \<noteq> Some 0 \<or> timedOut r"
  shows "\<exists>res st'.
           executeBootstrapPlan E Z plan options st = (Inr res, st') \<and>
           \<not> success res \<and>
           map step (stepResults res) = before @ [stp] \<and>
           map status (stepResults res) =
             map (\<lambda>s. if shouldSkip plan s then Skipped else Success) before @ [Failed] \<and>
           res_error res = Some (stepError stp r) \<and>
           (timedOut r \<longrightarrow> res_error res = Some ''Command timed out'') \<and>
           installedVersion res = None \<and>
           nodesFile st' = nodesFile st \<and> updateCalls st' = updateCalls st \<and>
           world st' = world st2 \<and> spawned st' = spawned st2 \<and>
           (before = [] \<longrightarrow> length (stepResults res) = 1 \<and> status (hd (stepResults res)) = Failed)"
proof -
  define dry where "dry = (case dryRun options of None \<Rightarrow> False | Some d \<Rightarrow> d)"
  from nd have nodry: "dry = False" by (cases "dryRun options") (auto simp add: dry_def)
  have sw: "sameWorld st st" by (simp add: sameWorld_def)
  have nb: "\<not> commandOk (fst (sshExec E (nodeSshOptions (plan_node plan) cmd tmo kh)
              (snd (runAll E earlier st))))"
    using run bad by (auto simp add: commandOk_def)
  from executePlanLoop_fail_run[OF sw ns cm ok[unfolded ea] nb[unfolded ea], of after "[]", folded ea]
  obtain fr mid stF where
    loop0: "executePlanLoop E plan False tmo kh (before @ stp # after) [] st = ((Some fr, [] @ mid @ [fr]), stF)"
    and m: "map step mid = before"
      "map status mid = map (\<lambda>s. if shouldSkip plan s then Skipped else Success) before"
    and f: "step fr = stp" "status fr = Failed"
      "sr_error fr = Some (stepError stp (fst (sshExec E (nodeSshOptions (plan_node plan) cmd tmo kh)
         (snd (runAll E earlier st)))))"
      "sameWorld stF (snd (sshExec E (nodeSshOptions (plan_node plan) cmd tmo kh)
         (snd (runAll E earlier st))))"
    by (elim exE conjE) (rule that, assumption+)
  from loop0 have loop: "executePlanLoop E plan dry tmo (resolveKnownHostsPath E) (steps plan) [] st =
      ((Some fr, mid @ [fr]), stF)"
    by (simp add: nodry kh sp)
  from executePlanLoop_props[OF loop] have
    fr: "nodesFile stF = nodesFile st" "updateCalls stF = updateCalls st" by simp_all
  let ?res = "\<lparr> res_node = plan_node plan, success = False, stepResults = mid @ [fr],
                 installedVersion = None,
                 totalDurationMs = dateNow E (world stF) - dateNow E (world st),
                 res_error = sr_error fr \<rparr>"
  from executeBootstrapPlan_cases[OF dry_def tm loop, of Z]
  have ex: "executeBootstrapPlan E Z plan options st = (Inr ?res, stF)" by simp
  have e: "sr_error fr = Some (stepError stp r)" using f(3) run by simp
  have w: "world stF = world st2" "spawned stF = spawned st2"
    using f(4) run by (simp_all add: sameWorld_def)
  have t: "timedOut r \<longrightarrow> sr_error fr = Some ''Command timed out''"
    using e by (simp add: stepError_def)
  have one: "before = [] \<longrightarrow> length (mid @ [fr]) = 1 \<and> status (hd (mid @ [fr])) = Failed"
    using m(1) f(2) by auto
  show ?thesis
    using ex m f(1,2) e t fr w one
    by (intro exI[of _ ?res] exI[of _ stF]) simp
qed

lemma exampleTimeout_sshExec:
  "timedOut (fst (sshExec exampleTimeoutEnv (nodeSshOptions exampleNode cmd tmo kh) st))"
  by (simp add: sshExec_def nodeSshOptions_def exampleNode_def exampleTimeoutEnv_def exampleEnv_def
      startsWith_def Let_def)

lemma last_sshArgs: "last (sshArgs opts) = command opts"
  by (simp add: sshArgs_def)

lemma exampleExit_sshExec:
  "sshExec exampleExitEnv (nodeSshOptions exampleNode cmd tmo kh) st =
     (\<lparr> stdout = '''', stderr = '''', exitCode = Some (if cmd = ''exit 3'' then 3 else 0),
        signal = None, timedOut = False \<rparr>,
      st\<lparr> world := Suc (world st),
          spawned := spawned st @ [(''/usr/bin/ssh'', sshArgs (nodeSshOptions exampleNode cmd tmo kh))] \<rparr>)"
  by (simp add: sshExec_def exampleExitEnv_def exampleEnv_def Let_def last_sshArgs startsWith_def)
     (simp add: nodeSshOptions_def exampleNode_def)

theorem failed_step_aborts_plan_witness:
  "dryRun runOptions \<noteq> Some True \<and>
   (\<exists>res st'.
      executeBootstrapPlan exampleTimeoutEnv exampleZod examplePlan runOptions exampleSys = (Inr res, st') \<and>
      \<not> success res \<and> length (stepResults res) = 1 \<and> map status (stepResults res) = [Failed] \<and>
      res_error res = Some ''Command timed out'' \<and>
      nodesFile st' = NoFile \<and> updateCalls st' = [] \<and> length (spawned st') = 1) \<and>
   (\<exists>res st'.
      executeBootstrapPlan exampleExitEnv exampleZod exampleShortPlan runOptions exampleSys = (Inr res, st') \<and>
      \<not> success res \<and>
      map (\<lambda>s. step_id (step s)) (stepResults res) = [''check-node'', ''prepare'', ''install''] \<and>
      map status (stepResults res) = [Skipped, Success, Failed] \<and>
      res_error res = Some ''Command failed with exit code 3'' \<and>
      nodesFile st' = NoFile \<and> updateCalls st' = [] \<and>
      map (\<lambda>p. last (snd p)) (spawned st') = [''mkdir -p ~/.raven'', ''echo start'', ''exit 3''])"
proof -
  have nd: "dryRun runOptions \<noteq> Some True" by (simp add: runOptions_def)
  have tm: "(120000::int) = (case commandTimeoutMs runOptions of None \<Rightarrow> 120000 | Some t \<Rightarrow> t)"
    by (simp add: runOptions_def)
  have first: "\<exists>res st'.
      executeBootstrapPlan exampleTimeoutEnv exampleZod examplePlan runOptions exampleSys = (Inr res, st') \<and>
      \<not> success res \<and> length (stepResults res) = 1 \<and> map status (stepResults res) = [Failed] \<and>
      res_error res = Some ''Command timed out'' \<and>
      nodesFile st' = NoFile \<and> updateCalls st' = [] \<and> length (spawned st') = 1"
  proof -
    let ?E = exampleTimeoutEnv
    let ?s1 = "hd (steps examplePlan)"
    let ?c1 = "hd (commands ?s1)"
    let ?o = "nodeSshOptions (plan_node examplePlan) ?c1 120000 (resolveKnownHostsPath ?E)"
    have sp: "steps examplePlan = [] @ ?s1 # tl (steps examplePlan)"
      by (simp add: examplePlan_def buildLinuxSteps_def)
    have ns: "\<not> shouldSkip examplePlan ?s1"
      by (simp add: shouldSkip_def examplePlan_def buildLinuxSteps_def freshInfo_def)
    have cm: "commands ?s1 = [] @ ?c1 # tl (commands ?s1)"
      by (simp add: examplePlan_def buildLinuxSteps_def)
    have ea: "[] = map (\<lambda>c. nodeSshOptions (plan_node examplePlan) c 120000 (resolveKnownHostsPath ?E))
               (concat (map commands (filter (\<lambda>s. \<not> shouldSkip examplePlan s) [])) @ [])"
      by simp
    have ok: "list_all commandOk (fst (runAll ?E [] exampleSys))" by simp
    obtain r st2 where run: "sshExec ?E ?o (snd (runAll ?E [] exampleSys)) = (r, st2)"
      by (cases "sshExec ?E ?o (snd (runAll ?E [] exampleSys))")
    have to: "timedOut r"
      using exampleTimeout_sshExec[of ?c1 120000 "resolveKnownHostsPath ?E" exampleSys] run
      by (simp add: examplePlan_def)
    then have bad: "exitCode r \<noteq> Some 0 \<or> timedOut r" by simp
    have sl: "length (spawned st2) = 1"
      using run
      by (auto simp add: sshExec_def Let_def case_prod_beta exampleSys_def examplePlan_def
          nodeSshOptions_def exampleNode_def startsWith_def split: if_splits)
    from failed_step_aborts_plan[OF nd tm refl sp ns cm ea ok run bad, of exampleZod]
    obtain res st' where
      "executeBootstrapPlan ?E exampleZod examplePlan runOptions exampleSys = (Inr res, st')"
      "\<not> success res"
      "map status (stepResults res) =
         map (\<lambda>s. if shouldSkip examplePlan s then Skipped else Success) [] @ [Failed]"
      "timedOut r \<longrightarrow> res_error res = Some ''Command timed out''"
      "nodesFile st' = nodesFile exampleSys" "updateCalls st' = updateCalls exampleSys"
      "spawned st' = spawned st2"
      "[] = ([]::BootstrapStep list) \<longrightarrow> length (stepResults res) = 1 \<and> status (hd (stepResults res)) = Failed"
      by (elim exE conjE) (rule that, assumption+)
    with to sl show ?thesis
      by (intro exI[of _ res] exI[of _ st']) (simp add: exampleSys_def)
  qed
  have second: "\<exists>res st'.
      executeBootstrapPlan exampleExitEnv exampleZod exampleShortPlan runOptions exampleSys = (Inr res, st') \<and>
      \<not> success res \<and>
      map (\<lambda>s. step_id (step s)) (stepResults res) = [''check-node'', ''prepare'', ''install''] \<and>
      map status (stepResults res) = [Skipped, Success, Failed] \<and>
      res_error res = Some ''Command failed with exit code 3'' \<and>
      nodesFile st' = NoFile \<and> updateCalls st' = [] \<and>
      map (\<lambda>p. last (snd p)) (spawned st') = [''mkdir -p ~/.raven'', ''echo start'', ''exit 3'']"
  proof -
    let ?E = exampleExitEnv
    let ?kh = "resolveKnownHostsPath ?E"
    let ?a = "\<lparr> step_id = ''check-node'', description = ''Check Node.js'', commands = [''node --version''],
             skippable = True, skipIf = Some (\<lambda>info. \<not> hasNode info), errorHint = None \<rparr>"
    let ?b = "\<lparr> step_id = ''prepare'', description = ''Prepare'', commands = [''mkdir -p ~/.raven''],
             skippable = False, skipIf = None, errorHint = None \<rparr>"
    let ?c = "\<lparr> step_id = ''install'', description = ''Install'',
             commands = [''echo start'', ''exit 3'', ''echo done''],
             skippable = False, skipIf = None, errorHint = None \<rparr>"
    let ?d = "\<lparr> step_id = ''verify'', description = ''Verify'', commands = [''raven --version''],
             skippable = False, skipIf = None, errorHint = None \<rparr>"
    let ?opt = "\<lambda>c. nodeSshOptions (plan_node exampleShortPlan) c 120000 ?kh"
    let ?earlier = "[?opt ''mkdir -p ~/.raven'', ?opt ''echo start'']"
    have pn: "plan_node exampleShortPlan = exampleNode" by (simp add: exampleShortPlan_def)
    have sp: "steps exampleShortPlan = [?a, ?b] @ ?c # [?d]" by (simp add: exampleShortPlan_def)
    have sk: "shouldSkip exampleShortPlan ?a" "\<not> shouldSkip exampleShortPlan ?b"
      "\<not> shouldSkip exampleShortPlan ?c"
      by (simp_all add: shouldSkip_def exampleShortPlan_def freshInfo_def)
    have cm: "commands ?c = [''echo start''] @ ''exit 3'' # [''echo done'']" by simp
    have ea: "?earlier = map ?opt
               (concat (map commands (filter (\<lambda>s. \<not> shouldSkip exampleShortPlan s) [?a, ?b])) @ [''echo start''])"
      using sk by simp
    have ra: "runAll ?E ?earlier exampleSys =
        ([\<lparr> stdout = '''', stderr = '''', exitCode = Some 0, signal = None, timedOut = False \<rparr>,
          \<lparr> stdout = '''', stderr = '''', exitCode = Some 0, signal = None, timedOut = False \<rparr>],
         exampleSys\<lparr> world := 2,
            spawned := [(''/usr/bin/ssh'', sshArgs (?opt ''mkdir -p ~/.raven'')),
                        (''/usr/bin/ssh'', sshArgs (?opt ''echo start''))] \<rparr>)"
      by (simp add: pn exampleExit_sshExec exampleSys_def)
    have ok: "list_all commandOk (fst (runAll ?E ?earlier exampleSys))"
      unfolding ra by (simp add: commandOk_def)
    let ?r = "\<lparr> stdout = '''', stderr = '''', exitCode = Some 3, signal = None, timedOut = False \<rparr>"
    let ?st2 = "exampleSys\<lparr> world := 3,
            spawned := [(''/usr/bin/ssh'', sshArgs (?opt ''mkdir -p ~/.raven'')),
                        (''/usr/bin/ssh'', sshArgs (?opt ''echo start'')),
                        (''/usr/bin/ssh'', sshArgs (?opt ''exit 3''))] \<rparr>"
    have run: "sshExec ?E (?opt ''exit 3'') (snd (runAll ?E ?earlier exampleSys)) = (?r, ?st2)"
      unfolding ra by (simp add: pn exampleExit_sshExec exampleSys_def)
    have bad: "exitCode ?r \<noteq> Some 0 \<or> timedOut ?r" by simp
    have se: "stepError ?c ?r = ''Command failed with exit code 3''"
      by code_simp
    from failed_step_aborts_plan[OF nd tm refl sp sk(3) cm ea ok run bad, of exampleZod]
    obtain res st' where
      "executeBootstrapPlan ?E exampleZod exampleShortPlan runOptions exampleSys = (Inr res, st')"
      "\<not> success res"
      "map step (stepResults res) = [?a, ?b] @ [?c]"
      "map status (stepResults res) =
         map (\<lambda>s. if shouldSkip exampleShortPlan s then Skipped else Success) [?a, ?b] @ [Failed]"
      "res_error res = Some (stepError ?c ?r)"
      "nodesFile st' = nodesFile exampleSys" "updateCalls st' = updateCalls exampleSys"
      "spawned st' = spawned ?st2"
      by (elim exE conjE) (rule that, assumption+)
    moreover have "map (\<lambda>s. step_id (step s)) (stepResults res) =
        map step_id (map step (stepResults res))"
      by (simp add: comp_def)
    ultimately show ?thesis
      using sk se
      by (intro exI[of _ res] exI[of _ st']) (simp add: exampleSys_def last_sshArgs nodeSshOptions_def)
  qed
  from nd first second show ?thesis by blast
qed

lemma sshExec_ok:
  assumes "allSucceed E" and "\<not> startsWith (ssh_host opts) ''-''"
  shows "exitCode (fst (sshExec E opts st)) = Some 0 \<and> \<not> timedOut (fst (sshExec E opts st))"
proof -
  obtain run w' where s: "spawn E ''/usr/bin/ssh'' (sshArgs opts) (timeoutMs opts) (world st) = (run, w')"
    by (cases "spawn E ''/usr/bin/ssh'' (sshArgs opts) (timeoutMs opts) (world st)")
  from assms(1)[unfolded allSucceed_def, rule_format, of "''/usr/bin/ssh''" "sshArgs opts" "timeoutMs opts" "world st"] s
  obtain sg where "\<not> timerFired run" "child_end run = ChildExit (Some 0) sg" by auto
  with s assms(2) show ?thesis by (simp add: sshExec_def Let_def)
qed

lemma executeStepLoop_ok:
  assumes "allSucceed E" and "\<not> startsWith (node_host node) ''-''"
  shows "status (fst (executeStepLoop E node stp kh tmo t0 cmds out err st)) = Success"
proof (induction cmds arbitrary: out err st)
  case Nil
  then show ?case by simp
next
  case (Cons cmd cmds)
  obtain result st1 where s: "sshExec E (nodeSshOptions node cmd tmo kh) st = (result, st1)"
    by (cases "sshExec E (nodeSshOptions node cmd tmo kh) st")
  have "\<not> startsWith (ssh_host (nodeSshOptions node cmd tmo kh)) ''-''"
    using assms(2) by (simp add: nodeSshOptions_def)
  from sshExec_ok[OF assms(1) this, of st] s
  have "exitCode result = Some 0" "\<not> timedOut result" by simp_all
  with s Cons.IH show ?case by simp
qed

lemma executePlanLoop_ok:
  assumes "allSucceed E" and "\<not> startsWith (node_host (plan_node plan)) ''-''"
  shows "fst (fst (executePlanLoop E plan dry tmo kh stps acc st)) = None"
proof (induction stps arbitrary: acc st)
  case Nil
  then show ?case by simp
next
  case (Cons stp rest)
  obtain result st2 where
    x: "executeStep E (plan_node plan) stp kh tmo (onProgress stp Running st) = (result, st2)"
    by (cases "executeStep E (plan_node plan) stp kh tmo (onProgress stp Running st)")
  have "status (fst (executeStep E (plan_node plan) stp kh tmo (onProgress stp Running st))) = Success"
    unfolding executeStep_def by (rule executeStepLoop_ok[OF assms])
  with x have "status result = Success" by simp
  with x Cons.IH show ?case by (cases dry) (simp_all add: Let_def)
qed

section \<open>Executor: what a successful plan writes to the inventory\<close>

lemma exampleEnv_allSucceed: "allSucceed exampleEnv"
  by (simp add: allSucceed_def exampleEnv_def)

lemma example_success_update:
  "updateNode exampleZod ''edge-1'' (successUpdate examplePlan ''2026-01-01T00:00:00.000Z'') exampleFile =
     (Inr (Some (exampleNode\<lparr> node_installed := Some \<lparr> inst_version = ''2.0.0'',
                                   installedAt = ''2026-01-01T00:00:00.000Z'' \<rparr>,
                               node_lastSeen := Some ''2026-01-01T00:00:00.000Z'' \<rparr>)),
      writeJsonFile (encodeStore \<lparr> schemaVersion = 1, nodes =
        [exampleNode\<lparr> node_installed := Some \<lparr> inst_version = ''2.0.0'',
                                   installedAt = ''2026-01-01T00:00:00.000Z'' \<rparr>,
                       node_lastSeen := Some ''2026-01-01T00:00:00.000Z'' \<rparr>] \<rparr>))"
proof -
  have e: "ensureJsonFile exampleFile (encodeStore createEmptyFleetStore) = exampleFile"
    by (simp add: exampleFile_def ensureJsonFile_written)
  have n: "normalizeNodeName (node_name exampleNode) = normalizeNodeName ''edge-1''"
    by (simp add: exampleNode_def)
  have m: "mergeUpdates exampleNode (successUpdate examplePlan ''2026-01-01T00:00:00.000Z'') =
      exampleNode\<lparr> node_installed := Some \<lparr> inst_version = ''2.0.0'',
                                   installedAt = ''2026-01-01T00:00:00.000Z'' \<rparr>,
                   node_lastSeen := Some ''2026-01-01T00:00:00.000Z'' \<rparr>"
    by (simp add: mergeUpdates_def successUpdate_def examplePlan_def exampleNode_def)
  show ?thesis
    by (simp add: updateNode_def validateUpdate_successUpdate e exampleFile_read n Let_def m)
qed

text \<open>
  Claim C3, on the example plan for node \<open>edge-1\<close> and target version 2.0.0, run in an
  environment where every command succeeds.  The result has \<open>success = True\<close> and the
  installed version 2.0.0, and \<open>updateNode\<close> is called once, for \<open>edge-1\<close>, with the operating
  system, the architecture, the installation record, the last-contact time and the service
  status \<open>running\<close>.  The stored record gets the installation record and the last-contact
  time; its operating system, architecture and service status stay unset, because
  \<open>mergeUpdates\<close> does not copy these three fields.
\<close>

theorem bootstrap_success_store_record:
  "\<exists>res st'.
     executeBootstrapPlan exampleEnv exampleZod examplePlan runOptions
       (exampleSys\<lparr> nodesFile := exampleFile \<rparr>) = (Inr res, st') \<and>
     success res \<and> installedVersion res = Some ''2.0.0'' \<and>
     updateCalls st' = [(''edge-1'', successUpdate examplePlan ''2026-01-01T00:00:00.000Z'')] \<and>
     upd_os (successUpdate examplePlan ''2026-01-01T00:00:00.000Z'') = Some Linux \<and>
     upd_arch (successUpdate examplePlan ''2026-01-01T00:00:00.000Z'') = Some Arm64 \<and>
     upd_serviceStatus (successUpdate examplePlan ''2026-01-01T00:00:00.000Z'') = Some ServiceRunning \<and>
     getNode exampleZod ''edge-1'' (nodesFile st') =
       Some (exampleNode\<lparr> node_installed := Some \<lparr> inst_version = ''2.0.0'',
                                     installedAt = ''2026-01-01T00:00:00.000Z'' \<rparr>,
                           node_lastSeen := Some ''2026-01-01T00:00:00.000Z'' \<rparr>) \<and>
     map_option node_serviceStatus (getNode exampleZod ''edge-1'' (nodesFile st')) = Some None \<and>
     map_option node_os (getNode exampleZod ''edge-1'' (nodesFile st')) = Some None \<and>
     map_option node_arch (getNode exampleZod ''edge-1'' (nodesFile st')) = Some None"
proof -
  let ?st = "exampleSys\<lparr> nodesFile := exampleFile \<rparr>"
  let ?now = "''2026-01-01T00:00:00.000Z''"
  let ?n = "exampleNode\<lparr> node_installed := Some \<lparr> inst_version = ''2.0.0'', installedAt = ?now \<rparr>,
                          node_lastSeen := Some ?now \<rparr>"
  define dry where "dry = (case dryRun runOptions of None \<Rightarrow> False | Some d \<Rightarrow> d)"
  define tmo where "tmo = (case commandTimeoutMs runOptions of None \<Rightarrow> (120000::int) | Some t \<Rightarrow> t)"
  have nodry: "\<not> dry" by (simp add: dry_def runOptions_def)
  obtain failed results st1 where
    loop: "executePlanLoop exampleEnv examplePlan dry tmo (resolveKnownHostsPath exampleEnv)
             (steps examplePlan) [] ?st = ((failed, results), st1)"
    by (cases "executePlanLoop exampleEnv examplePlan dry tmo (resolveKnownHostsPath exampleEnv)
             (steps examplePlan) [] ?st") auto
  have host: "\<not> startsWith (node_host (plan_node examplePlan)) ''-''"
    by (simp add: examplePlan_def exampleNode_def startsWith_def)
  from executePlanLoop_ok[OF exampleEnv_allSucceed host, of dry tmo "resolveKnownHostsPath exampleEnv"
      "steps examplePlan" "[]" ?st] loop
  have none: "failed = None" by simp
  from executePlanLoop_props[OF loop] have
    fr: "nodesFile st1 = exampleFile" "updateCalls st1 = []" by (simp_all add: exampleSys_def)
  have now: "toISOStringNow exampleEnv (world st1) = ?now" by (simp add: exampleEnv_def)
  have nm: "node_name (plan_node examplePlan) = ''edge-1''"
    by (simp add: examplePlan_def exampleNode_def)
  from executeBootstrapPlan_cases[OF dry_def tmo_def loop, of exampleZod] none nodry
  have ex: "executeBootstrapPlan exampleEnv exampleZod examplePlan runOptions ?st =
      (Inr \<lparr> res_node = plan_node examplePlan, success = True, stepResults = results,
             installedVersion = Some (targetVersion examplePlan),
             totalDurationMs = dateNow exampleEnv (world st1) - dateNow exampleEnv (world ?st),
             res_error = None \<rparr>,
       st1\<lparr> nodesFile := writeJsonFile (encodeStore \<lparr> schemaVersion = 1, nodes = [?n] \<rparr>),
            updateCalls := [(''edge-1'', successUpdate examplePlan ?now)] \<rparr>)"
    by (simp add: now nm fr example_success_update)
  have valid: "FleetNode_valid exampleZod ?n"
    using exampleNode_valid by (simp add: FleetNode_valid_def exampleZod_def)
  have rd: "readStoreLocked exampleZod (writeJsonFile (encodeStore \<lparr> schemaVersion = 1, nodes = [?n] \<rparr>))
      = \<lparr> schemaVersion = 1, nodes = [?n] \<rparr>"
    by (rule readStoreLocked_written) (simp add: store_valid_def valid)
  have get: "getNode exampleZod ''edge-1'' (writeJsonFile (encodeStore \<lparr> schemaVersion = 1, nodes = [?n] \<rparr>))
      = Some ?n"
    by (simp add: getNode_def loadFleetStore_eq rd) (simp add: exampleNode_def)
  show ?thesis
    apply (rule exI, rule exI, rule conjI, rule ex)
    apply (simp add: get)
    apply (simp add: examplePlan_def successUpdate_def freshInfo_def exampleNode_def)
    done
qed

section \<open>Diagnostics prober: what is extracted from the output\<close>

lemma diag_version_line:
  "matchLabel ''VERSION:'' ''DIAG_START\<newline>VERSION:NOT_FOUND\<newline>SERVICE:stopped\<newline>STATUS_JSON:{}\<newline>DIAG_END'' = Some ''NOT_FOUND''"
  by code_simp

lemma diag_service_line:
  "matchService ''DIAG_START\<newline>VERSION:NOT_FOUND\<newline>SERVICE:stopped\<newline>STATUS_JSON:{}\<newline>DIAG_END'' = Some ServiceStopped"
  by code_simp

lemma diag_status_line:
  "matchLabel ''STATUS_JSON:'' ''DIAG_START\<newline>VERSION:NOT_FOUND\<newline>SERVICE:stopped\<newline>STATUS_JSON:{}\<newline>DIAG_END'' = Some ''{}''"
  by code_simp

lemma list_all_upt: "list_all Q [0..<n] \<longleftrightarrow> (\<forall>i<n. Q i)"
  unfolding list_all_iff by auto

lemma labelledLine_iff:
  "labelledLine label out pre v rest \<longleftrightarrow>
     out = pre @ label @ v @ rest \<and> (\<forall>i<length pre. \<not> startsWith (drop i out) label) \<and>
     v \<noteq> [] \<and> list_all (\<lambda>c. \<not> isLineTerminator c) v \<and>
     (rest = [] \<or> isLineTerminator (hd rest))"
  by (simp only: labelledLine_def list_all_upt)

lemma serviceLine_iff:
  "serviceLine out pre w rest \<longleftrightarrow>
     out = pre @ ''SERVICE:'' @ w @ rest \<and> (w = ''running'' \<or> w = ''stopped'') \<and>
     (\<forall>i<length pre. \<not> startsWith (drop i out) ''SERVICE:running'' \<and>
                   \<not> startsWith (drop i out) ''SERVICE:stopped'')"
  by (simp only: serviceLine_def list_all_upt)

lemma matchLabel_here:
  assumes "v \<noteq> []" and "list_all (\<lambda>c. \<not> isLineTerminator c) v"
    and "rest = [] \<or> isLineTerminator (hd rest)"
  shows "matchLabel label (label @ v @ rest) = Some v"
proof -
  obtain c cs where s: "label @ v @ rest = c # cs" using assms(1) by (cases "label @ v @ rest") auto
  have tr: "takeWhile (\<lambda>x. \<not> isLineTerminator x) rest = []" using assms(3) by (cases rest) auto
  have g: "takeWhile (\<lambda>x. \<not> isLineTerminator x) (drop (length label) (label @ v @ rest)) = v"
    using assms(2) tr by (simp add: list_all_iff)
  have sw: "startsWith (label @ v @ rest) label" by (simp add: startsWith_def)
  have "matchLabel label (c # cs) = Some v"
    using g sw assms(1) unfolding s by (simp add: Let_def)
  then show ?thesis by (simp only: s)
qed

lemma matchLabel_first:
  "labelledLine label out pre v rest \<Longrightarrow> matchLabel label out = Some v"
proof (induction pre arbitrary: out)
  case Nil
  then show ?case by (simp add: labelledLine_iff matchLabel_here del: matchLabel.simps)
next
  case (Cons p ps)
  define t where "t = ps @ label @ v @ rest"
  from Cons.prems have o: "out = p # t" and v: "v \<noteq> []" "list_all (\<lambda>c. \<not> isLineTerminator c) v"
    "rest = [] \<or> isLineTerminator (hd rest)"
    and f: "\<forall>i<Suc (length ps). \<not> startsWith (drop i (p # t)) label"
    by (auto simp add: labelledLine_iff t_def)
  from f have f0: "\<not> startsWith (p # t) label" by force
  have f1: "\<forall>i<length ps. \<not> startsWith (drop i t) label"
  proof (intro allI impI)
    fix i assume "i < length ps"
    then have "Suc i < Suc (length ps)" by simp
    with f have "\<not> startsWith (drop (Suc i) (p # t)) label" by blast
    then show "\<not> startsWith (drop i t) label" by simp
  qed
  have "labelledLine label t ps v rest" using v f1 by (simp add: labelledLine_iff t_def)
  from Cons.IH[OF this] f0 show ?case by (simp add: o)
qed

lemma matchLabel_absent: "\<not> includesStr out label \<Longrightarrow> matchLabel label out = None"
  by (induction out) simp_all

lemma matchService_first:
  "serviceLine out pre w rest \<Longrightarrow>
   matchService out = Some (if w = ''running'' then ServiceRunning else ServiceStopped)"
proof (induction pre arbitrary: out)
  case Nil
  then show ?case by (auto simp add: serviceLine_iff startsWith_def)
next
  case (Cons p ps)
  define t where "t = ps @ ''SERVICE:'' @ w @ rest"
  let ?P = "\<lambda>s. \<not> startsWith s ''SERVICE:running'' \<and> \<not> startsWith s ''SERVICE:stopped''"
  from Cons.prems have o: "out = p # t" and w: "w = ''running'' \<or> w = ''stopped''"
    and f: "\<forall>i<Suc (length ps). ?P (drop i (p # t))"
    by (auto simp add: serviceLine_iff t_def)
  from f have f0: "?P (p # t)" by force
  have f1: "\<forall>i<length ps. ?P (drop i t)"
  proof (intro allI impI)
    fix i assume "i < length ps"
    then have "Suc i < Suc (length ps)" by simp
    with f have "?P (drop (Suc i) (p # t))" by blast
    then show "?P (drop i t)" by simp
  qed
  have "serviceLine t ps w rest" using w f1 by (simp add: serviceLine_iff t_def)
  from Cons.IH[OF this] f0 show ?case by (simp add: o)
qed

lemma matchService_absent:
  "\<not> includesStr out ''SERVICE:running'' \<Longrightarrow> \<not> includesStr out ''SERVICE:stopped'' \<Longrightarrow>
   matchService out = None"
  by (induction out) simp_all

lemma runNodeDiagnostics_online:
  assumes run: "sshExec E (nodeSshOptions node diagCommand tmo (resolveKnownHostsPath E)) st = (result, st1)"
    and code: "exitCode result = Some 0"
    and nt: "\<not> timedOut result"
  shows "runNodeDiagnostics E node tmo st =
     (\<lparr> diag_name = node_name node, diag_host = node_host node, online = True,
        diag_serviceRunning = ((case matchService (stdout result) of None \<Rightarrow> ServiceUnknown | Some s \<Rightarrow> s) = ServiceRunning),
        diag_serviceStatus = (case matchService (stdout result) of None \<Rightarrow> ServiceUnknown | Some s \<Rightarrow> s),
        diag_version = (case matchLabel ''VERSION:'' (stdout result) of
                            None \<Rightarrow> None
                          | Some g \<Rightarrow>
                              if g \<noteq> ''NOT_FOUND'' then
                                (case parseVersion g of Some v \<Rightarrow> Some v | None \<Rightarrow> Some (trim g))
                              else None),
        uptime = (case matchLabel ''STATUS_JSON:'' (stdout result) of
                       None \<Rightarrow> None
                     | Some g \<Rightarrow> parseUptime E g),
        diag_lastSeen = Some (toISOStringNow E (world st1)), diag_error = None,
        latencyMs = Some (dateNow E (world st1) - dateNow E (world st)) \<rparr>, st1)"
  by (simp add: runNodeDiagnostics_def Let_def run code nt
      del: matchLabel.simps matchService.simps includesStr.simps)

lemma parseUptime_empty: "jsonParse E ''{}'' = Some (JObj []) \<Longrightarrow> parseUptime E ''{}'' = None"
  by (simp add: parseUptime_def)

text \<open>
  Claim C8.  When the transport call of the probe returns exit code 0 without a timeout, the
  probe returns the state that the transport returned and a health record that is online,
  carries the node's name and host, no error, the current time and the latency, and whose
  service is running exactly when its status is \<open>running\<close>.  The other fields are
  extracted from the standard output, whatever it is.  If the leftmost \<^verbatim>\<open>VERSION:\<close>
  is followed by the non-empty rest of line \<open>v\<close>, the version is absent when \<open>v\<close> is
  \<^verbatim>\<open>NOT_FOUND\<close>, and otherwise what \<open>parseVersion\<close> finds in \<open>v\<close> or else \<open>v\<close> trimmed;
  without the label it is absent.  The status is that of the leftmost
  \<^verbatim>\<open>SERVICE:running\<close> or \<^verbatim>\<open>SERVICE:stopped\<close>, and \<open>unknown\<close> without one.  If the
  leftmost \<^verbatim>\<open>STATUS_JSON:\<close> is followed by the non-empty rest of line \<open>j\<close>, the uptime is
  \<open>parseUptime\<close> of \<open>j\<close>, which is absent for \<^verbatim>\<open>{}\<close> when \<^verbatim>\<open>JSON.parse\<close> reads it as
  the empty object; without the label it is absent.  In particular, on the output
  \<^verbatim>\<open>DIAG_START / VERSION:NOT_FOUND / SERVICE:stopped / STATUS_JSON:{} / DIAG_END\<close> (one per
  line) the record is online, has no version, has the service not running with status
  \<open>stopped\<close>, and has no uptime.
\<close>

theorem diagnostics_agent_not_found:
  assumes run: "sshExec E (nodeSshOptions node diagCommand tmo (resolveKnownHostsPath E)) st = (result, st1)"
    and code: "exitCode result = Some 0"
    and nt: "\<not> timedOut result"
    and d: "runNodeDiagnostics E node tmo st = (diag, st')"
  shows "st' = st1 \<and> online diag \<and> diag_name diag = node_name node \<and>
     diag_host diag = node_host node \<and> diag_error diag = None \<and>
     diag_lastSeen diag = Some (toISOStringNow E (world st1)) \<and>
     latencyMs diag = Some (dateNow E (world st1) - dateNow E (world st)) \<and>
     diag_serviceRunning diag = (diag_serviceStatus diag = ServiceRunning) \<and>
     (labelledLine ''VERSION:'' (stdout result) pv v rv \<longrightarrow>
        diag_version diag =
          (if v = ''NOT_FOUND'' then None
           else case parseVersion v of Some x \<Rightarrow> Some x | None \<Rightarrow> Some (trim v))) \<and>
     (\<not> includesStr (stdout result) ''VERSION:'' \<longrightarrow> diag_version diag = None) \<and>
     (serviceLine (stdout result) ps w rs \<longrightarrow>
        diag_serviceStatus diag = (if w = ''running'' then ServiceRunning else ServiceStopped)) \<and>
     (\<not> includesStr (stdout result) ''SERVICE:running'' \<and>
      \<not> includesStr (stdout result) ''SERVICE:stopped'' \<longrightarrow>
        diag_serviceStatus diag = ServiceUnknown) \<and>
     (labelledLine ''STATUS_JSON:'' (stdout result) pj j rj \<longrightarrow>
        uptime diag = parseUptime E j \<and>
        (j = ''{}'' \<and> jsonParse E ''{}'' = Some (JObj []) \<longrightarrow> uptime diag = None)) \<and>
     (\<not> includesStr (stdout result) ''STATUS_JSON:'' \<longrightarrow> uptime diag = None) \<and>
     (stdout result = ''DIAG_START\<newline>VERSION:NOT_FOUND\<newline>SERVICE:stopped\<newline>STATUS_JSON:{}\<newline>DIAG_END'' \<and>
      jsonParse E ''{}'' = Some (JObj []) \<longrightarrow>
        online diag \<and> diag_version diag = None \<and> \<not> diag_serviceRunning diag \<and>
        diag_serviceStatus diag = ServiceStopped \<and> uptime diag = None)"
proof -
  note r = runNodeDiagnostics_online[OF run code nt]
  from r d have st: "st' = st1" by simp
  from r d have dg: "diag = fst (runNodeDiagnostics E node tmo st)" by simp
  have base: "online diag" "diag_name diag = node_name node" "diag_host diag = node_host node"
    "diag_error diag = None" "diag_lastSeen diag = Some (toISOStringNow E (world st1))"
    "latencyMs diag = Some (dateNow E (world st1) - dateNow E (world st))"
    "diag_serviceRunning diag = (diag_serviceStatus diag = ServiceRunning)"
    and ver: "diag_version diag = (case matchLabel ''VERSION:'' (stdout result) of
                            None \<Rightarrow> None
                          | Some g \<Rightarrow>
                              if g \<noteq> ''NOT_FOUND'' then
                                (case parseVersion g of Some v \<Rightarrow> Some v | None \<Rightarrow> Some (trim g))
                              else None)"
    and svc: "diag_serviceStatus diag =
        (case matchService (stdout result) of None \<Rightarrow> ServiceUnknown | Some s \<Rightarrow> s)"
    and up: "uptime diag = (case matchLabel ''STATUS_JSON:'' (stdout result) of
                       None \<Rightarrow> None
                     | Some g \<Rightarrow> parseUptime E g)"
    unfolding dg r by simp_all
  have v1: "diag_version diag =
          (if v = ''NOT_FOUND'' then None
           else case parseVersion v of Some x \<Rightarrow> Some x | None \<Rightarrow> Some (trim v))"
    if "labelledLine ''VERSION:'' (stdout result) pv v rv"
    unfolding ver matchLabel_first[OF that] by simp
  have v2: "diag_version diag = None" if "\<not> includesStr (stdout result) ''VERSION:''"
    unfolding ver matchLabel_absent[OF that] by simp
  have s1: "diag_serviceStatus diag = (if w = ''running'' then ServiceRunning else ServiceStopped)"
    if "serviceLine (stdout result) ps w rs"
    unfolding svc matchService_first[OF that] by simp
  have s2: "diag_serviceStatus diag = ServiceUnknown"
    if "\<not> includesStr (stdout result) ''SERVICE:running'' \<and>
        \<not> includesStr (stdout result) ''SERVICE:stopped''"
    unfolding svc using matchService_absent that by simp
  have u1: "uptime diag = parseUptime E j" if "labelledLine ''STATUS_JSON:'' (stdout result) pj j rj"
    unfolding up matchLabel_first[OF that] by simp
  have u2: "uptime diag = None" if "\<not> includesStr (stdout result) ''STATUS_JSON:''"
    unfolding up matchLabel_absent[OF that] by simp
  have u3: "uptime diag = None"
    if "labelledLine ''STATUS_JSON:'' (stdout result) pj j rj"
      and "j = ''{}'' \<and> jsonParse E ''{}'' = Some (JObj [])"
    using u1[OF that(1)] that(2) parseUptime_empty[of E] by simp
  have sample: "online diag \<and> diag_version diag = None \<and> \<not> diag_serviceRunning diag \<and>
        diag_serviceStatus diag = ServiceStopped \<and> uptime diag = None"
    if h: "stdout result = ''DIAG_START\<newline>VERSION:NOT_FOUND\<newline>SERVICE:stopped\<newline>STATUS_JSON:{}\<newline>DIAG_END'' \<and>
      jsonParse E ''{}'' = Some (JObj [])"
  proof -
    from h have so: "stdout result = ''DIAG_START\<newline>VERSION:NOT_FOUND\<newline>SERVICE:stopped\<newline>STATUS_JSON:{}\<newline>DIAG_END''"
      and js: "jsonParse E ''{}'' = Some (JObj [])" by blast+
    have a: "diag_version diag = None"
      using ver by (simp only: so diag_version_line option.case simp_thms if_False)
    have b: "diag_serviceStatus diag = ServiceStopped"
      using svc by (simp only: so diag_service_line option.case)
    have c: "uptime diag = None"
      using up by (simp only: so diag_status_line option.case parseUptime_empty[OF js])
    have d: "\<not> diag_serviceRunning diag" using base(7) b by simp
    show ?thesis using base(1) a b c d by blast
  qed
  show ?thesis
  proof (intro conjI impI)
    show "st' = st1" by (rule st)
    show "online diag" by (rule base)
    show "diag_name diag = node_name node" by (rule base)
    show "diag_host diag = node_host node" by (rule base)
    show "diag_error diag = None" by (rule base)
    show "diag_lastSeen diag = Some (toISOStringNow E (world st1))" by (rule base)
    show "latencyMs diag = Some (dateNow E (world st1) - dateNow E (world st))" by (rule base)
    show "diag_serviceRunning diag = (diag_serviceStatus diag = ServiceRunning)" by (rule base)
    show "diag_version diag =
          (if v = ''NOT_FOUND'' then None
           else case parseVersion v of Some x \<Rightarrow> Some x | None \<Rightarrow> Some (trim v))"
      if "labelledLine ''VERSION:'' (stdout result) pv v rv" using that by (rule v1)
    show "diag_version diag = None" if "\<not> includesStr (stdout result) ''VERSION:''"
      using that by (rule v2)
    show "diag_serviceStatus diag = (if w = ''running'' then ServiceRunning else ServiceStopped)"
      if "serviceLine (stdout result) ps w rs" using that by (rule s1)
    show "diag_serviceStatus diag = ServiceUnknown"
      if "\<not> includesStr (stdout result) ''SERVICE:running'' \<and>
          \<not> includesStr (stdout result) ''SERVICE:stopped''" using that by (rule s2)
    show "uptime diag = parseUptime E j" if "labelledLine ''STATUS_JSON:'' (stdout result) pj j rj"
      using that by (rule u1)
    show "uptime diag = None"
      if "labelledLine ''STATUS_JSON:'' (stdout result) pj j rj"
        and "j = ''{}'' \<and> jsonParse E ''{}'' = Some (JObj [])" using that by (rule u3)
    show "uptime diag = None" if "\<not> includesStr (stdout result) ''STATUS_JSON:''"
      using that by (rule u2)
    show "online diag"
      if "stdout result = ''DIAG_START\<newline>VERSION:NOT_FOUND\<newline>SERVICE:stopped\<newline>STATUS_JSON:{}\<newline>DIAG_END'' \<and>
      jsonParse E ''{}'' = Some (JObj [])" by (rule base)
    show "diag_version diag = None"
      if "stdout result = ''DIAG_START\<newline>VERSION:NOT_FOUND\<newline>SERVICE:stopped\<newline>STATUS_JSON:{}\<newline>DIAG_END'' \<and>
      jsonParse E ''{}'' = Some (JObj [])" using sample[OF that] by blast
    show "\<not> diag_serviceRunning diag"
      if "stdout result = ''DIAG_START\<newline>VERSION:NOT_FOUND\<newline>SERVICE:stopped\<newline>STATUS_JSON:{}\<newline>DIAG_END'' \<and>
      jsonParse E ''{}'' = Some (JObj [])" using sample[OF that] by blast
    show "diag_serviceStatus diag = ServiceStopped"
      if "stdout result = ''DIAG_START\<newline>VERSION:NOT_FOUND\<newline>SERVICE:stopped\<newline>STATUS_JSON:{}\<newline>DIAG_END'' \<and>
      jsonParse E ''{}'' = Some (JObj [])" using sample[OF that] by blast
    show "uptime diag = None"
      if "stdout result = ''DIAG_START\<newline>VERSION:NOT_FOUND\<newline>SERVICE:stopped\<newline>STATUS_JSON:{}\<newline>DIAG_END'' \<and>
      jsonParse E ''{}'' = Some (JObj [])" using sample[OF that] by blast
  qed
qed

lemma exampleDiag_run:
  "sshExec exampleDiagEnv
      (nodeSshOptions exampleNode diagCommand 15000 (resolveKnownHostsPath exampleDiagEnv)) exampleSys =
   (\<lparr> stdout = ''DIAG_START\<newline>VERSION:NOT_FOUND\<newline>SERVICE:stopped\<newline>STATUS_JSON:{}\<newline>DIAG_END'',
      stderr = '''', exitCode = Some 0, signal = None, timedOut = False \<rparr>,
    exampleSys\<lparr> world := 1,
      spawned := [(''/usr/bin/ssh'',
         sshArgs (nodeSshOptions exampleNode diagCommand 15000 (resolveKnownHostsPath exampleDiagEnv)))] \<rparr>)"
  by (simp add: sshExec_def nodeSshOptions_def exampleNode_def startsWith_def exampleDiagEnv_def
      exampleEnv_def exampleSys_def Let_def)

lemma exampleRunning_run:
  "sshExec exampleRunningEnv
      (nodeSshOptions exampleNode diagCommand 15000 (resolveKnownHostsPath exampleRunningEnv)) exampleSys =
   (\<lparr> stdout = exampleRunningOutput,
      stderr = '''', exitCode = Some 0, signal = None, timedOut = False \<rparr>,
    exampleSys\<lparr> world := 1,
      spawned := [(''/usr/bin/ssh'',
         sshArgs (nodeSshOptions exampleNode diagCommand 15000 (resolveKnownHostsPath exampleRunningEnv)))] \<rparr>)"
  by (simp add: sshExec_def nodeSshOptions_def exampleNode_def startsWith_def exampleRunningEnv_def
      exampleEnv_def exampleSys_def Let_def)

lemma example_lines:
  "labelledLine ''VERSION:''
     ''DIAG_START\<newline>VERSION:NOT_FOUND\<newline>SERVICE:stopped\<newline>STATUS_JSON:{}\<newline>DIAG_END''
     ''DIAG_START\<newline>'' ''NOT_FOUND'' ''\<newline>SERVICE:stopped\<newline>STATUS_JSON:{}\<newline>DIAG_END''"
  "serviceLine
     ''DIAG_START\<newline>VERSION:NOT_FOUND\<newline>SERVICE:stopped\<newline>STATUS_JSON:{}\<newline>DIAG_END''
     ''DIAG_START\<newline>VERSION:NOT_FOUND\<newline>'' ''stopped'' ''\<newline>STATUS_JSON:{}\<newline>DIAG_END''"
  "labelledLine ''STATUS_JSON:''
     ''DIAG_START\<newline>VERSION:NOT_FOUND\<newline>SERVICE:stopped\<newline>STATUS_JSON:{}\<newline>DIAG_END''
     ''DIAG_START\<newline>VERSION:NOT_FOUND\<newline>SERVICE:stopped\<newline>'' ''{}'' ''\<newline>DIAG_END''"
  by code_simp+

lemma exampleRunning_lines:
  "labelledLine ''VERSION:'' exampleRunningOutput
     ''DIAG_START\<newline>'' ''raven 2.1.0''
     ''\<newline>SERVICE:running\<newline>STATUS_JSON:{\"uptime\":\"3h\"}\<newline>DIAG_END''"
  "serviceLine exampleRunningOutput
     ''DIAG_START\<newline>VERSION:raven 2.1.0\<newline>'' ''running''
     ''\<newline>STATUS_JSON:{\"uptime\":\"3h\"}\<newline>DIAG_END''"
  "labelledLine ''STATUS_JSON:'' exampleRunningOutput
     ''DIAG_START\<newline>VERSION:raven 2.1.0\<newline>SERVICE:running\<newline>''
     ''{\"uptime\":\"3h\"}'' ''\<newline>DIAG_END''"
  "parseVersion ''raven 2.1.0'' = Some ''2.1.0''"
  "parseUptime exampleRunningEnv ''{\"uptime\":\"3h\"}'' = Some ''3h''"
  by code_simp+

theorem diagnostics_agent_not_found_witness:
  "exitCode (fst (sshExec exampleDiagEnv
      (nodeSshOptions exampleNode diagCommand 15000 (resolveKnownHostsPath exampleDiagEnv)) exampleSys)) = Some 0 \<and>
   \<not> timedOut (fst (sshExec exampleDiagEnv
      (nodeSshOptions exampleNode diagCommand 15000 (resolveKnownHostsPath exampleDiagEnv)) exampleSys)) \<and>
   jsonParse exampleDiagEnv ''{}'' = Some (JObj []) \<and>
   online (fst (runNodeDiagnostics exampleDiagEnv exampleNode 15000 exampleSys)) \<and>
   diag_version (fst (runNodeDiagnostics exampleDiagEnv exampleNode 15000 exampleSys)) = None \<and>
   \<not> diag_serviceRunning (fst (runNodeDiagnostics exampleDiagEnv exampleNode 15000 exampleSys)) \<and>
   diag_serviceStatus (fst (runNodeDiagnostics exampleDiagEnv exampleNode 15000 exampleSys)) = ServiceStopped \<and>
   uptime (fst (runNodeDiagnostics exampleDiagEnv exampleNode 15000 exampleSys)) = None \<and>
   spawned (snd (runNodeDiagnostics exampleDiagEnv exampleNode 15000 exampleSys)) =
     [(''/usr/bin/ssh'',
       sshArgs (nodeSshOptions exampleNode diagCommand 15000 (resolveKnownHostsPath exampleDiagEnv)))] \<and>
   exitCode (fst (sshExec exampleRunningEnv
      (nodeSshOptions exampleNode diagCommand 15000 (resolveKnownHostsPath exampleRunningEnv)) exampleSys)) = Some 0 \<and>
   online (fst (runNodeDiagnostics exampleRunningEnv exampleNode 15000 exampleSys)) \<and>
   diag_version (fst (runNodeDiagnostics exampleRunningEnv exampleNode 15000 exampleSys)) = Some ''2.1.0'' \<and>
   diag_serviceRunning (fst (runNodeDiagnostics exampleRunningEnv exampleNode 15000 exampleSys)) \<and>
   diag_serviceStatus (fst (runNodeDiagnostics exampleRunningEnv exampleNode 15000 exampleSys)) = ServiceRunning \<and>
   uptime (fst (runNodeDiagnostics exampleRunningEnv exampleNode 15000 exampleSys)) = Some ''3h''"
proof -
  let ?o1 = "nodeSshOptions exampleNode diagCommand 15000 (resolveKnownHostsPath exampleDiagEnv)"
  let ?o2 = "nodeSshOptions exampleNode diagCommand 15000 (resolveKnownHostsPath exampleRunningEnv)"
  have js: "jsonParse exampleDiagEnv ''{}'' = Some (JObj [])"
    by (simp add: exampleDiagEnv_def exampleEnv_def)
  obtain r1 s1 where run1: "sshExec exampleDiagEnv ?o1 exampleSys = (r1, s1)"
    by (cases "sshExec exampleDiagEnv ?o1 exampleSys")
  from run1 have f1: "exitCode r1 = Some 0" "\<not> timedOut r1"
    "stdout r1 = ''DIAG_START\<newline>VERSION:NOT_FOUND\<newline>SERVICE:stopped\<newline>STATUS_JSON:{}\<newline>DIAG_END''"
    "spawned s1 = [(''/usr/bin/ssh'', sshArgs ?o1)]"
    unfolding exampleDiag_run by (auto simp add: exampleSys_def)
  obtain dg sd where d: "runNodeDiagnostics exampleDiagEnv exampleNode 15000 exampleSys = (dg, sd)"
    by (cases "runNodeDiagnostics exampleDiagEnv exampleNode 15000 exampleSys")
  note t = diagnostics_agent_not_found[OF run1 f1(1,2) d]
  have a0: "sd = s1" by (rule t[THEN conjunct1])
  have a: "online dg \<and> diag_version dg = None \<and> \<not> diag_serviceRunning dg \<and>
     diag_serviceStatus dg = ServiceStopped \<and> uptime dg = None"
    using t[THEN conjunct2, THEN conjunct2, THEN conjunct2, THEN conjunct2, THEN conjunct2, THEN conjunct2, THEN conjunct2, THEN conjunct2, THEN conjunct2, THEN conjunct2, THEN conjunct2, THEN conjunct2, THEN conjunct2, THEN conjunct2] f1(3) js by blast
  obtain r2 s2 where run2: "sshExec exampleRunningEnv ?o2 exampleSys = (r2, s2)"
    by (cases "sshExec exampleRunningEnv ?o2 exampleSys")
  from run2 have f2: "exitCode r2 = Some 0" "\<not> timedOut r2" "stdout r2 = exampleRunningOutput"
    unfolding exampleRunning_run by auto
  obtain dg2 sd2 where d2: "runNodeDiagnostics exampleRunningEnv exampleNode 15000 exampleSys = (dg2, sd2)"
    by (cases "runNodeDiagnostics exampleRunningEnv exampleNode 15000 exampleSys")
  note t2 = diagnostics_agent_not_found[OF run2 f2(1,2) d2]
  have ne: "''raven 2.1.0'' \<noteq> ''NOT_FOUND''" by simp
  have b1: "online dg2" by (rule t2[THEN conjunct2, THEN conjunct1])
  have b2: "diag_version dg2 = Some ''2.1.0''"
    using t2[THEN conjunct2, THEN conjunct2, THEN conjunct2, THEN conjunct2, THEN conjunct2, THEN conjunct2, THEN conjunct2, THEN conjunct2, THEN conjunct1, of "''DIAG_START\<newline>''" "''raven 2.1.0''"
         "''\<newline>SERVICE:running\<newline>STATUS_JSON:{\"uptime\":\"3h\"}\<newline>DIAG_END''"]
      exampleRunning_lines(1,4) ne
    by (simp only: f2(3) simp_thms if_False option.case)
  have b3: "diag_serviceStatus dg2 = ServiceRunning"
    using t2[THEN conjunct2, THEN conjunct2, THEN conjunct2, THEN conjunct2, THEN conjunct2, THEN conjunct2, THEN conjunct2, THEN conjunct2, THEN conjunct2, THEN conjunct2, THEN conjunct1, of "''DIAG_START\<newline>VERSION:raven 2.1.0\<newline>''" "''running''"
         "''\<newline>STATUS_JSON:{\"uptime\":\"3h\"}\<newline>DIAG_END''"]
      exampleRunning_lines(2)
    by (simp only: f2(3) simp_thms if_True)
  have b4: "diag_serviceRunning dg2" using t2[THEN conjunct2, THEN conjunct2, THEN conjunct2, THEN conjunct2, THEN conjunct2, THEN conjunct2, THEN conjunct2, THEN conjunct1] b3 by simp
  have b5: "uptime dg2 = Some ''3h''"
    using t2[THEN conjunct2, THEN conjunct2, THEN conjunct2, THEN conjunct2, THEN conjunct2, THEN conjunct2, THEN conjunct2, THEN conjunct2, THEN conjunct2, THEN conjunct2, THEN conjunct2, THEN conjunct2, THEN conjunct1, THEN mp, THEN conjunct1,
         of "''DIAG_START\<newline>VERSION:raven 2.1.0\<newline>SERVICE:running\<newline>''"
         "''{\"uptime\":\"3h\"}''" "''\<newline>DIAG_END''"]
      exampleRunning_lines(3,5)
    by (simp only: f2(3) simp_thms)
  show ?thesis
    unfolding run1 run2 d d2 fst_conv snd_conv
    using f1 f2(1) js a0 a b1 b2 b3 b4 b5 by (intro conjI) simp_all
qed

section \<open>Trust store: reading back what was written\<close>

declare showNat.simps [simp del]

declare splitWs.simps [simp del]

lemma of_char_digitChar: "d < 10 \<Longrightarrow> (of_char (digitChar d) :: nat) = 48 + d"
  by (simp add: digitChar_def)

lemma isDigit_digitChar: "d < 10 \<Longrightarrow> isDigit (digitChar d)"
  by (simp add: isDigit_def of_char_digitChar)

lemma showNat_digits: "list_all isDigit (showNat n) \<and> showNat n \<noteq> []"
proof (induction n rule: showNat.induct)
  case (1 n)
  show ?case
  proof (cases "n < 10")
    case True
    then show ?thesis by (simp add: showNat.simps[of n] isDigit_digitChar)
  next
    case False
    with 1 show ?thesis by (simp add: showNat.simps[of n] isDigit_digitChar)
  qed
qed

lemma parseIntDigits_snoc:
  "parseIntDigits (s @ [c]) = 10 * parseIntDigits s + (int (of_char c) - 48)"
  by (simp add: parseIntDigits_def)

lemma parseIntDigits_showNat: "parseIntDigits (showNat n) = int n"
proof (induction n rule: showNat.induct)
  case (1 n)
  show ?case
  proof (cases "n < 10")
    case True
    then show ?thesis
      by (simp add: showNat.simps[of n] parseIntDigits_def of_char_digitChar)
  next
    case False
    with 1 have "parseIntDigits (showNat (n div 10)) = int (n div 10)" by simp
    moreover have "int n = 10 * int (n div 10) + int (n mod 10)"
      by (metis mult_div_mod_eq of_nat_add of_nat_mult of_nat_numeral)
    ultimately show ?thesis using False
      by (simp add: showNat.simps[of n] parseIntDigits_snoc of_char_digitChar)
  qed
qed

lemma parseIntDigits_nonneg: "list_all isDigit s \<Longrightarrow> 0 \<le> parseIntDigits s"
proof (induction s rule: rev_induct)
  case Nil
  then show ?case by (simp add: parseIntDigits_def)
next
  case (snoc c s)
  then have "0 \<le> parseIntDigits s" "48 \<le> (of_char c :: nat)" by (simp_all add: isDigit_def)
  then show ?case by (simp add: parseIntDigits_snoc)
qed

lemma isDigit_plain: "isDigit c \<Longrightarrow> \<not> isWhiteSpace c \<and> c \<noteq> CHR '']'' \<and> c \<noteq> CHR 0x0A"
  by (auto simp add: isDigit_def isWhiteSpace_def)

lemma space_isWhiteSpace: "isWhiteSpace CHR '' ''" "isWhiteSpace CHR 0x0A"
  by (simp_all add: isWhiteSpace_def)

lemma bracket_chars: "\<not> isWhiteSpace CHR ''[''" "\<not> isWhiteSpace CHR '']''" "\<not> isWhiteSpace CHR '':''"
  by (simp_all add: isWhiteSpace_def)

subsection \<open>Trimming and splitting\<close>

lemma trim_ends: "s \<noteq> [] \<Longrightarrow> \<not> isWhiteSpace (hd s) \<Longrightarrow> \<not> isWhiteSpace (last s) \<Longrightarrow> trim s = s"
proof -
  assume a: "s \<noteq> []" "\<not> isWhiteSpace (hd s)" "\<not> isWhiteSpace (last s)"
  have 1: "dropWhile isWhiteSpace s = s" using a(1,2) by (cases s) auto
  from a(1) obtain ys x where s: "s = ys @ [x]" by (cases s rule: rev_cases) auto
  with a(3) have 2: "dropWhile isWhiteSpace (rev s) = rev s" by simp
  show ?thesis by (simp add: trim_def 1 2)
qed

lemma trim_Nil: "trim [] = []"
  by (simp add: trim_def)

lemma splitWs_token: "token t \<Longrightarrow> splitWs t = [t]"
  by (simp add: splitWs.simps[of t] token_def)

lemma splitWs_token_space:
  assumes "token t" and "r \<noteq> []" and "\<not> isWhiteSpace (hd r)"
  shows "splitWs (t @ CHR '' '' # r) = t # splitWs r"
proof -
  have t: "\<And>x. x \<in> set t \<Longrightarrow> \<not> isWhiteSpace x" using assms(1) by (simp add: token_def)
  have tw: "takeWhile (\<lambda>c. \<not> isWhiteSpace c) (t @ CHR '' '' # r) = t"
    using t by (simp add: space_isWhiteSpace)
  have dw: "dropWhile (\<lambda>c. \<not> isWhiteSpace c) (t @ CHR '' '' # r) = CHR '' '' # r"
    using t by (simp add: space_isWhiteSpace)
  have dr: "dropWhile isWhiteSpace r = r" using assms(2,3) by (cases r) auto
  show ?thesis
    by (simp add: splitWs.simps[of "t @ CHR '' '' # r"] tw dw space_isWhiteSpace dr)
qed

lemma splitWs_no_space: "t \<in> set (splitWs s) \<Longrightarrow> c \<in> set t \<Longrightarrow> \<not> isWhiteSpace c"
proof (induction s rule: splitWs.induct)
  case (1 s)
  let ?tok = "takeWhile (\<lambda>c. \<not> isWhiteSpace c) s"
  let ?rest = "dropWhile (\<lambda>c. \<not> isWhiteSpace c) s"
  have eq: "splitWs s = (if ?rest = [] then [?tok] else ?tok # splitWs (dropWhile isWhiteSpace ?rest))"
    by (subst splitWs.simps) (simp only: Let_def)
  have tok: "t = ?tok \<Longrightarrow> ?case" using 1(3) by (auto dest: set_takeWhileD)
  show ?case
  proof (cases "?rest = []")
    case True
    with 1(2) eq have "t = ?tok" by (simp only: if_True set_simps empty_iff insert_iff) simp
    then show ?thesis by (rule tok)
  next
    case False
    with 1(2) eq have "t = ?tok \<or> t \<in> set (splitWs (dropWhile isWhiteSpace ?rest))"
      by (simp only: if_False set_simps insert_iff)
    then show ?thesis
    proof
      assume "t = ?tok" then show ?thesis by (rule tok)
    next
      assume "t \<in> set (splitWs (dropWhile isWhiteSpace ?rest))"
      from 1(1)[OF refl refl False this 1(3)] show ?thesis .
    qed
  qed
qed

lemma splitWs_unfold:
  "splitWs s = (if dropWhile (\<lambda>c. \<not> isWhiteSpace c) s = [] then [takeWhile (\<lambda>c. \<not> isWhiteSpace c) s]
     else takeWhile (\<lambda>c. \<not> isWhiteSpace c) s #
          splitWs (dropWhile isWhiteSpace (dropWhile (\<lambda>c. \<not> isWhiteSpace c) s)))"
  by (subst splitWs.simps) (simp only: Let_def)

lemma hd_splitWs: "hd (splitWs s) = takeWhile (\<lambda>c. \<not> isWhiteSpace c) s"
  by (subst splitWs_unfold) (simp del: dropWhile_eq_Nil_conv)

subsection \<open>The bracket form\<close>

lemma bracketMatch_format:
  assumes "h \<noteq> []" and "CHR '']'' \<notin> set h" and "d \<noteq> []" and "list_all isDigit d"
  shows "bracketMatch (''['' @ h @ '']:'' @ d) = Some (h, d)"
proof -
  have x: "\<And>x. x \<in> set h \<Longrightarrow> x \<noteq> CHR '']''" using assms(2) by auto
  have tw: "takeWhile (\<lambda>x. x \<noteq> CHR '']'') (h @ CHR '']'' # CHR '':'' # d) = h"
    using x by simp
  have dw: "dropWhile (\<lambda>x. x \<noteq> CHR '']'') (h @ CHR '']'' # CHR '':'' # d) = CHR '']'' # CHR '':'' # d"
    using x by simp
  show ?thesis using assms(1,3,4) by (simp add: bracketMatch_def Let_def tw dw)
qed

lemma bracketMatch_format_cons:
  assumes "h \<noteq> []" and "CHR '']'' \<notin> set h" and "d \<noteq> []" and "list_all isDigit d"
  shows "bracketMatch (CHR ''['' # h @ CHR '']'' # CHR '':'' # d) = Some (h, d)"
  using bracketMatch_format[OF assms] by simp

lemma bracketMatch_Some:
  assumes "bracketMatch s = Some (h, d)"
  shows "s = ''['' @ h @ '']:'' @ d \<and> h \<noteq> [] \<and> CHR '']'' \<notin> set h \<and> d \<noteq> [] \<and> list_all isDigit d"
proof -
  from assms obtain rest where s: "s = CHR ''['' # rest"
    by (cases s) (auto simp add: bracketMatch_def split: if_splits)
  let ?h = "takeWhile (\<lambda>x. x \<noteq> CHR '']'') rest"
  let ?a = "dropWhile (\<lambda>x. x \<noteq> CHR '']'') rest"
  from assms s have f: "h = ?h" "d = drop 2 ?a" "?h \<noteq> []" "take 2 ?a = '']:''" "d \<noteq> []"
    "list_all isDigit d"
    by (auto simp add: bracketMatch_def Let_def split: if_splits)
  have "rest = ?h @ ?a" by simp
  also have "?a = take 2 ?a @ drop 2 ?a" by simp
  finally have "rest = h @ '']:'' @ d" using f(1,2,4) by simp
  moreover have "CHR '']'' \<notin> set h" unfolding f(1) by (auto dest: set_takeWhileD)
  ultimately show ?thesis using s f by simp
qed

lemma bracketMatch_no_bracket: "CHR '']'' \<notin> set s \<Longrightarrow> bracketMatch s = None"
proof (cases s)
  case Nil
  then show ?thesis by (simp add: bracketMatch_def)
next
  case (Cons c rest)
  assume "CHR '']'' \<notin> set s"
  with Cons have dw: "dropWhile (\<lambda>x. x \<noteq> CHR '']'') rest = []" by auto
  show ?thesis unfolding Cons by (simp add: bracketMatch_def Let_def dw)
qed

subsection \<open>One line\<close>

lemma showInt_nonneg: "0 \<le> p \<Longrightarrow> showInt p = showNat (nat p)"
  by (simp add: showInt_def)

lemma showNat_plain: "c \<in> set (showNat n) \<Longrightarrow> \<not> isWhiteSpace c \<and> c \<noteq> CHR '']'' \<and> c \<noteq> CHR 0x0A"
  using showNat_digits[of n] isDigit_plain[of c] by (simp add: list_all_iff)

lemma token_formatHostEntry:
  assumes "lineEntry e"
  shows "token (formatHostEntry (hk_host e) (hk_port e))"
proof (cases "hk_port e = 22")
  case True
  with assms show ?thesis by (simp add: lineEntry_def formatHostEntry_def)
next
  case False
  with assms have p: "0 \<le> hk_port e" and h: "\<forall>c \<in> set (hk_host e). \<not> isWhiteSpace c"
    by (simp_all add: lineEntry_def token_def)
  show ?thesis using False h showNat_plain
    by (auto simp add: formatHostEntry_def token_def showInt_nonneg[OF p] bracket_chars)
qed

lemma parseHostEntry_format:
  assumes "lineEntry e"
  shows "parseHostEntry (formatHostEntry (hk_host e) (hk_port e)) = (hk_host e, hk_port e)"
proof (cases "hk_port e = 22")
  case True
  with assms show ?thesis by (simp add: lineEntry_def formatHostEntry_def parseHostEntry_def)
next
  case False
  with assms have p: "0 \<le> hk_port e" and h: "hk_host e \<noteq> []" "CHR '']'' \<notin> set (hk_host e)"
    by (simp_all add: lineEntry_def token_def)
  have d: "showNat (nat (hk_port e)) \<noteq> []" "list_all isDigit (showNat (nat (hk_port e)))"
    using showNat_digits[of "nat (hk_port e)"] by simp_all
  have "bracketMatch (CHR ''['' # hk_host e @ CHR '']'' # CHR '':'' # showNat (nat (hk_port e))) =
          Some (hk_host e, showNat (nat (hk_port e)))"
    by (rule bracketMatch_format_cons[OF h d])
  then show ?thesis using False p
    by (simp add: formatHostEntry_def parseHostEntry_def showInt_nonneg[OF p] parseIntDigits_showNat)
qed

lemma startsWith_single: "startsWith s [c] \<longleftrightarrow> s \<noteq> [] \<and> hd s = c"
  by (cases s) (auto simp add: startsWith_def)

lemma hd_formatHostEntry:
  "hd (formatHostEntry h p) = (if p = 22 then hd h else CHR ''['')"
  by (simp add: formatHostEntry_def)

lemma token_ends: "token s \<Longrightarrow> s \<noteq> [] \<and> \<not> isWhiteSpace (hd s) \<and> \<not> isWhiteSpace (last s)"
  by (simp add: token_def)

lemma parse_format_line:
  assumes "lineEntry e"
  shows "parseKnownHostsLine (formatKnownHostsLine e) = (if commentLike e then None else Some e)"
proof -
  define he where "he = formatHostEntry (hk_host e) (hk_port e)"
  define kt where "kt = hk_keyType e"
  define k where "k = hk_key e"
  define l where "l = he @ CHR '' '' # kt @ CHR '' '' # k"
  have fl: "formatKnownHostsLine e = l"
    by (simp add: formatKnownHostsLine_def l_def he_def kt_def k_def)
  have the: "token he" unfolding he_def by (rule token_formatHostEntry[OF assms])
  have tkt: "token kt" and tk: "token k" and th: "token (hk_host e)"
    using assms by (simp_all add: lineEntry_def kt_def k_def)
  note e1 = token_ends[OF the] and e2 = token_ends[OF tkt] and e3 = token_ends[OF tk]
  have ne: "l \<noteq> []" by (simp add: l_def)
  have hdl: "hd l = hd he" using e1 by (simp add: l_def)
  have lastl: "last l = last k" using e3 by (simp add: l_def)
  have tr: "trim l = l" using ne hdl lastl e1 e3 by (simp add: trim_ends)
  have s3: "splitWs k = [k]" by (rule splitWs_token[OF tk])
  have s2: "splitWs (kt @ CHR '' '' # k) = [kt, k]"
    using splitWs_token_space[OF tkt, of k] e3 s3 by simp
  have s1: "splitWs l = [he, kt, k]"
    unfolding l_def using splitWs_token_space[OF the, of "kt @ CHR '' '' # k"] e2 s2 by simp
  have sw: "startsWith l ''#'' \<longleftrightarrow> commentLike e"
    using ne hdl token_ends[OF th]
    by (simp add: startsWith_single he_def hd_formatHostEntry commentLike_def)
  have ph: "parseHostEntry he = (hk_host e, hk_port e)"
    unfolding he_def by (rule parseHostEntry_format[OF assms])
  have rec: "\<lparr> hk_host = hk_host e, hk_port = hk_port e, hk_keyType = kt, hk_key = k \<rparr> = e"
    by (simp add: kt_def k_def)
  show ?thesis unfolding fl
    using ne e1 e2 e3 by (simp add: parseKnownHostsLine_def tr sw s1 ph rec)
qed

lemma parseKnownHostsLine_Some:
  assumes "parseKnownHostsLine l = Some e"
  shows "lineEntry e"
proof -
  from assms obtain a b c r where sp: "splitWs (trim l) = a # b # c # r"
    and ne: "a \<noteq> []" "b \<noteq> []" "c \<noteq> []"
    and e: "e = \<lparr> hk_host = fst (parseHostEntry a), hk_port = snd (parseHostEntry a),
                  hk_keyType = b, hk_key = c \<rparr>"
    by (auto simp add: parseKnownHostsLine_def Let_def split: if_splits list.splits prod.splits)
  have mem: "a \<in> set (splitWs (trim l))" "b \<in> set (splitWs (trim l))" "c \<in> set (splitWs (trim l))"
    by (simp_all add: sp)
  have ta: "token a" and tb: "token b" and tc: "token c"
    using ne splitWs_no_space[OF mem(1)] splitWs_no_space[OF mem(2)] splitWs_no_space[OF mem(3)]
    by (auto simp add: token_def)
  show ?thesis
  proof (cases "bracketMatch a")
    case None
    then show ?thesis using ta tb tc by (simp add: e lineEntry_def parseHostEntry_def)
  next
    case (Some hd)
    obtain h d where hd: "hd = (h, d)" by (cases hd)
    from bracketMatch_Some[OF Some[unfolded hd]]
    have a: "a = ''['' @ h @ '']:'' @ d" and h: "h \<noteq> []" "CHR '']'' \<notin> set h" and d: "list_all isDigit d"
      by simp_all
    have "set h \<subseteq> set a" by (auto simp add: a)
    with ta h have th: "token h" by (auto simp add: token_def)
    have p: "0 \<le> parseIntDigits d" by (rule parseIntDigits_nonneg[OF d])
    show ?thesis using th tb tc h p
      by (simp add: e lineEntry_def parseHostEntry_def Some hd bracketMatch_no_bracket)
  qed
qed

lemma formatKnownHostsLine_no_newline:
  assumes "lineEntry e"
  shows "CHR 0x0A \<notin> set (formatKnownHostsLine e)"
proof -
  have t: "\<And>s. token s \<Longrightarrow> CHR 0x0A \<notin> set s"
    using space_isWhiteSpace(2) by (auto simp add: token_def)
  have "CHR 0x0A \<notin> set (formatHostEntry (hk_host e) (hk_port e))"
    by (rule t[OF token_formatHostEntry[OF assms]])
  moreover have "CHR 0x0A \<notin> set (hk_keyType e)" "CHR 0x0A \<notin> set (hk_key e)"
    using assms by (simp_all add: lineEntry_def t)
  ultimately show ?thesis by (simp add: formatKnownHostsLine_def)
qed

subsection \<open>Whole files\<close>

lemma splitChar_ne: "splitChar c s \<noteq> []"
  by (induction s) (auto split: list.splits)

lemma splitChar_append: "splitChar c (a @ c # b) = splitChar c a @ splitChar c b"
  by (induction a) (auto simp add: splitChar_ne split: list.splits)

lemma splitChar_none: "c \<notin> set s \<Longrightarrow> splitChar c s = [s]"
  by (induction s) auto

lemma parseKnownHosts_append:
  "parseKnownHosts (a @ CHR 0x0A # b) = parseKnownHosts a @ parseKnownHosts b"
  by (simp add: parseKnownHosts_def splitChar_append List.map_filter_def)

lemma parseKnownHosts_line:
  "CHR 0x0A \<notin> set l \<Longrightarrow>
   parseKnownHosts l = (case parseKnownHostsLine l of None \<Rightarrow> [] | Some e \<Rightarrow> [e])"
  by (simp add: parseKnownHosts_def splitChar_none List.map_filter_def split: option.splits)

lemma parseKnownHostsLine_ignored:
  "trim l = [] \<or> startsWith (trim l) ''#'' \<Longrightarrow> parseKnownHostsLine l = None"
  by (auto simp add: parseKnownHostsLine_def)

lemma parseKnownHosts_Nil: "parseKnownHosts [] = []"
  by (simp add: parseKnownHosts_line parseKnownHostsLine_ignored trim_Nil)

lemma formatKnownHosts_Nil: "formatKnownHosts [] = [CHR 0x0A]"
  by (simp add: formatKnownHosts_def)

lemma formatKnownHosts_Cons:
  "formatKnownHosts (x # xs) =
     formatKnownHostsLine x @ CHR 0x0A # (if xs = [] then [] else formatKnownHosts xs)"
  by (cases xs) (simp_all add: formatKnownHosts_def)

lemma parse_format:
  "\<forall>x \<in> set xs. lineEntry x \<Longrightarrow>
   parseKnownHosts (formatKnownHosts xs) = filter (\<lambda>e. \<not> commentLike e) xs"
proof (induction xs)
  case Nil
  have "parseKnownHostsLine [] = None" by (simp add: parseKnownHostsLine_ignored trim_Nil)
  then show ?case
    by (simp add: formatKnownHosts_Nil parseKnownHosts_def List.map_filter_def)
next
  case (Cons x xs)
  then have x: "lineEntry x" and xs: "\<forall>x \<in> set xs. lineEntry x" by simp_all
  have one: "parseKnownHosts (formatKnownHostsLine x) = (if commentLike x then [] else [x])"
    by (simp add: parseKnownHosts_line[OF formatKnownHostsLine_no_newline[OF x]] parse_format_line[OF x])
  have rest: "parseKnownHosts (if xs = [] then [] else formatKnownHosts xs) =
      filter (\<lambda>e. \<not> commentLike e) xs"
    using Cons.IH[OF xs] by (simp add: parseKnownHosts_Nil)
  show ?case
    by (simp only: formatKnownHosts_Cons parseKnownHosts_append one rest) simp
qed

lemma parseKnownHosts_lineEntry: "x \<in> set (parseKnownHosts s) \<Longrightarrow> lineEntry x"
proof -
  assume "x \<in> set (parseKnownHosts s)"
  then obtain l where "parseKnownHostsLine l = Some x"
    by (auto simp add: parseKnownHosts_def List.map_filter_def)
  then show ?thesis by (rule parseKnownHostsLine_Some)
qed

lemma loadKnownHosts_lineEntry: "x \<in> set (loadKnownHosts f) \<Longrightarrow> lineEntry x"
  by (cases f) (simp_all add: loadKnownHosts_def parseKnownHosts_lineEntry)

lemma load_pin:
  assumes "lineEntry e"
  shows "loadKnownHosts (pinHostKey e f) =
     filter (\<lambda>x. \<not> commentLike x) (filter (\<lambda>x. \<not> sameTuple e x) (loadKnownHosts f) @ [e])"
proof -
  have p: "pinHostKey e f = Some (formatKnownHosts (filter (\<lambda>x. \<not> sameTuple e x) (loadKnownHosts f) @ [e]))"
    by (simp add: pinHostKey_def saveKnownHosts_def sameTuple_def Let_def)
  have "\<forall>x \<in> set (filter (\<lambda>x. \<not> sameTuple e x) (loadKnownHosts f) @ [e]). lineEntry x"
    using assms loadKnownHosts_lineEntry by auto
  from parse_format[OF this] show ?thesis by (simp add: p loadKnownHosts_def)
qed

section \<open>Trust store: pinning is idempotent\<close>

lemma sameTuple_eq: "sameTuple e e' \<Longrightarrow> sameTuple e' = sameTuple e"
  by (auto simp add: sameTuple_def fun_eq_iff)

lemma load_pin_ok:
  assumes "lineEntry e" and "\<not> commentLike e"
  shows "loadKnownHosts (pinHostKey e f) =
     filter (\<lambda>x. \<not> sameTuple e x \<and> \<not> commentLike x) (loadKnownHosts f) @ [e]"
  using assms(2) by (simp add: load_pin[OF assms(1)])

text \<open>
  Claim C4, as amended.  For entries whose host, key type and key are non-empty words
  without white space, whose port is a safe integer, whose host is not in bracket form when
  the port is 22 and has no closing bracket otherwise, and that are not rendered as a
  comment line, and for a file in which every port is a safe integer: pinning the same
  entry twice leaves exactly that entry for its (host, port,
  key type), and changes nothing compared to pinning it once; pinning another key for the
  same tuple leaves exactly the new entry for it; and the entries of the same host and port
  with another key type are what they were before the pin.
\<close>

theorem pinHostKey_idempotent:
  assumes "wellFormedEntry e" and "wellFormedEntry e'" and "sameTuple e e'"
    and "list_all (\<lambda>x. safeInteger (hk_port x)) (loadKnownHosts f)"
  shows "filter (sameTuple e) (loadKnownHosts (pinHostKey e (pinHostKey e f))) = [e] \<and>
     loadKnownHosts (pinHostKey e (pinHostKey e f)) = loadKnownHosts (pinHostKey e f) \<and>
     filter (sameTuple e) (loadKnownHosts (pinHostKey e' (pinHostKey e f))) = [e'] \<and>
     filter (\<lambda>x. hk_host x = hk_host e \<and> hk_port x = hk_port e \<and> hk_keyType x \<noteq> hk_keyType e)
       (loadKnownHosts (pinHostKey e' f)) =
     filter (\<lambda>x. hk_host x = hk_host e \<and> hk_port x = hk_port e \<and> hk_keyType x \<noteq> hk_keyType e)
       (loadKnownHosts f)"
proof -
  have le: "lineEntry e" "\<not> commentLike e" and le': "lineEntry e'" "\<not> commentLike e'"
    using assms(1,2) by (simp_all add: wellFormedEntry_def)
  have se: "sameTuple e e" by (simp add: sameTuple_def)
  have se': "sameTuple e' = sameTuple e" by (rule sameTuple_eq[OF assms(3)])
  note lp = load_pin_ok[OF le] and lp' = load_pin_ok[OF le']
  have twice: "loadKnownHosts (pinHostKey e (pinHostKey e f)) = loadKnownHosts (pinHostKey e f)"
    using se le(2) by (simp add: lp[of "pinHostKey e f"] lp[of f] conj_commute cong: conj_cong)
  have one: "filter (sameTuple e) (loadKnownHosts (pinHostKey e f)) = [e]"
    using se by (auto simp add: lp[of f] filter_empty_conv)
  have repl: "filter (sameTuple e) (loadKnownHosts (pinHostKey e' (pinHostKey e f))) = [e']"
    using assms(3) by (auto simp add: lp'[of "pinHostKey e f"] se' filter_empty_conv)
  have keep: "filter (\<lambda>x. hk_host x = hk_host e \<and> hk_port x = hk_port e \<and> hk_keyType x \<noteq> hk_keyType e)
       (loadKnownHosts (pinHostKey e' f)) =
     filter (\<lambda>x. hk_host x = hk_host e \<and> hk_port x = hk_port e \<and> hk_keyType x \<noteq> hk_keyType e)
       (loadKnownHosts f)"
  proof -
    have "filter (\<lambda>x. (\<not> sameTuple e x \<and> \<not> commentLike x) \<and>
              (hk_host x = hk_host e \<and> hk_port x = hk_port e \<and> hk_keyType x \<noteq> hk_keyType e))
            (loadKnownHosts f) =
          filter (\<lambda>x. hk_host x = hk_host e \<and> hk_port x = hk_port e \<and> hk_keyType x \<noteq> hk_keyType e)
            (loadKnownHosts f)"
      using le(2) by (intro filter_cong refl) (auto simp add: sameTuple_def commentLike_def)
    then show ?thesis using assms(3) by (simp add: lp'[of f] se' sameTuple_def)
  qed
  show ?thesis using one twice repl keep by simp
qed

lemma exampleKnownHosts_parse:
  "parseKnownHosts exampleKnownHosts = [exampleBracketEntry, examplePlainEntry]"
  by code_simp

lemma exampleKnownHosts_format:
  "formatKnownHosts [exampleBracketEntry, examplePlainEntry] =
     ''[10.0.0.5]:2222 ssh-ed25519 AAAAC3\<newline>example.org ssh-rsa AAAAB3\<newline>''"
  by code_simp

lemma example_wellFormed: "wellFormedEntry examplePin" "wellFormedEntry exampleRepin"
  by code_simp+

lemma example_safe: "list_all (\<lambda>x. safeInteger (hk_port x)) (loadKnownHosts (Some exampleKnownHosts))"
  by code_simp

lemma example_pinned:
  "loadKnownHosts (pinHostKey exampleRepin (pinHostKey examplePin (Some exampleKnownHosts))) =
     [exampleBracketEntry, examplePlainEntry, exampleRepin]"
  by code_simp

theorem pinHostKey_idempotent_witness:
  "wellFormedEntry examplePin \<and> wellFormedEntry exampleRepin \<and> sameTuple examplePin exampleRepin \<and>
   list_all (\<lambda>x. safeInteger (hk_port x)) (loadKnownHosts (Some exampleKnownHosts)) \<and>
   filter (sameTuple examplePin)
     (loadKnownHosts (pinHostKey examplePin (pinHostKey examplePin (Some exampleKnownHosts)))) = [examplePin] \<and>
   filter (sameTuple examplePin)
     (loadKnownHosts (pinHostKey exampleRepin (pinHostKey examplePin (Some exampleKnownHosts)))) = [exampleRepin] \<and>
   filter (\<lambda>x. hk_host x = ''example.org'' \<and> hk_port x = 22 \<and> hk_keyType x \<noteq> ''ssh-ed25519'')
     (loadKnownHosts (pinHostKey exampleRepin (Some exampleKnownHosts))) = [examplePlainEntry]"
proof -
  have st: "sameTuple examplePin exampleRepin"
    by (simp add: sameTuple_def examplePin_def exampleRepin_def)
  have ld: "filter (\<lambda>x. hk_host x = ''example.org'' \<and> hk_port x = 22 \<and> hk_keyType x \<noteq> ''ssh-ed25519'')
     (loadKnownHosts (Some exampleKnownHosts)) = [examplePlainEntry]"
    by (simp add: loadKnownHosts_def exampleKnownHosts_parse)
       (simp add: exampleBracketEntry_def examplePlainEntry_def)
  note t = pinHostKey_idempotent[OF example_wellFormed st example_safe]
  have a: "filter (sameTuple examplePin)
     (loadKnownHosts (pinHostKey examplePin (pinHostKey examplePin (Some exampleKnownHosts)))) = [examplePin]"
    by (rule t[THEN conjunct1])
  have b: "filter (sameTuple examplePin)
     (loadKnownHosts (pinHostKey exampleRepin (pinHostKey examplePin (Some exampleKnownHosts)))) = [exampleRepin]"
    by (rule t[THEN conjunct2, THEN conjunct2, THEN conjunct1])
  have c: "filter (\<lambda>x. hk_host x = ''example.org'' \<and> hk_port x = 22 \<and> hk_keyType x \<noteq> ''ssh-ed25519'')
     (loadKnownHosts (pinHostKey exampleRepin (Some exampleKnownHosts))) = [examplePlainEntry]"
    using t[THEN conjunct2, THEN conjunct2, THEN conjunct2] ld
    by (simp add: examplePin_def)
  show ?thesis by (intro conjI example_wellFormed st example_safe a b c)
qed

text \<open>
  An entry with an empty key is written as a line of two words, which is not read back:
  after pinning it twice the trust store holds no entry for its (host, port, key type).
\<close>

theorem pinHostKey_empty_key_counterexample:
  "pinHostKey emptyKeyEntry None = Some ''h t \<newline>'' \<and>
   pinHostKey emptyKeyEntry (pinHostKey emptyKeyEntry None) = Some ''h t \<newline>'' \<and>
   filter (sameTuple emptyKeyEntry)
     (loadKnownHosts (pinHostKey emptyKeyEntry (pinHostKey emptyKeyEntry None))) = []"
  by code_simp

section \<open>Trust store: the round trip of the file\<close>

text \<open>
  Claim C5, as amended.  If no entry read from \<open>s\<close> has port 22 together with a host that
  starts with \<open>#\<close>, and every port read is a safe integer, then the re-serialisation of \<open>s\<close>
  is read back as the same entries and re-serialised to the same text.  An entry with port
  22 is rendered as the bare host, one with another port in bracket form; and a line that is
  blank or starts with \<open>#\<close> after trimming contributes no entry.
\<close>

theorem known_hosts_round_trip:
  "(list_all (\<lambda>e. \<not> commentLike e \<and> safeInteger (hk_port e)) (parseKnownHosts s) \<longrightarrow>
      parseKnownHosts (formatKnownHosts (parseKnownHosts s)) = parseKnownHosts s \<and>
      formatKnownHosts (parseKnownHosts (formatKnownHosts (parseKnownHosts s))) =
        formatKnownHosts (parseKnownHosts s)) \<and>
   formatHostEntry h 22 = h \<and>
   (p \<noteq> 22 \<longrightarrow> formatHostEntry h p = ''['' @ h @ '']:'' @ showInt p) \<and>
   (CHR 0x0A \<notin> set l \<and> (trim l = [] \<or> startsWith (trim l) ''#'') \<longrightarrow>
      parseKnownHosts (a @ [CHR 0x0A] @ l @ [CHR 0x0A] @ b) = parseKnownHosts (a @ [CHR 0x0A] @ b))"
proof -
  have rt: "parseKnownHosts (formatKnownHosts (parseKnownHosts s)) = parseKnownHosts s"
    if h: "list_all (\<lambda>e. \<not> commentLike e \<and> safeInteger (hk_port e)) (parseKnownHosts s)"
  proof -
    have "\<forall>x \<in> set (parseKnownHosts s). lineEntry x" by (simp add: parseKnownHosts_lineEntry)
    from parse_format[OF this] h show ?thesis by (simp add: list_all_iff)
  qed
  have skip: "parseKnownHosts (a @ [CHR 0x0A] @ l @ [CHR 0x0A] @ b) = parseKnownHosts (a @ [CHR 0x0A] @ b)"
    if n: "CHR 0x0A \<notin> set l" and i: "trim l = [] \<or> startsWith (trim l) ''#''"
  proof -
    have "parseKnownHosts l = []"
      by (simp add: parseKnownHosts_line[OF n] parseKnownHostsLine_ignored[OF i])
    then have "parseKnownHosts (a @ CHR 0x0A # l @ CHR 0x0A # b) = parseKnownHosts (a @ CHR 0x0A # b)"
      by (simp only: parseKnownHosts_append append_Nil)
    then show ?thesis by simp
  qed
  show ?thesis using rt skip by (simp add: formatHostEntry_def)
qed

lemma example_ignored:
  "parseKnownHosts (''a b c'' @ [CHR 0x0A] @ '' # x'' @ [CHR 0x0A] @ ''d e f'') =
   parseKnownHosts (''a b c'' @ [CHR 0x0A] @ ''d e f'')"
  by code_simp

theorem known_hosts_round_trip_witness:
  "list_all (\<lambda>e. \<not> commentLike e \<and> safeInteger (hk_port e)) (parseKnownHosts exampleKnownHosts) \<and>
   parseKnownHosts exampleKnownHosts = [exampleBracketEntry, examplePlainEntry] \<and>
   formatKnownHosts (parseKnownHosts exampleKnownHosts) =
     ''[10.0.0.5]:2222 ssh-ed25519 AAAAC3\<newline>example.org ssh-rsa AAAAB3\<newline>'' \<and>
   formatKnownHosts (parseKnownHosts (formatKnownHosts (parseKnownHosts exampleKnownHosts))) =
     formatKnownHosts (parseKnownHosts exampleKnownHosts) \<and>
   formatHostEntry ''example.org'' 22 = ''example.org'' \<and>
   formatHostEntry ''10.0.0.5'' 2222 = ''[10.0.0.5]:2222'' \<and>
   CHR 0x0A \<notin> set '' # x'' \<and> startsWith (trim '' # x'') ''#'' \<and>
   parseKnownHosts (''a b c'' @ [CHR 0x0A] @ '' # x'' @ [CHR 0x0A] @ ''d e f'') =
     parseKnownHosts (''a b c'' @ [CHR 0x0A] @ ''d e f'')"
proof -
  have h: "list_all (\<lambda>e. \<not> commentLike e \<and> safeInteger (hk_port e)) (parseKnownHosts exampleKnownHosts)"
    by code_simp
  have f: "formatHostEntry ''10.0.0.5'' 2222 = ''[10.0.0.5]:2222''" by code_simp
  have c: "CHR 0x0A \<notin> set '' # x''" "startsWith (trim '' # x'') ''#''" by code_simp+
  from known_hosts_round_trip[of exampleKnownHosts "''example.org''" 2222 "'' # x''" "''a b c''" "''d e f''"]
  have "formatKnownHosts (parseKnownHosts (formatKnownHosts (parseKnownHosts exampleKnownHosts))) =
     formatKnownHosts (parseKnownHosts exampleKnownHosts)"
    and "formatHostEntry ''example.org'' 22 = ''example.org''"
    and "parseKnownHosts (''a b c'' @ [CHR 0x0A] @ '' # x'' @ [CHR 0x0A] @ ''d e f'') =
     parseKnownHosts (''a b c'' @ [CHR 0x0A] @ ''d e f'')"
    using h c by blast+
  then show ?thesis using h f c
    by (simp only: exampleKnownHosts_parse exampleKnownHosts_format simp_thms)
qed

text \<open>
  The line \<open>[#x]:22 t k\<close> is read as host \<open>#x\<close> at port 22 and written back as
  \<open>#x t k\<close>, which is a comment when read again: the re-serialisation is not stable.
\<close>

theorem known_hosts_hash_host_counterexample:
  "formatKnownHosts (parseKnownHosts ''[#x]:22 t k'') = ''#x t k\<newline>'' \<and>
   formatKnownHosts (parseKnownHosts ''#x t k\<newline>'') = ''\<newline>'' \<and>
   formatKnownHosts (parseKnownHosts (formatKnownHosts (parseKnownHosts ''[#x]:22 t k''))) \<noteq>
     formatKnownHosts (parseKnownHosts ''[#x]:22 t k'')"
  by code_simp
end
